(* ===== verification/Kms_Prelude.thy ===== *)
theory Kms_Prelude
  imports Main "HOL-Library.Word" "HOL-Library.Sublist" "HOL-Library.Char_ord"
    "HOL-Library.List_Lexorder" "HOL-Library.Product_Lexorder"
begin

text \<open>
  Shared vocabulary of the development: Rust's fixed-width integers as words, Rust's
  ways of leaving a function (a value, an error, a panic), the parts of the standard
  library the sources use (paths, a lockable cell that can be poisoned, the ordered map
  behind \<^verbatim>\<open>crate::Map\<close>), and the generic lemmas on them that the component
  theories share.  Errors are modelled by their kind: the formatted message of an error
  is only logged and no code branches on it.
\<close>

named_theorems outcome_defs \<open>sequencing of fallible and stateful code\<close>
named_theorems cast_simps \<open>integer casts that lose nothing\<close>

section \<open>Machine integers and bytes\<close>

type_synonym u8 = "8 word"
type_synonym u16 = "16 word"
type_synonym u32 = "32 word"
type_synonym u64 = "64 word"
type_synonym i32 = "32 word"
type_synonym i64 = "64 word"
type_synonym bytes = "u8 list"

text \<open>
  Rust's \<^verbatim>\<open>as\<close> between integer types: narrowing keeps the low bits, widening
  zero-extends an unsigned source and sign-extends a signed one.  A signed value is a
  word read with \<open>sint\<close>.
\<close>

abbreviation (input) trunc_u16 :: "i64 \<Rightarrow> u16" where "trunc_u16 \<equiv> ucast"
abbreviation (input) trunc_32 :: "i64 \<Rightarrow> 32 word" where "trunc_32 \<equiv> ucast"
abbreviation (input) sext_64 :: "i32 \<Rightarrow> i64" where "sext_64 \<equiv> scast"
abbreviation (input) zext_64 :: "u32 \<Rightarrow> i64" where "zext_64 \<equiv> ucast"

lemma trunc_sext [simp, cast_simps]: "trunc_32 (sext_64 x) = x"
  by (rule bit_word_eqI) (simp add: bit_simps)

lemma trunc_zext [simp, cast_simps]: "trunc_32 (zext_64 x) = x"
  by (rule bit_word_eqI) (simp add: bit_simps)

lemma trunc_u16_wraps: "trunc_u16 (x + 65536) = trunc_u16 x"
proof transfer
  fix i :: int
  have "take_bit 16 (i + 65536) = take_bit 16 i"
    by (simp add: take_bit_eq_mod)
  then show "take_bit LENGTH(16) (take_bit LENGTH(64) (i + 65536)) =
      take_bit LENGTH(16) (take_bit LENGTH(64) i)"
    by (simp add: take_bit_take_bit)
qed

definition checked_add :: "u64 \<Rightarrow> u64 \<Rightarrow> u64 option" where
  "checked_add a b = (if unat a + unat b < 2 ^ 64 then Some (a + b) else None)"

definition checked_sub :: "u64 \<Rightarrow> u64 \<Rightarrow> u64 option" where
  "checked_sub a b = (if b \<le> a then Some (a - b) else None)"

lemma checked_add_SomeD: "checked_add a b = Some c \<Longrightarrow> c = a + b \<and> unat c = unat a + unat b"
  by (auto simp: checked_add_def unat_word_ariths split: if_splits)

lemma checked_sub_SomeD: "checked_sub a b = Some c \<Longrightarrow> c = a - b \<and> unat c = unat a - unat b"
  by (auto simp: checked_sub_def unat_sub split: if_splits)

text \<open>\<^verbatim>\<open>str::as_bytes\<close> and the decimal text that \<^verbatim>\<open>format!\<close> prints for an integer.\<close>

definition str_bytes :: "string \<Rightarrow> bytes" where
  "str_bytes s = map (\<lambda>c. word_of_nat (of_char c)) s"

fun show_nat :: "nat \<Rightarrow> string" where
  "show_nat n = (if n < 10 then [char_of (48 + n)]
                 else show_nat (n div 10) @ [char_of (48 + n mod 10)])"

declare show_nat.simps [simp del]

lemma show_nat_digits: "c \<in> set (show_nat n) \<Longrightarrow> of_char c \<in> {48..<58 :: nat}"
proof (induction n rule: show_nat.induct)
  case (1 n)
  then show ?case by (subst (asm) show_nat.simps) (auto split: if_splits)
qed

definition show_int :: "int \<Rightarrow> string" where
  "show_int i = (if i < 0 then ''-'' @ show_nat (nat (- i)) else show_nat (nat i))"

section \<open>Values, errors and panics\<close>

text \<open>
  A panic carries a payload; \<^verbatim>\<open>Error::from_panic\<close> tries to read it as a
  \<^verbatim>\<open>String\<close> and then as a \<^verbatim>\<open>&str\<close>.
\<close>

datatype panic_payload = Payload_String string | Payload_str string | Payload_other

datatype ('e, 'a) outcome = Done 'a | Failed 'e | Panicked panic_payload

fun obind :: "('e, 'a) outcome \<Rightarrow> ('a \<Rightarrow> ('e, 'b) outcome) \<Rightarrow> ('e, 'b) outcome" where
  "obind (Done a) f = f a"
| "obind (Failed e) f = Failed e"
| "obind (Panicked p) f = Panicked p"

fun map_err :: "('e \<Rightarrow> 'f) \<Rightarrow> ('e, 'a) outcome \<Rightarrow> ('f, 'a) outcome" where
  "map_err g (Done a) = Done a"
| "map_err g (Failed e) = Failed (g e)"
| "map_err g (Panicked p) = Panicked p"

fun is_done :: "('e, 'a) outcome \<Rightarrow> bool" where
  "is_done (Done a) = True"
| "is_done (Failed e) = False"
| "is_done (Panicked p) = False"

fun is_panic :: "('e, 'a) outcome \<Rightarrow> bool" where
  "is_panic (Panicked p) = True"
| "is_panic (Done a) = False"
| "is_panic (Failed e) = False"

text \<open>\<^verbatim>\<open>ok_or_else\<close>: an absent value becomes an error.\<close>

definition ok_or :: "'e \<Rightarrow> 'a option \<Rightarrow> ('e, 'a) outcome" where
  "ok_or e x = (case x of None \<Rightarrow> Failed e | Some a \<Rightarrow> Done a)"

text \<open>\<^verbatim>\<open>unwrap\<close> and \<^verbatim>\<open>expect\<close>: an absent value becomes a panic.\<close>

definition unwrap_or_panic :: "panic_payload \<Rightarrow> 'a option \<Rightarrow> ('e, 'a) outcome" where
  "unwrap_or_panic p x = (case x of None \<Rightarrow> Panicked p | Some a \<Rightarrow> Done a)"

lemma ok_or_simps [simp]: "ok_or e None = Failed e" "ok_or e (Some a) = Done a"
  by (simp_all add: ok_or_def)

lemma unwrap_or_panic_simps [simp]:
  "unwrap_or_panic p None = Panicked p" "unwrap_or_panic p (Some a) = Done a"
  by (simp_all add: unwrap_or_panic_def)

lemma obind_DoneD: "obind x f = Done b \<Longrightarrow> \<exists>a. x = Done a \<and> f a = Done b"
  by (cases x) auto

lemma obind_Done_iff: "obind x f = Done b \<longleftrightarrow> (\<exists>a. x = Done a \<and> f a = Done b)"
  by (cases x) auto

lemma ok_or_Done_iff [simp]: "ok_or e x = Done a \<longleftrightarrow> x = Some a"
  by (cases x) auto

lemma unwrap_or_panic_Done_iff [simp]: "unwrap_or_panic p x = Done a \<longleftrightarrow> x = Some a"
  by (cases x) auto

lemma ok_or_no_panic [simp]: "\<not> is_panic (ok_or e x)"
  by (cases x) auto

lemma map_err_Done_iff [simp]: "map_err g x = Done a \<longleftrightarrow> x = Done a"
  by (cases x) auto

lemma is_panic_map_err [simp]: "is_panic (map_err g x) = is_panic x"
  by (cases x) auto

lemma is_done_iff: "is_done x \<longleftrightarrow> (\<exists>a. x = Done a)"
  by (cases x) auto

lemma is_panic_obind: "is_panic (obind x f) \<longleftrightarrow> is_panic x \<or> (\<exists>a. x = Done a \<and> is_panic (f a))"
  by (cases x) auto

text \<open>
  Code that changes state returns the new state beside its outcome: an error or a panic
  in Rust does not undo what was written before it.
\<close>

type_synonym ('s, 'e, 'a) run = "'s \<times> ('e, 'a) outcome"

definition rbind :: "('s, 'e, 'a) run \<Rightarrow> ('s \<Rightarrow> 'a \<Rightarrow> ('s, 'e, 'b) run) \<Rightarrow> ('s, 'e, 'b) run" where
  "rbind r f = (case r of (s, Done a) \<Rightarrow> f s a
                        | (s, Failed e) \<Rightarrow> (s, Failed e)
                        | (s, Panicked p) \<Rightarrow> (s, Panicked p))"

lemma rbind_simps [simp, outcome_defs]:
  "rbind (s, Done a) f = f s a"
  "rbind (s, Failed e) f = (s, Failed e)"
  "rbind (s, Panicked p) f = (s, Panicked p)"
  by (simp_all add: rbind_def)

lemma rbind_split:
  "rbind r f = (case snd r of Done a \<Rightarrow> f (fst r) a
                            | Failed e \<Rightarrow> (fst r, Failed e)
                            | Panicked p \<Rightarrow> (fst r, Panicked p))"
  by (cases r; cases "snd r") auto

lemma rbind_DoneD: "rbind r f = (s', Done b) \<Longrightarrow> \<exists>s a. r = (s, Done a) \<and> f s a = (s', Done b)"
  by (cases r; cases "snd r") (auto simp: rbind_def)

lemma is_panic_rbind:
  "is_panic (snd (rbind r f)) \<longleftrightarrow>
     is_panic (snd r) \<or> (\<exists>s a. r = (s, Done a) \<and> is_panic (snd (f s a)))"
  by (cases r; cases "snd r") auto

lemma rbind_keeps:
  "I (fst r) \<Longrightarrow> (\<And>s a. I s \<Longrightarrow> I (fst (f s a))) \<Longrightarrow> I (fst (rbind r f))"
  by (cases r; cases "snd r") auto

text \<open>
  A loop over a slice that returns at the first error: each element transforms the state.
\<close>

fun for_each :: "('x \<Rightarrow> 's \<Rightarrow> ('s, 'e, unit) run) \<Rightarrow> 'x list \<Rightarrow> 's \<Rightarrow> ('s, 'e, unit) run" where
  "for_each f [] s = (s, Done ())"
| "for_each f (x # xs) s = rbind (f x s) (\<lambda>s' _. for_each f xs s')"

lemma for_each_append:
  "for_each f (xs @ ys) s = rbind (for_each f xs s) (\<lambda>s' _. for_each f ys s')"
proof (induction xs arbitrary: s)
  case Nil
  then show ?case by simp
next
  case (Cons x xs)
  then show ?case by (cases "f x s"; cases "snd (f x s)") auto
qed

lemma for_each_invariant:
  assumes "\<And>x s. x \<in> set xs \<Longrightarrow> I s \<Longrightarrow> I (fst (f x s))" and "I s"
  shows "I (fst (for_each f xs s))"
  using assms
proof (induction xs arbitrary: s)
  case Nil
  then show ?case by simp
next
  case (Cons x xs)
  then have "I (fst (f x s))" by simp
  with Cons show ?case by (auto simp: rbind_split split: outcome.splits)
qed

lemma for_each_no_panic:
  "(\<And>x s. \<not> is_panic (snd (f x s))) \<Longrightarrow> \<not> is_panic (snd (for_each f xs s))"
  by (induction xs arbitrary: s) (auto simp: is_panic_rbind)

section \<open>Locks\<close>

text \<open>
  \<^verbatim>\<open>std::sync::Mutex\<close>: a panic of the thread that holds the guard poisons
  the lock, and \<^verbatim>\<open>lock().unwrap()\<close> on a poisoned lock panics with a message
  that names \<^verbatim>\<open>PoisonError\<close>.
\<close>

record 'a mutex =
  guarded :: 'a
  poisoned :: bool

definition mutex_new :: "'a \<Rightarrow> 'a mutex" where
  "mutex_new x = \<lparr>guarded = x, poisoned = False\<rparr>"

definition poison_payload :: panic_payload where
  "poison_payload =
     Payload_String ''called `Result::unwrap()` on an `Err` value: PoisonError { .. }''"

text \<open>
  Run the critical section \<open>f\<close> under the guard; it may also change the world \<open>w\<close> outside
  the lock, and a panic inside poisons the lock.
\<close>

definition with_lock ::
  "'a mutex \<Rightarrow> 'w \<Rightarrow> ('a \<Rightarrow> 'w \<Rightarrow> ('a \<times> 'w, 'e, 'b) run) \<Rightarrow> ('a mutex \<times> 'w, 'e, 'b) run" where
  "with_lock m w f =
     (if poisoned m then ((m, w), Panicked poison_payload)
      else case f (guarded m) w of
             ((x, w'), r) \<Rightarrow> ((\<lparr>guarded = x, poisoned = is_panic r\<rparr>, w'), r))"

lemma with_lock_poisoned [simp]:
  "poisoned m \<Longrightarrow> with_lock m w f = ((m, w), Panicked poison_payload)"
  by (simp add: with_lock_def)

lemma with_lock_unpoisoned:
  "\<not> poisoned m \<Longrightarrow> f (guarded m) w = ((x, w'), r) \<Longrightarrow>
     with_lock m w f = ((\<lparr>guarded = x, poisoned = is_panic r\<rparr>, w'), r)"
  by (simp add: with_lock_def)

lemma with_lock_done:
  assumes "with_lock m w f = ((m', w'), Done b)"
  shows "\<not> poisoned m" "\<not> poisoned m'" "f (guarded m) w = ((guarded m', w'), Done b)"
  using assms by (auto simp: with_lock_def split: if_splits prod.splits)

lemma with_lock_failed:
  assumes "with_lock m w f = ((m', w'), Failed e)"
  shows "\<not> poisoned m" "\<not> poisoned m'" "f (guarded m) w = ((guarded m', w'), Failed e)"
  using assms by (auto simp: with_lock_def split: if_splits prod.splits)

section \<open>Paths\<close>

text \<open>
  \<^verbatim>\<open>std::path::Path\<close> through its components: empty components and \<open>.\<close>
  are dropped (a leading \<open>.\<close> of a relative path is kept), and \<^verbatim>\<open>parent\<close>
  is absent for the root and for the empty path.
\<close>

record path =
  path_absolute :: bool
  path_components :: "string list"

fun split_on :: "'a \<Rightarrow> 'a list \<Rightarrow> 'a list list" where
  "split_on c [] = [[]]"
| "split_on c (x # xs) =
     (if x = c then [] # split_on c xs
      else case split_on c xs of [] \<Rightarrow> [[x]] | p # ps \<Rightarrow> (x # p) # ps)"

definition keep_component :: "string \<Rightarrow> bool" where
  "keep_component s \<longleftrightarrow> s \<noteq> [] \<and> s \<noteq> ''.''"

definition path_from :: "string \<Rightarrow> path" where
  "path_from s =
     (let parts = split_on CHR ''/'' s;
          body = filter keep_component parts
      in \<lparr>path_absolute = (s \<noteq> [] \<and> hd s = CHR ''/''),
          path_components = (if hd parts = ''.'' then ''.'' # body else body)\<rparr>)"

definition path_parent :: "path \<Rightarrow> path option" where
  "path_parent p =
     (if path_components p = [] then None
      else Some (p\<lparr>path_components := butlast (path_components p)\<rparr>))"

lemma split_on_not_Nil [simp]: "split_on c xs \<noteq> []"
  by (cases xs) (auto split: list.splits)

lemma split_on_no_sep [simp]: "c \<notin> set xs \<Longrightarrow> split_on c xs = [xs]"
  by (induction xs) auto

lemma concat_split_on: "concat (split_on c xs) = filter (\<lambda>x. x \<noteq> c) xs"
proof (induction xs)
  case Nil
  then show ?case by simp
next
  case (Cons x xs)
  then show ?case by (auto split: list.splits)
qed

lemma split_on_last_part:
  "c \<notin> set ys \<Longrightarrow> \<exists>ps p. split_on c (xs @ ys) = ps @ [p @ ys]"
proof (induction xs)
  case Nil
  then show ?case by simp
next
  case (Cons x xs)
  then obtain ps p where ps: "split_on c (xs @ ys) = ps @ [p @ ys]" by auto
  show ?case
  proof (cases ps)
    case Nil
    have "split_on c ((x # xs) @ ys) = (if x = c then [[]] @ [p @ ys] else [] @ [(x # p) @ ys])"
      using ps Nil by simp
    then show ?thesis by metis
  next
    case (Cons q qs)
    have "split_on c ((x # xs) @ ys) =
        (if x = c then ([] # ps) @ [p @ ys] else ((x # q) # qs) @ [p @ ys])"
      using ps Cons by simp
    then show ?thesis by metis
  qed
qed

end
