(* ===== verification/Kms_Error.thy ===== *)
theory Kms_Error
  imports Kms_Prelude
begin

text \<open>
  The error types: \<^verbatim>\<open>src/error.rs\<close> (kinds, the conversions that \<open>?\<close> applies,
  reading a panic payload) and \<^verbatim>\<open>src/chain/state/error.rs\<close>.  All optional cargo
  features are taken as enabled, so every kind is present.
\<close>

datatype error_kind =
    AccessError | ChainIdError | ConfigError | DoubleSign | ExceedMaxHeight | CryptoError
  | FortanixDsmError | HookError | HttpError | InvalidKey | InvalidMessageError | IoError
  | PanicError | ParseError | PoisonError | ProtocolError | SerializationError
  | SigningError | StdtxError | TendermintError | VerificationError | YubihsmError

datatype state_error_kind =
    HeightRegression | StepRegression | RoundRegression | State_DoubleSign | SyncError

text \<open>The error types of other crates and modules that convert into \<^verbatim>\<open>Error\<close>.\<close>

datatype foreign_error =
    Hyper_error | Hyper_http_error | Io_error
  | Prost_DecodeError | Prost_EncodeError | Amino_DecodeError | Amino_EncodeError
  | Serde_json_error | Stdtx_error | Tendermint_error | Tendermint_rpc_error
  | Chain_state_error state_error_kind | Yubihsm_client_error

fun error_from :: "foreign_error \<Rightarrow> error_kind" where
  "error_from Hyper_error = HttpError"
| "error_from Hyper_http_error = HttpError"
| "error_from Io_error = IoError"
| "error_from Prost_DecodeError = ProtocolError"
| "error_from Prost_EncodeError = ProtocolError"
| "error_from Amino_DecodeError = ProtocolError"
| "error_from Amino_EncodeError = ProtocolError"
| "error_from Serde_json_error = SerializationError"
| "error_from Stdtx_error = StdtxError"
| "error_from Tendermint_error = TendermintError"
| "error_from Tendermint_rpc_error = TendermintError"
| "error_from (Chain_state_error k) = DoubleSign"
| "error_from Yubihsm_client_error = YubihsmError"

definition from_panic :: "panic_payload \<Rightarrow> error_kind" where
  "from_panic p =
     (let err_msg = (case p of Payload_String msg \<Rightarrow> msg
                             | Payload_str msg \<Rightarrow> msg
                             | Payload_other \<Rightarrow> ''unknown cause'')
      in if sublist ''PoisonError'' err_msg then PoisonError else PanicError)"

lemma from_panic_poison [simp]: "from_panic poison_payload = PoisonError"
  by (simp add: from_panic_def poison_payload_def sublist_Cons_right)

lemma from_panic_cases: "from_panic p = PoisonError \<or> from_panic p = PanicError"
  by (simp add: from_panic_def Let_def)

text \<open>
  \<^verbatim>\<open>catch_unwind\<close> followed by \<^verbatim>\<open>unwrap_or_else(Error::from_panic)\<close>: no panic
  is left, and only a payload that names \<^verbatim>\<open>PoisonError\<close> becomes the fatal kind.
\<close>

fun catch_unwind :: "(error_kind, 'a) outcome \<Rightarrow> (error_kind, 'a) outcome" where
  "catch_unwind (Done a) = Done a"
| "catch_unwind (Failed e) = Failed e"
| "catch_unwind (Panicked p) = Failed (from_panic p)"

lemma catch_unwind_no_panic [simp]: "\<not> is_panic (catch_unwind r)"
  by (cases r) auto

lemma catch_unwind_Done_iff [simp]: "catch_unwind r = Done a \<longleftrightarrow> r = Done a"
  by (cases r) auto

end
