(* ===== verification/Tendermint_Api.thy ===== *)
theory Tendermint_Api
  imports Kms_Error
begin

text \<open>
  The data of the Tendermint crates that the sources build and take apart (the fields are
  the ones the sources name), and what the sources call in those crates.  The functions of
  the crates are parameters, gathered in the record \<open>tendermint_crate\<close>; what the KMS relies
  on is stated as named hypotheses after it.

  A \<^verbatim>\<open>block::Height\<close> is read through \<^verbatim>\<open>value()\<close>, a 64-bit unsigned number, and a
  \<^verbatim>\<open>block::Round\<close> is made from a 16-bit one.  No arithmetic is done on a consensus step,
  so its width plays no role and it is an \<open>int\<close>.
\<close>

section \<open>Blocks and the consensus state\<close>

type_synonym chain_id = string

record parts_header =
  ph_total :: u32
  ph_hash :: bytes

record block_id =
  id_hash :: bytes
  id_part_set_header :: parts_header

record consensus_state =
  cs_height :: u64
  cs_round :: u32
  cs_step :: int
  cs_block_id :: "block_id option"

record tendermint_crate =
  height_try_from :: "i64 \<Rightarrow> u64 option"
  parts_header_new :: "u32 \<Rightarrow> bytes \<Rightarrow> parts_header option"
  state_default :: consensus_state

text \<open>
  \<^verbatim>\<open>block::Height::try_from(i64)\<close> rejects exactly the negative numbers and keeps the value
  of the others; \<^verbatim>\<open>parts::Header::new\<close> may reject its arguments, and stores them otherwise.
\<close>

definition height_conversion :: "tendermint_crate \<Rightarrow> bool" where
  "height_conversion tm \<longleftrightarrow>
     (\<forall>h. height_try_from tm h = (if sint h < 0 then None else Some h))"

definition parts_header_stores :: "tendermint_crate \<Rightarrow> bool" where
  "parts_header_stores tm \<longleftrightarrow>
     (\<forall>t h p. parts_header_new tm t h = Some p \<longrightarrow> p = \<lparr>ph_total = t, ph_hash = h\<rparr>)"

lemma height_conversionD:
  "height_conversion tm \<Longrightarrow> height_try_from tm h = (if sint h < 0 then None else Some h)"
  by (simp add: height_conversion_def)

lemma parts_header_storesD:
  "parts_header_stores tm \<Longrightarrow> parts_header_new tm t h = Some p \<Longrightarrow>
     p = \<lparr>ph_total = t, ph_hash = h\<rparr>"
  by (simp add: parts_header_stores_def)

section \<open>Keys\<close>

datatype public_key = Ed25519 bytes | Secp256k1 bytes

datatype tendermint_key = AccountKey public_key | ConsensusKey public_key

fun key_of :: "tendermint_key \<Rightarrow> public_key" where
  "key_of (AccountKey pk) = pk"
| "key_of (ConsensusKey pk) = pk"

text \<open>
  Keys are ordered as the derived \<^verbatim>\<open>Ord\<close> orders them: by constructor, then by content.
  The order only decides how the keyring iterates.
\<close>

fun public_key_rank :: "public_key \<Rightarrow> nat \<times> bytes" where
  "public_key_rank (Ed25519 b) = (0, b)"
| "public_key_rank (Secp256k1 b) = (1, b)"

fun key_rank :: "tendermint_key \<Rightarrow> nat \<times> nat \<times> bytes" where
  "key_rank (AccountKey pk) = (0, public_key_rank pk)"
| "key_rank (ConsensusKey pk) = (1, public_key_rank pk)"

lemma public_key_rank_inj: "public_key_rank a = public_key_rank b \<Longrightarrow> a = b"
  by (cases a; cases b) auto

lemma key_rank_inj: "key_rank a = key_rank b \<Longrightarrow> a = b"
  by (cases a; cases b) (auto dest: public_key_rank_inj)

instantiation tendermint_key :: linorder
begin

definition less_eq_tendermint_key :: "tendermint_key \<Rightarrow> tendermint_key \<Rightarrow> bool" where
  "less_eq_tendermint_key a b \<longleftrightarrow> key_rank a \<le> key_rank b"

definition less_tendermint_key :: "tendermint_key \<Rightarrow> tendermint_key \<Rightarrow> bool" where
  "less_tendermint_key a b \<longleftrightarrow> key_rank a < key_rank b"

instance
proof
  fix a b c :: tendermint_key
  show "a < b \<longleftrightarrow> a \<le> b \<and> \<not> b \<le> a"
    by (auto simp: less_eq_tendermint_key_def less_tendermint_key_def)
  show "a \<le> a"
    by (simp add: less_eq_tendermint_key_def)
  show "a \<le> b \<Longrightarrow> b \<le> c \<Longrightarrow> a \<le> c"
    unfolding less_eq_tendermint_key_def by (rule order_trans)
  show "a \<le> b \<Longrightarrow> b \<le> a \<Longrightarrow> a = b"
    unfolding less_eq_tendermint_key_def by (rule key_rank_inj, rule antisym)
  show "a \<le> b \<or> b \<le> a"
    unfolding less_eq_tendermint_key_def by (rule linear)
qed

end

section \<open>Protocol buffer messages\<close>

record pb_timestamp =
  ts_seconds :: i64
  ts_nanos :: i32

record pb_part_set_header =
  pb_total :: u32
  pb_psh_hash :: bytes

record pb_block_id =
  pb_hash :: bytes
  pb_part_set_header :: "pb_part_set_header option"

record pb_vote =
  pbv_type :: i32
  pbv_height :: i64
  pbv_round :: i32
  pbv_block_id :: "pb_block_id option"
  pbv_timestamp :: "pb_timestamp option"
  pbv_validator_address :: bytes
  pbv_validator_index :: i32
  pbv_signature :: bytes

record pb_proposal =
  pbp_type :: i32
  pbp_height :: i64
  pbp_round :: i32
  pbp_pol_round :: i32
  pbp_block_id :: "pb_block_id option"
  pbp_timestamp :: "pb_timestamp option"
  pbp_signature :: bytes

record pb_canonical_vote =
  pcv_type :: i32
  pcv_height :: i64
  pcv_round :: i64
  pcv_block_id :: "pb_block_id option"
  pcv_timestamp :: "pb_timestamp option"
  pcv_chain_id :: string

record pb_canonical_proposal =
  pcp_type :: i32
  pcp_height :: i64
  pcp_round :: i64
  pcp_pol_round :: i64
  pcp_block_id :: "pb_block_id option"
  pcp_timestamp :: "pb_timestamp option"
  pcp_chain_id :: string

text \<open>The \<^verbatim>\<open>error\<close> field of a response, and the messages of the privval protocol.\<close>

record pb_remote_signer_error =
  rse_code :: i32
  rse_description :: string

datatype privval_sum =
    Pb_PubKeyRequest
  | Pb_PubKeyResponse "public_key option" "pb_remote_signer_error option"
  | Pb_SignVoteRequest "pb_vote option"
  | Pb_SignedVoteResponse "pb_vote option" "pb_remote_signer_error option"
  | Pb_SignProposalRequest "pb_proposal option"
  | Pb_SignedProposalResponse "pb_proposal option" "pb_remote_signer_error option"
  | Pb_PingRequest
  | Pb_PingResponse

end
