(* ===== verification/Kms_Config.thy ===== *)
theory Kms_Config
  imports Tendermint_Api
begin

text \<open>
  The configuration structures of \<^verbatim>\<open>src/config\<close>: what the TOML file says once it is
  parsed, with the defaults the parser fills in.
\<close>

section \<open>Validators\<close>

datatype protocol_version = V0_34 | V0_33 | Legacy

text \<open>The version of the secret connection handshake that goes with a protocol version.\<close>

datatype secret_connection_version = Sc_V0_34 | Sc_V0_33 | Sc_Legacy

fun secret_connection_version_from :: "protocol_version \<Rightarrow> secret_connection_version" where
  "secret_connection_version_from V0_34 = Sc_V0_34"
| "secret_connection_version_from V0_33 = Sc_V0_33"
| "secret_connection_version_from Legacy = Sc_Legacy"

definition is_protobuf :: "protocol_version \<Rightarrow> bool" where
  "is_protobuf v \<longleftrightarrow> \<not> (case v of V0_33 \<Rightarrow> True | Legacy \<Rightarrow> True | _ \<Rightarrow> False)"

lemma is_protobuf_simps [simp]:
  "is_protobuf V0_34" "\<not> is_protobuf V0_33" "\<not> is_protobuf Legacy"
  by (simp_all add: is_protobuf_def)

datatype net_address = Tcp "bytes option" string u16 | Unix path

record validator_config =
  vc_addr :: net_address
  vc_chain_id :: chain_id
  vc_reconnect :: bool
  vc_timeout :: "u16 option"
  vc_secret_key :: "path option"
  vc_max_height :: "u64 option"
  vc_protocol_version :: protocol_version

definition reconnect_default :: bool where
  "reconnect_default = True"

section \<open>Chains\<close>

datatype key_format_display = Bech32 string string | CosmosJson | Hex

record hook_config =
  hook_cmd :: "string list"
  hook_timeout_secs :: "u64 option"
  hook_fail_closed :: bool

record chain_config =
  cc_id :: chain_id
  cc_key_format :: key_format_display
  cc_state_file :: "path option"
  cc_state_hook :: "hook_config option"

section \<open>Providers\<close>

datatype key_type = Account | Consensus

definition key_type_default :: key_type where
  "key_type_default = Consensus"

datatype key_format = Base64 | Json

definition key_format_default :: key_format where
  "key_format_default = Base64"

fun key_format_from_str :: "string \<Rightarrow> (error_kind, key_format) outcome" where
  "key_format_from_str s =
     (if s = ''base64'' then Done Base64
      else if s = ''json'' then Done Json
      else Failed ConfigError)"

record softsign_config =
  ss_chain_ids :: "chain_id list"
  ss_key_type :: key_type
  ss_key_format :: "key_format option"
  ss_path :: path

record yubihsm_key_config =
  yk_chain_ids :: "chain_id list"
  yk_key :: u16
  yk_key_type :: key_type

datatype adapter_config = Usb u64 | Http net_address

definition usb_timeout_ms_default :: u64 where
  "usb_timeout_ms_default = 1000"

text \<open>How a password appears in log output.\<close>

definition password_debug :: "string \<Rightarrow> string" where
  "password_debug password = ''REDACTED PASSWORD''"

datatype auth_config = Auth_path u16 path | Auth_string u16 string

record cli_config =
  cli_auth_key :: "u16 option"

record connector_server_config =
  cs_laddr :: net_address
  cs_cli :: "cli_config option"

record yubihsm_config =
  yc_adapter :: adapter_config
  yc_auth :: auth_config
  yc_keys :: "yubihsm_key_config list"
  yc_serial_number :: "string option"
  yc_connector_server :: "connector_server_config option"

record ledgertm_config =
  lc_chain_ids :: "chain_id list"

datatype key_descriptor = KeyId string | KeyName string

datatype sobject_descriptor = Kid string | Name string

fun sobject_descriptor_from :: "key_descriptor \<Rightarrow> sobject_descriptor" where
  "sobject_descriptor_from (KeyId i) = Kid i"
| "sobject_descriptor_from (KeyName n) = Name n"

record fortanix_key_config =
  fk_chain_ids :: "chain_id list"
  fk_key :: key_descriptor
  fk_key_type :: key_type

record fortanix_config =
  fc_api_endpoint :: string
  fc_api_key :: string
  fc_signing_keys :: "fortanix_key_config list"

record provider_config =
  pc_softsign :: "softsign_config list"
  pc_yubihsm :: "yubihsm_config list"
  pc_ledgertm :: "ledgertm_config list"
  pc_fortanixdsm :: "fortanix_config list"

section \<open>The transaction signer\<close>

text \<open>Message type names, URIs, addresses and schema files are text or bytes here.\<close>

record tx_acl =
  acl_msg_type :: "string list"

datatype poll_interval = Block (poll_blocks: u64) (poll_min_secs: u64)

definition default_min_secs :: u64 where
  "default_min_secs = 5"

text \<open>The address of a transaction source is text that must parse as a URI.\<close>

definition deserialize_uri :: "(string \<Rightarrow> string option) \<Rightarrow> string option \<Rightarrow> string option" where
  "deserialize_uri parse_uri field = Option.bind field parse_uri"

datatype tx_source = JsonRpc string

record tx_signer_config =
  tc_chain_id :: chain_id
  tc_schema :: path
  tc_account_number :: u64
  tc_account_address :: bytes
  tc_context :: string
  tc_acl :: tx_acl
  tc_poll_interval :: poll_interval
  tc_source :: tx_source
  tc_rpc_addr :: net_address
  tc_seq_file :: path

section \<open>The whole file\<close>

record kms_config =
  kc_chain :: "chain_config list"
  kc_providers :: provider_config
  kc_validator :: "validator_config list"
  kc_tx_signer :: "tx_signer_config list"

end
