(* ===== verification/Amino_Types.thy ===== *)
theory Amino_Types
  imports Kms_Config
begin

text \<open>
  The consensus messages of \<^verbatim>\<open>src/amino_types\<close>: block IDs, votes, proposals, their
  validation, their canonical form and the bytes that get signed, and the trait
  \<^verbatim>\<open>TendermintRequest\<close> (with its supertrait \<^verbatim>\<open>SignableMsg\<close>) as a record of
  operations.  The wire encoders are derived by the \<^verbatim>\<open>prost\<close> crates and are parameters.

  The locale \<open>signable_request\<close> states what \<^verbatim>\<open>Session::sign\<close> relies on in that trait; it is
  interpreted on the vote and on the proposal requests.
\<close>

section \<open>Message types and validation errors\<close>

datatype signed_msg_type = PreVote | PreCommit | Proposal

fun msg_type_to_u32 :: "signed_msg_type \<Rightarrow> u32" where
  "msg_type_to_u32 PreVote = 0x01"
| "msg_type_to_u32 PreCommit = 0x02"
| "msg_type_to_u32 Proposal = 0x20"

definition msg_type_from :: "u32 \<Rightarrow> (foreign_error, signed_msg_type) outcome" where
  "msg_type_from data =
     (if data = 0x01 then Done PreVote
      else if data = 0x02 then Done PreCommit
      else if data = 0x20 then Done Proposal
      else Failed Amino_DecodeError)"

datatype validate_error =
    InvalidMessageType | MissingConsensusMessage | NegativeHeight | NegativeRound
  | NegativePolRound | NegativeValidatorIndex | InvalidValidatorAddressSize
  | InvalidHashSize | NegativeTotal

lemma msg_type_roundtrip: "msg_type_from (msg_type_to_u32 t) = Done t"
  by (cases t) (simp_all add: msg_type_from_def)

section \<open>Time stamps\<close>

record time_msg =
  tm_seconds :: i64
  tm_nanos :: i32

definition time_to_pb :: "time_msg \<Rightarrow> pb_timestamp" where
  "time_to_pb t = \<lparr>ts_seconds = tm_seconds t, ts_nanos = tm_nanos t\<rparr>"

definition time_from_pb :: "pb_timestamp \<Rightarrow> time_msg" where
  "time_from_pb t = \<lparr>tm_seconds = ts_seconds t, tm_nanos = ts_nanos t\<rparr>"

lemma time_pb_roundtrip [simp]:
  "time_to_pb (time_from_pb t) = t" "time_from_pb (time_to_pb u) = u"
  by (simp_all add: time_to_pb_def time_from_pb_def)

text \<open>
  \<^verbatim>\<open>std::time\<close>: a duration is whole seconds and less than a second in nanoseconds; a
  \<^verbatim>\<open>SystemTime\<close> is the signed seconds since the Unix epoch, which have to fit into 64 bits, and the
  nanoseconds after them.  Arithmetic that does not fit panics.
\<close>

definition NANOS_PER_SEC :: nat where
  "NANOS_PER_SEC = 1000000000"

definition time_overflow :: panic_payload where
  "time_overflow = Payload_str ''overflow in time arithmetic''"

definition duration_new :: "u64 \<Rightarrow> u32 \<Rightarrow> (error_kind, nat \<times> nat) outcome" where
  "duration_new secs nanos =
     (let s = unat secs + unat nanos div NANOS_PER_SEC
      in if s < 2 ^ 64 then Done (s, unat nanos mod NANOS_PER_SEC) else Panicked time_overflow)"

definition epoch_plus :: "nat \<times> nat \<Rightarrow> (error_kind, int \<times> nat) outcome" where
  "epoch_plus d = (if int (fst d) < 2 ^ 63 then Done (int (fst d), snd d) else Panicked time_overflow)"

definition epoch_minus :: "nat \<times> nat \<Rightarrow> (error_kind, int \<times> nat) outcome" where
  "epoch_minus d =
     (let s = - int (fst d) - (if snd d = 0 then 0 else 1)
      in if - (2 ^ 63) \<le> s then Done (s, if snd d = 0 then 0 else NANOS_PER_SEC - snd d) else Panicked time_overflow)"

definition system_time_from :: "time_msg \<Rightarrow> (error_kind, int \<times> nat) outcome" where
  "system_time_from time =
     obind (duration_new (tm_seconds time) (tm_nanos time)) (\<lambda>d.
       if 0 \<le> sint (tm_seconds time) then epoch_plus d else epoch_minus d)"

text \<open>A \<^verbatim>\<open>Time\<close> as the seconds since the epoch and the nanoseconds; before the epoch there is no duration.\<close>

definition time_msg_from :: "int \<times> nat \<Rightarrow> (error_kind, time_msg) outcome" where
  "time_msg_from ts =
     (if fst ts < 0 then Panicked time_overflow
      else Done \<lparr>tm_seconds = word_of_int (fst ts), tm_nanos = word_of_nat (snd ts)\<rparr>)"

lemma negative_sint_uint: "sint (x :: 64 word) < 0 \<Longrightarrow> uint x = 2 ^ 64 + sint x"
proof transfer
  fix i :: int
  assume neg: "signed_take_bit (LENGTH(64) - Suc 0) i < 0"
  then have "bit i 63" by simp
  then show "take_bit LENGTH(64) i = 2 ^ 64 + signed_take_bit (LENGTH(64) - Suc 0) i"
    using signed_take_bit_eq_take_bit_minus [of 63 i] by simp
qed

text \<open>
  A time after the epoch survives the way into a message and out to the system time; a message
  with negative seconds, other than the smallest, makes the conversion panic instead of giving the
  time before the epoch.
\<close>

theorem system_time_range:
  assumes "nanos < NANOS_PER_SEC" and "0 \<le> secs" and "secs < 2 ^ 63"
    and "sint (tm_seconds t) < 0" and "- (2 ^ 63) < sint (tm_seconds t)"
  shows "(\<exists>u. time_msg_from (secs, nanos) = Done u \<and> system_time_from u = Done (secs, nanos)) \<and>
    is_panic (system_time_from t)"
proof -
  have s: "sint (word_of_int secs :: i64) = secs" "uint (word_of_int secs :: i64) = secs"
    using assms(2,3) by (simp_all add: signed_of_int signed_take_bit_int_eq_self unsigned_of_int take_bit_int_eq_self)
  then have u: "unat (word_of_int secs :: i64) = nat secs" by (simp only: unat_eq_nat_uint)
  have n: "unat (word_of_nat nanos :: i32) = nanos"
    using assms(1) by (simp add: unat_of_nat NANOS_PER_SEC_def)
  have "time_msg_from (secs, nanos) = Done \<lparr>tm_seconds = word_of_int secs, tm_nanos = word_of_nat nanos\<rparr>"
    using assms(2) by (simp add: time_msg_from_def)
  moreover have "nat secs < 2 ^ 64" using assms(2,3) by simp
  then have "system_time_from \<lparr>tm_seconds = word_of_int secs, tm_nanos = word_of_nat nanos\<rparr> = Done (secs, nanos)"
    using assms(1-3) by (simp add: system_time_from_def duration_new_def epoch_plus_def s u n)
  moreover have "2 ^ 63 < int (unat (tm_seconds t))"
    using negative_sint_uint [OF assms(4)] assms(5) by simp
  then have "is_panic (system_time_from t)"
    using assms(4) by (auto simp: system_time_from_def duration_new_def epoch_minus_def Let_def)
  ultimately show ?thesis by blast
qed

theorem system_time_range_witness:
  "is_panic (system_time_from \<lparr>tm_seconds = - 1, tm_nanos = 0\<rparr>)"
proof -
  have "sint (tm_seconds \<lparr>tm_seconds = - 1, tm_nanos = 0\<rparr>) = - 1" by simp
  then show ?thesis using system_time_range [of 0 0 "\<lparr>tm_seconds = - 1, tm_nanos = 0\<rparr>"]
    by (simp add: NANOS_PER_SEC_def)
qed

section \<open>Block IDs\<close>

definition SHA256_HASH_SIZE :: nat where
  "SHA256_HASH_SIZE = 32"

record parts_set_header =
  psh_total :: i64
  psh_hash :: bytes

record amino_block_id =
  bid_hash :: bytes
  bid_parts_header :: "parts_set_header option"

record canonical_part_set_header =
  cpsh_hash :: bytes
  cpsh_total :: i64

record canonical_block_id =
  cbid_hash :: bytes
  cbid_parts_header :: "canonical_part_set_header option"

definition parse_sha256_hash :: "bytes \<Rightarrow> bytes option" where
  "parse_sha256_hash b = (if length b = SHA256_HASH_SIZE then Some b else None)"

definition parse_parts_header :: "tendermint_crate \<Rightarrow> parts_set_header \<Rightarrow> parts_header option" where
  "parse_parts_header tm self =
     Option.bind (parse_sha256_hash (psh_hash self))
       (\<lambda>hash. parts_header_new tm (trunc_32 (psh_total self)) hash)"

definition parse_block_id :: "tendermint_crate \<Rightarrow> amino_block_id \<Rightarrow> block_id option" where
  "parse_block_id tm self =
     Option.bind (parse_sha256_hash (bid_hash self)) (\<lambda>hash.
     Option.bind (bid_parts_header self) (\<lambda>header.
     Option.bind (parse_parts_header tm header) (\<lambda>part_set_header.
       Some \<lparr>id_hash = hash, id_part_set_header = part_set_header\<rparr>)))"

definition parts_header_from :: "parts_header \<Rightarrow> parts_set_header" where
  "parts_header_from h = \<lparr>psh_total = zext_64 (ph_total h), psh_hash = ph_hash h\<rparr>"

definition block_id_from :: "block_id \<Rightarrow> amino_block_id" where
  "block_id_from b =
     \<lparr>bid_hash = id_hash b, bid_parts_header = Some (parts_header_from (id_part_set_header b))\<rparr>"

definition block_id_from_pb :: "pb_block_id \<Rightarrow> amino_block_id" where
  "block_id_from_pb b =
     \<lparr>bid_hash = pb_hash b,
      bid_parts_header = map_option
        (\<lambda>psh. \<lparr>psh_total = zext_64 (pb_total psh), psh_hash = pb_psh_hash psh\<rparr>)
        (pb_part_set_header b)\<rparr>"

definition block_id_to_pb :: "amino_block_id \<Rightarrow> pb_block_id" where
  "block_id_to_pb b =
     \<lparr>pb_hash = bid_hash b,
      pb_part_set_header = map_option
        (\<lambda>psh. \<lparr>pb_total = trunc_32 (psh_total psh), pb_psh_hash = psh_hash psh\<rparr>)
        (bid_parts_header b)\<rparr>"

definition parts_header_validate_basic :: "parts_set_header \<Rightarrow> (validate_error, unit) outcome" where
  "parts_header_validate_basic self =
     (if sint (psh_total self) < 0 then Failed NegativeTotal
      else if psh_hash self \<noteq> [] \<and> length (psh_hash self) \<noteq> SHA256_HASH_SIZE
      then Failed InvalidHashSize
      else Done ())"

definition block_id_validate_basic :: "amino_block_id \<Rightarrow> (validate_error, unit) outcome" where
  "block_id_validate_basic self =
     (if bid_hash self \<noteq> [] \<and> length (bid_hash self) \<noteq> SHA256_HASH_SIZE
      then Failed InvalidHashSize
      else case bid_parts_header self of
             None \<Rightarrow> Done ()
           | Some h \<Rightarrow> parts_header_validate_basic h)"

text \<open>
  A block ID that the double-sign check can tell apart: hash and parts header are both
  there at full size and the parts header is accepted.
\<close>

definition complete_block_id :: "tendermint_crate \<Rightarrow> amino_block_id \<Rightarrow> bool" where
  "complete_block_id tm b \<longleftrightarrow> parse_block_id tm b \<noteq> None"

lemma parse_sha256_hash_Some_iff [simp]:
  "parse_sha256_hash b = Some h \<longleftrightarrow> h = b \<and> length b = SHA256_HASH_SIZE"
  by (auto simp: parse_sha256_hash_def)

lemma parse_block_id_SomeD:
  assumes "parse_block_id tm b = Some i" and "parts_header_stores tm"
  shows "\<exists>h. bid_parts_header b = Some h \<and> id_hash i = bid_hash b \<and> bid_hash b \<noteq> [] \<and>
    id_part_set_header i = \<lparr>ph_total = trunc_32 (psh_total h), ph_hash = psh_hash h\<rparr>"
  using assms by (auto simp: parse_block_id_def parse_parts_header_def bind_eq_Some_conv
      SHA256_HASH_SIZE_def dest: parts_header_storesD)

lemma block_id_pb_roundtrip [simp]: "block_id_to_pb (block_id_from_pb b) = b"
  by (cases b; cases "pb_part_set_header b") (simp_all add: block_id_to_pb_def block_id_from_pb_def)

section \<open>Remote errors, public keys, pings and responses\<close>

record remote_error =
  re_code :: i32
  re_description :: string

definition remote_error_double_sign :: "i64 \<Rightarrow> remote_error" where
  "remote_error_double_sign height =
     \<lparr>re_code = 2,
      re_description = ''double signing requested at height: '' @ show_int (sint height)\<rparr>"

record pub_key_response =
  pkr_pub_key_ed25519 :: bytes

definition pub_key_unimplemented :: panic_payload where
  "pub_key_unimplemented =
     Payload_String ''not implemented: PubKeyResponse unimplemented for this type''"

fun pub_key_response_from :: "public_key \<Rightarrow> (error_kind, pub_key_response) outcome" where
  "pub_key_response_from (Ed25519 pk) = Done \<lparr>pkr_pub_key_ed25519 = pk\<rparr>"
| "pub_key_response_from (Secp256k1 pk) = Panicked pub_key_unimplemented"

definition compute_prefix :: "(bytes \<Rightarrow> bytes) \<Rightarrow> string \<Rightarrow> bytes" where
  "compute_prefix sha256 name =
     (let output = sha256 (str_bytes name)
      in take 4 (filter (\<lambda>x. x \<noteq> 0) (drop 3 (filter (\<lambda>x. x \<noteq> 0) output))))"

section \<open>Votes\<close>

definition VALIDATOR_ADDR_SIZE :: nat where
  "VALIDATOR_ADDR_SIZE = 20"

record vote =
  v_vote_type :: u32
  v_height :: i64
  v_round :: i64
  v_block_id :: "amino_block_id option"
  v_timestamp :: "time_msg option"
  v_validator_address :: bytes
  v_validator_index :: i64
  v_signature :: bytes

text \<open>The default of a prost message has zero in every field.\<close>

definition vote_default :: vote where
  "vote_default = \<lparr>v_vote_type = 0, v_height = 0, v_round = 0, v_block_id = None, v_timestamp = None,
     v_validator_address = [], v_validator_index = 0, v_signature = []\<rparr>"

record sign_vote_request =
  svr_vote :: "vote option"

record signed_vote_response =
  sv_vote :: "vote option"
  sv_err :: "remote_error option"

record canonical_vote =
  cv_vote_type :: u32
  cv_height :: i64
  cv_round :: i64
  cv_block_id :: "canonical_block_id option"
  cv_timestamp :: "time_msg option"
  cv_chain_id :: string

section \<open>Proposals\<close>

record proposal =
  p_msg_type :: u32
  p_height :: i64
  p_round :: i64
  p_pol_round :: i64
  p_block_id :: "amino_block_id option"
  p_timestamp :: "time_msg option"
  p_signature :: bytes

record sign_proposal_request =
  spr_proposal :: "proposal option"

record signed_proposal_response =
  sp_proposal :: "proposal option"
  sp_err :: "remote_error option"

record canonical_proposal =
  cp_msg_type :: u32
  cp_height :: i64
  cp_round :: i64
  cp_pol_round :: i64
  cp_block_id :: "canonical_block_id option"
  cp_timestamp :: "time_msg option"
  cp_chain_id :: string

text \<open>The responses of \<^verbatim>\<open>src/rpc.rs\<close>, which the requests build.\<close>

datatype response =
    SignedVote signed_vote_response
  | SignedProposal signed_proposal_response
  | Ping
  | PublicKey pub_key_response

text \<open>
  The derived encoders of the canonical messages (length-delimited); absent is an encoding
  error.
\<close>

record canonical_codec =
  pb_encode_canonical_vote :: "pb_canonical_vote \<Rightarrow> bytes option"
  pb_encode_canonical_proposal :: "pb_canonical_proposal \<Rightarrow> bytes option"
  amino_encode_canonical_vote :: "canonical_vote \<Rightarrow> bytes option"
  amino_encode_canonical_proposal :: "canonical_proposal \<Rightarrow> bytes option"

text \<open>Encoding into a growable buffer does not fail.\<close>

definition encoders_total :: "canonical_codec \<Rightarrow> bool" where
  "encoders_total cc \<longleftrightarrow>
     (\<forall>v. pb_encode_canonical_vote cc v \<noteq> None) \<and>
     (\<forall>p. pb_encode_canonical_proposal cc p \<noteq> None) \<and>
     (\<forall>v. amino_encode_canonical_vote cc v \<noteq> None) \<and>
     (\<forall>p. amino_encode_canonical_proposal cc p \<noteq> None)"

section \<open>Operations on votes\<close>

definition vote_msg_type :: "vote \<Rightarrow> signed_msg_type option" where
  "vote_msg_type self =
     (if v_vote_type self = msg_type_to_u32 PreVote then Some PreVote
      else if v_vote_type self = msg_type_to_u32 PreCommit then Some PreCommit
      else None)"

definition vote_validate_basic :: "vote \<Rightarrow> (validate_error, unit) outcome" where
  "vote_validate_basic self =
     (if vote_msg_type self = None then Failed InvalidMessageType
      else if sint (v_height self) < 0 then Failed NegativeHeight
      else if sint (v_round self) < 0 then Failed NegativeRound
      else if sint (v_validator_index self) < 0 then Failed NegativeValidatorIndex
      else if length (v_validator_address self) \<noteq> VALIDATOR_ADDR_SIZE
      then Failed InvalidValidatorAddressSize
      else case v_block_id self of
             None \<Rightarrow> Done ()
           | Some b \<Rightarrow> block_id_validate_basic b)"

definition canonical_block_id_of :: "amino_block_id option \<Rightarrow> canonical_block_id option" where
  "canonical_block_id_of b = map_option
     (\<lambda>bid. \<lparr>cbid_hash = bid_hash bid,
             cbid_parts_header = map_option
               (\<lambda>psh. \<lparr>cpsh_hash = psh_hash psh, cpsh_total = psh_total psh\<rparr>)
               (bid_parts_header bid)\<rparr>) b"

definition canonical_vote_new :: "vote \<Rightarrow> string \<Rightarrow> canonical_vote" where
  "canonical_vote_new vote chain_id =
     \<lparr>cv_vote_type = v_vote_type vote,
      cv_height = v_height vote,
      cv_round = v_round vote,
      cv_block_id = canonical_block_id_of (v_block_id vote),
      cv_timestamp = (case v_timestamp vote of
                        None \<Rightarrow> Some \<lparr>tm_seconds = - 62135596800, tm_nanos = 0\<rparr>
                      | Some t \<Rightarrow> Some t),
      cv_chain_id = chain_id\<rparr>"

text \<open>
  The canonical block ID of the protocol buffer encoding: an empty hash means no block ID.
\<close>

definition pb_canonical_block_id :: "amino_block_id option \<Rightarrow> pb_block_id option" where
  "pb_canonical_block_id b =
     (case b of
        Some x \<Rightarrow> if bid_hash x = [] then None
                  else Some \<lparr>pb_hash = bid_hash x,
                             pb_part_set_header = map_option
                               (\<lambda>y. \<lparr>pb_total = trunc_32 (psh_total y), pb_psh_hash = psh_hash y\<rparr>)
                               (bid_parts_header x)\<rparr>
      | None \<Rightarrow> None)"

definition pb_canonical_vote_of :: "vote \<Rightarrow> string \<Rightarrow> pb_canonical_vote" where
  "pb_canonical_vote_of vote chain_id =
     \<lparr>pcv_type = v_vote_type vote,
      pcv_height = v_height vote,
      pcv_round = v_round vote,
      pcv_block_id = pb_canonical_block_id (v_block_id vote),
      pcv_timestamp = map_option time_to_pb (v_timestamp vote),
      pcv_chain_id = chain_id\<rparr>"

definition unwrap_none :: panic_payload where
  "unwrap_none = Payload_str ''called `Option::unwrap()` on a `None` value''"

definition unwrap_err :: panic_payload where
  "unwrap_err = Payload_String ''called `Result::unwrap()` on an `Err` value: EncodeError''"

definition vote_sign_bytes ::
  "canonical_codec \<Rightarrow> chain_id \<Rightarrow> protocol_version \<Rightarrow> sign_vote_request
     \<Rightarrow> (foreign_error, bytes) outcome" where
  "vote_sign_bytes cc chain_id version self =
     (let svr = self\<lparr>svr_vote := map_option (\<lambda>vo. vo\<lparr>v_signature := []\<rparr>) (svr_vote self)\<rparr>
      in obind (unwrap_or_panic unwrap_none (svr_vote svr)) (\<lambda>vote.
         if is_protobuf version
         then unwrap_or_panic unwrap_err
                (pb_encode_canonical_vote cc (pb_canonical_vote_of vote chain_id))
         else ok_or Amino_EncodeError
                (amino_encode_canonical_vote cc (canonical_vote_new vote chain_id))))"

definition vote_set_signature :: "bytes \<Rightarrow> sign_vote_request \<Rightarrow> sign_vote_request" where
  "vote_set_signature sig self =
     self\<lparr>svr_vote := map_option (\<lambda>vt. vt\<lparr>v_signature := sig\<rparr>) (svr_vote self)\<rparr>"

definition vote_validate :: "sign_vote_request \<Rightarrow> (validate_error, unit) outcome" where
  "vote_validate self =
     (case svr_vote self of
        Some v \<Rightarrow> vote_validate_basic v
      | None \<Rightarrow> Failed MissingConsensusMessage)"

text \<open>The block ID of a consensus state: one that does not parse counts as none.\<close>

definition state_block_id :: "tendermint_crate \<Rightarrow> amino_block_id option \<Rightarrow> block_id option" where
  "state_block_id tm b = (case b of Some x \<Rightarrow> parse_block_id tm x | None \<Rightarrow> None)"

definition vote_consensus_state ::
  "tendermint_crate \<Rightarrow> sign_vote_request \<Rightarrow> consensus_state option" where
  "vote_consensus_state tm self =
     (case svr_vote self of
        Some v \<Rightarrow>
          (case height_try_from tm (v_height v) of
             None \<Rightarrow> None
           | Some h \<Rightarrow> Some \<lparr>cs_height = h,
                             cs_round = ucast (trunc_u16 (v_round v)),
                             cs_step = 6,
                             cs_block_id = state_block_id tm (v_block_id v)\<rparr>)
      | None \<Rightarrow> None)"

definition vote_height :: "sign_vote_request \<Rightarrow> i64 option" where
  "vote_height self = map_option v_height (svr_vote self)"

definition vote_request_msg_type :: "sign_vote_request \<Rightarrow> signed_msg_type option" where
  "vote_request_msg_type self = Option.bind (svr_vote self) vote_msg_type"

definition vote_build_response :: "sign_vote_request \<Rightarrow> remote_error option \<Rightarrow> response" where
  "vote_build_response self error =
     SignedVote (case error of
        Some e \<Rightarrow> \<lparr>sv_vote = None, sv_err = Some e\<rparr>
      | None \<Rightarrow> \<lparr>sv_vote = svr_vote self, sv_err = None\<rparr>)"

section \<open>Operations on proposals\<close>

definition proposal_validate_basic :: "proposal \<Rightarrow> (validate_error, unit) outcome" where
  "proposal_validate_basic self =
     (if p_msg_type self \<noteq> msg_type_to_u32 Proposal then Failed InvalidMessageType
      else if sint (p_height self) < 0 then Failed NegativeHeight
      else if sint (p_round self) < 0 then Failed NegativeRound
      else if sint (p_pol_round self) < - 1 then Failed NegativePolRound
      else Done ())"

definition pb_canonical_proposal_of :: "proposal \<Rightarrow> string \<Rightarrow> pb_canonical_proposal" where
  "pb_canonical_proposal_of p chain_id =
     \<lparr>pcp_type = msg_type_to_u32 Proposal,
      pcp_height = p_height p,
      pcp_round = p_round p,
      pcp_pol_round = p_pol_round p,
      pcp_block_id = pb_canonical_block_id (p_block_id p),
      pcp_timestamp = map_option time_to_pb (p_timestamp p),
      pcp_chain_id = chain_id\<rparr>"

definition canonical_proposal_of :: "proposal \<Rightarrow> string \<Rightarrow> canonical_proposal" where
  "canonical_proposal_of p chain_id =
     \<lparr>cp_msg_type = msg_type_to_u32 Proposal,
      cp_height = p_height p,
      cp_round = p_round p,
      cp_pol_round = p_pol_round p,
      cp_block_id = canonical_block_id_of (p_block_id p),
      cp_timestamp = p_timestamp p,
      cp_chain_id = chain_id\<rparr>"

definition proposal_sign_bytes ::
  "canonical_codec \<Rightarrow> chain_id \<Rightarrow> protocol_version \<Rightarrow> sign_proposal_request
     \<Rightarrow> (foreign_error, bytes) outcome" where
  "proposal_sign_bytes cc chain_id version self =
     (let spr = self\<lparr>spr_proposal := map_option (\<lambda>pr. pr\<lparr>p_signature := []\<rparr>) (spr_proposal self)\<rparr>
      in obind (unwrap_or_panic unwrap_none (spr_proposal spr)) (\<lambda>p.
         if is_protobuf version
         then unwrap_or_panic unwrap_err
                (pb_encode_canonical_proposal cc (pb_canonical_proposal_of p chain_id))
         else ok_or Amino_EncodeError
                (amino_encode_canonical_proposal cc (canonical_proposal_of p chain_id))))"

definition proposal_set_signature :: "bytes \<Rightarrow> sign_proposal_request \<Rightarrow> sign_proposal_request" where
  "proposal_set_signature sig self =
     self\<lparr>spr_proposal := map_option (\<lambda>pr. pr\<lparr>p_signature := sig\<rparr>) (spr_proposal self)\<rparr>"

definition proposal_validate :: "sign_proposal_request \<Rightarrow> (validate_error, unit) outcome" where
  "proposal_validate self =
     (case spr_proposal self of
        Some p \<Rightarrow> proposal_validate_basic p
      | None \<Rightarrow> Failed MissingConsensusMessage)"

definition proposal_consensus_state ::
  "tendermint_crate \<Rightarrow> sign_proposal_request \<Rightarrow> consensus_state option" where
  "proposal_consensus_state tm self =
     (case spr_proposal self of
        Some p \<Rightarrow>
          (case height_try_from tm (p_height p) of
             None \<Rightarrow> None
           | Some h \<Rightarrow> Some \<lparr>cs_height = h,
                             cs_round = ucast (trunc_u16 (p_round p)),
                             cs_step = 3,
                             cs_block_id = state_block_id tm (p_block_id p)\<rparr>)
      | None \<Rightarrow> None)"

definition proposal_height :: "sign_proposal_request \<Rightarrow> i64 option" where
  "proposal_height self = map_option p_height (spr_proposal self)"

definition proposal_request_msg_type :: "sign_proposal_request \<Rightarrow> signed_msg_type option" where
  "proposal_request_msg_type self = Some Proposal"

definition proposal_build_response ::
  "sign_proposal_request \<Rightarrow> remote_error option \<Rightarrow> response" where
  "proposal_build_response self error =
     SignedProposal (case error of
        Some e \<Rightarrow> \<lparr>sp_proposal = None, sp_err = Some e\<rparr>
      | None \<Rightarrow> \<lparr>sp_proposal = spr_proposal self, sp_err = None\<rparr>)"

section \<open>The request trait\<close>

record 'r tendermint_request =
  rq_sign_bytes :: "chain_id \<Rightarrow> protocol_version \<Rightarrow> 'r \<Rightarrow> (foreign_error, bytes) outcome"
  rq_set_signature :: "bytes \<Rightarrow> 'r \<Rightarrow> 'r"
  rq_validate :: "'r \<Rightarrow> (validate_error, unit) outcome"
  rq_consensus_state :: "'r \<Rightarrow> consensus_state option"
  rq_height :: "'r \<Rightarrow> i64 option"
  rq_msg_type :: "'r \<Rightarrow> signed_msg_type option"
  rq_build_response :: "'r \<Rightarrow> remote_error option \<Rightarrow> response"

definition vote_request ::
  "tendermint_crate \<Rightarrow> canonical_codec \<Rightarrow> sign_vote_request tendermint_request" where
  "vote_request tm cc =
     \<lparr>rq_sign_bytes = vote_sign_bytes cc,
      rq_set_signature = vote_set_signature,
      rq_validate = vote_validate,
      rq_consensus_state = vote_consensus_state tm,
      rq_height = vote_height,
      rq_msg_type = vote_request_msg_type,
      rq_build_response = vote_build_response\<rparr>"

definition proposal_request ::
  "tendermint_crate \<Rightarrow> canonical_codec \<Rightarrow> sign_proposal_request tendermint_request" where
  "proposal_request tm cc =
     \<lparr>rq_sign_bytes = proposal_sign_bytes cc,
      rq_set_signature = proposal_set_signature,
      rq_validate = proposal_validate,
      rq_consensus_state = proposal_consensus_state tm,
      rq_height = proposal_height,
      rq_msg_type = proposal_request_msg_type,
      rq_build_response = proposal_build_response\<rparr>"

text \<open>What a response carries: the signed message, or the error reported instead.\<close>

fun response_err :: "response \<Rightarrow> remote_error option" where
  "response_err (SignedVote r) = sv_err r"
| "response_err (SignedProposal r) = sp_err r"
| "response_err Ping = None"
| "response_err (PublicKey k) = None"

fun response_signature :: "response \<Rightarrow> bytes option" where
  "response_signature (SignedVote r) = map_option v_signature (sv_vote r)"
| "response_signature (SignedProposal r) = map_option p_signature (sp_proposal r)"
| "response_signature Ping = None"
| "response_signature (PublicKey k) = None"

lemmas vote_operation_defs =
  vote_request_def vote_sign_bytes_def vote_set_signature_def vote_validate_def
  vote_consensus_state_def vote_height_def vote_request_msg_type_def vote_build_response_def

lemmas proposal_operation_defs =
  proposal_request_def proposal_sign_bytes_def proposal_set_signature_def proposal_validate_def
  proposal_consensus_state_def proposal_height_def proposal_request_msg_type_def
  proposal_build_response_def

lemma block_id_validate_no_panic [simp]: "\<not> is_panic (block_id_validate_basic b)"
  by (simp add: block_id_validate_basic_def parts_header_validate_basic_def split: option.splits)

lemma vote_validate_no_panic [simp]: "\<not> is_panic (vote_validate_basic v)"
  by (simp add: vote_validate_basic_def split: option.splits)

lemma vote_validate_basic_DoneD:
  assumes "vote_validate_basic v = Done ()"
  shows "\<exists>t. vote_msg_type v = Some t" "0 \<le> sint (v_height v)" "0 \<le> sint (v_round v)"
    "0 \<le> sint (v_validator_index v)" "length (v_validator_address v) = VALIDATOR_ADDR_SIZE"
  using assms by (auto simp: vote_validate_basic_def split: if_splits)

section \<open>What the signing session relies on\<close>

text \<open>
  The laws of \<^verbatim>\<open>TendermintRequest\<close>: a validated request has a message type, a
  non-negative height and, when the encoders are total, bytes to sign; its consensus state
  is at its height; the signature field influences nothing but the reply; and a reply with
  an error carries no signed message.
\<close>

locale signable_request =
  fixes tm :: tendermint_crate and encodable :: bool and R :: "'r tendermint_request"
  assumes validate_total: "\<not> is_panic (rq_validate R r)"
    and validated: "rq_validate R r = Done () \<Longrightarrow>
      \<exists>h t. rq_height R r = Some h \<and> 0 \<le> sint h \<and> rq_msg_type R r = Some t"
    and state_at_height: "rq_consensus_state R r = Some s \<Longrightarrow>
      \<exists>h. rq_height R r = Some h \<and> height_try_from tm h = Some (cs_height s)"
    and height_gives_state: "rq_height R r = Some h \<Longrightarrow> height_try_from tm h = Some n \<Longrightarrow>
      \<exists>s. rq_consensus_state R r = Some s"
    and signature_frame:
      "rq_consensus_state R (rq_set_signature R sig r) = rq_consensus_state R r"
      "rq_height R (rq_set_signature R sig r) = rq_height R r"
      "rq_msg_type R (rq_set_signature R sig r) = rq_msg_type R r"
    and sign_bytes_frame:
      "rq_sign_bytes R c v (rq_set_signature R sig r) = rq_sign_bytes R c v r"
    and sign_bytes_total: "rq_validate R r = Done () \<Longrightarrow> encodable \<Longrightarrow>
      \<exists>b. rq_sign_bytes R c v r = Done b"
    and signed_reply: "rq_validate R r = Done () \<Longrightarrow>
      response_signature (rq_build_response R (rq_set_signature R sig r) None) = Some sig"
    and ok_reply: "response_err (rq_build_response R r None) = None"
    and error_reply: "response_err (rq_build_response R r (Some e)) = Some e"
      "response_signature (rq_build_response R r (Some e)) = None"

lemma encoders_totalD:
  assumes "encoders_total cc"
  shows "\<exists>b. pb_encode_canonical_vote cc v = Some b" "\<exists>b. amino_encode_canonical_vote cc w = Some b"
    "\<exists>b. pb_encode_canonical_proposal cc p = Some b"
    "\<exists>b. amino_encode_canonical_proposal cc q = Some b"
  using assms by (auto simp: encoders_total_def)

lemma vote_signature_frame [simp]:
  "vote_msg_type (v\<lparr>v_signature := sig\<rparr>) = vote_msg_type v"
  "pb_canonical_vote_of (v\<lparr>v_signature := sig\<rparr>) c = pb_canonical_vote_of v c"
  "canonical_vote_new (v\<lparr>v_signature := sig\<rparr>) c = canonical_vote_new v c"
  by (simp_all add: vote_msg_type_def pb_canonical_vote_of_def canonical_vote_new_def)

lemma proposal_signature_frame [simp]:
  "pb_canonical_proposal_of (p\<lparr>p_signature := sig\<rparr>) c = pb_canonical_proposal_of p c"
  "canonical_proposal_of (p\<lparr>p_signature := sig\<rparr>) c = canonical_proposal_of p c"
  by (simp_all add: pb_canonical_proposal_of_def canonical_proposal_of_def)

lemma vote_sign_bytes_Some:
  "vote_sign_bytes cc c pv \<lparr>svr_vote = Some v\<rparr> =
     (if is_protobuf pv
      then unwrap_or_panic unwrap_err (pb_encode_canonical_vote cc (pb_canonical_vote_of v c))
      else ok_or Amino_EncodeError (amino_encode_canonical_vote cc (canonical_vote_new v c)))"
  by (simp add: vote_sign_bytes_def)

lemma proposal_sign_bytes_Some:
  "proposal_sign_bytes cc c pv \<lparr>spr_proposal = Some p\<rparr> =
     (if is_protobuf pv
      then unwrap_or_panic unwrap_err (pb_encode_canonical_proposal cc (pb_canonical_proposal_of p c))
      else ok_or Amino_EncodeError (amino_encode_canonical_proposal cc (canonical_proposal_of p c)))"
  by (simp add: proposal_sign_bytes_def)

lemma vote_sign_bytes_total:
  assumes "vote_validate r = Done ()" and "encoders_total cc"
  shows "\<exists>b. vote_sign_bytes cc c pv r = Done b"
proof -
  obtain v where "r = \<lparr>svr_vote = Some v\<rparr>"
    using assms(1) by (cases r) (auto simp: vote_validate_def split: option.splits)
  then show ?thesis
    using encoders_totalD(1) [OF assms(2), of "pb_canonical_vote_of v c"]
      encoders_totalD(2) [OF assms(2), of "canonical_vote_new v c"]
    by (auto simp: vote_sign_bytes_Some)
qed

lemma proposal_sign_bytes_total:
  assumes "proposal_validate r = Done ()" and "encoders_total cc"
  shows "\<exists>b. proposal_sign_bytes cc c pv r = Done b"
proof -
  obtain p where "r = \<lparr>spr_proposal = Some p\<rparr>"
    using assms(1) by (cases r) (auto simp: proposal_validate_def split: option.splits)
  then show ?thesis
    using encoders_totalD(3) [OF assms(2), of "pb_canonical_proposal_of p c"]
      encoders_totalD(4) [OF assms(2), of "canonical_proposal_of p c"]
    by (auto simp: proposal_sign_bytes_Some)
qed

interpretation vote_rq: signable_request tm "encoders_total cc" "vote_request tm cc" for tm cc
proof
  fix r :: sign_vote_request and sig c pv
  show "\<not> is_panic (rq_validate (vote_request tm cc) r)"
    by (simp add: vote_operation_defs split: option.splits)
  show "rq_validate (vote_request tm cc) r = Done () \<Longrightarrow>
      \<exists>h t. rq_height (vote_request tm cc) r = Some h \<and> 0 \<le> sint h \<and>
        rq_msg_type (vote_request tm cc) r = Some t"
    by (auto simp: vote_operation_defs dest: vote_validate_basic_DoneD split: option.splits)
  show "rq_sign_bytes (vote_request tm cc) c pv (rq_set_signature (vote_request tm cc) sig r) =
      rq_sign_bytes (vote_request tm cc) c pv r"
    by (cases "svr_vote r") (simp_all add: vote_operation_defs)
  show "rq_validate (vote_request tm cc) r = Done () \<Longrightarrow> encoders_total cc \<Longrightarrow>
      \<exists>b. rq_sign_bytes (vote_request tm cc) c pv r = Done b"
    by (simp add: vote_request_def vote_sign_bytes_total)
  show "rq_height (vote_request tm cc) (rq_set_signature (vote_request tm cc) sig r) =
      rq_height (vote_request tm cc) r"
    "rq_msg_type (vote_request tm cc) (rq_set_signature (vote_request tm cc) sig r) =
      rq_msg_type (vote_request tm cc) r"
    by (cases "svr_vote r"; simp add: vote_operation_defs)+
qed (auto simp: vote_operation_defs split: option.splits)

interpretation proposal_rq: signable_request tm "encoders_total cc" "proposal_request tm cc"
  for tm cc
proof
  fix r :: sign_proposal_request and sig c pv
  show "\<not> is_panic (rq_validate (proposal_request tm cc) r)"
    by (simp add: proposal_operation_defs proposal_validate_basic_def split: option.splits)
  show "rq_validate (proposal_request tm cc) r = Done () \<Longrightarrow>
      \<exists>h t. rq_height (proposal_request tm cc) r = Some h \<and> 0 \<le> sint h \<and>
        rq_msg_type (proposal_request tm cc) r = Some t"
    by (auto simp: proposal_operation_defs proposal_validate_basic_def split: option.splits if_splits)
  show "rq_sign_bytes (proposal_request tm cc) c pv
        (rq_set_signature (proposal_request tm cc) sig r) =
      rq_sign_bytes (proposal_request tm cc) c pv r"
    by (cases "spr_proposal r") (simp_all add: proposal_operation_defs)
  show "rq_validate (proposal_request tm cc) r = Done () \<Longrightarrow> encoders_total cc \<Longrightarrow>
      \<exists>b. rq_sign_bytes (proposal_request tm cc) c pv r = Done b"
    by (simp add: proposal_request_def proposal_sign_bytes_total)
  show "rq_height (proposal_request tm cc) (rq_set_signature (proposal_request tm cc) sig r) =
      rq_height (proposal_request tm cc) r"
    by (cases "spr_proposal r") (simp_all add: proposal_operation_defs)
qed (auto simp: proposal_operation_defs split: option.splits)

section \<open>Properties\<close>

text \<open>
  The bytes to sign do not depend on the signature field of the request, for votes and
  proposals, in every protocol version.
\<close>

theorem sign_bytes_ignore_signature:
  "vote_sign_bytes cc c version (vote_set_signature sig r) = vote_sign_bytes cc c version r \<and>
   proposal_sign_bytes cc c version (proposal_set_signature sig q) = proposal_sign_bytes cc c version q"
  using vote_rq.sign_bytes_frame [of undefined cc c version sig r]
    proposal_rq.sign_bytes_frame [of undefined cc c version sig q]
  by (simp add: vote_request_def proposal_request_def)

text \<open>
  C26: every vote or proposal that passes validation has a message type and a height that is not
  negative, and can be turned into bytes to sign.
\<close>

theorem validated_requests_signable:
  assumes "encoders_total cc"
  shows "(vote_validate r = Done () \<longrightarrow>
      (\<exists>h t b. vote_height r = Some h \<and> 0 \<le> sint h \<and> vote_request_msg_type r = Some t \<and>
         vote_sign_bytes cc c version r = Done b)) \<and>
    (proposal_validate q = Done () \<longrightarrow>
      (\<exists>h b. proposal_height q = Some h \<and> 0 \<le> sint h \<and> proposal_sign_bytes cc c version q = Done b))"
  using vote_rq.validated [of undefined cc r] proposal_rq.validated [of undefined cc q]
    vote_sign_bytes_total [OF _ assms, of r c version] proposal_sign_bytes_total [OF _ assms, of q c version]
  by (auto simp: vote_request_def proposal_request_def)

definition constant_codec :: canonical_codec where
  "constant_codec = \<lparr>pb_encode_canonical_vote = (\<lambda>_. Some [1]), pb_encode_canonical_proposal = (\<lambda>_. Some [2]),
     amino_encode_canonical_vote = (\<lambda>_. Some [3]), amino_encode_canonical_proposal = (\<lambda>_. Some [4])\<rparr>"

definition plain_proposal :: sign_proposal_request where
  "plain_proposal = \<lparr>spr_proposal = Some \<lparr>p_msg_type = 0x20, p_height = 3, p_round = 0, p_pol_round = - 1,
     p_block_id = None, p_timestamp = None, p_signature = []\<rparr>\<rparr>"

theorem validated_requests_signable_witness:
  "\<exists>h b. proposal_height plain_proposal = Some h \<and> 0 \<le> sint h \<and>
     proposal_sign_bytes constant_codec ''c'' V0_34 plain_proposal = Done b"
proof -
  have "encoders_total constant_codec" by (simp add: encoders_total_def constant_codec_def)
  moreover have "proposal_validate plain_proposal = Done ()"
    by (simp add: proposal_validate_def proposal_validate_basic_def plain_proposal_def)
  ultimately show ?thesis using validated_requests_signable [of constant_codec _ "''c''" V0_34 plain_proposal] by blast
qed

end
