(* ===== verification/Rpc.thy ===== *)
theory Rpc
  imports Amino_Types
begin

text \<open>
  Requests and responses on the wire: \<^verbatim>\<open>src/rpc.rs\<close>.  The message codecs are derived by
  the \<^verbatim>\<open>prost\<close> crates and are parameters; what is modelled is the translation between the
  protocol buffer messages and the amino types, the dispatch on the message kind, and the
  dispatch on the amino prefix.
\<close>

datatype request =
    SignProposal sign_proposal_request
  | SignVote sign_vote_request
  | ShowPublicKey
  | ReplyPing

record rpc_codec =
  data_max_size :: nat
  pb_decode_message :: "bytes \<Rightarrow> privval_sum option option"
  pb_encode_message :: "privval_sum \<Rightarrow> bytes option"
  rpc_sha256 :: "bytes \<Rightarrow> bytes"
  decode_varint :: "bytes \<Rightarrow> bytes option"
  amino_decode_sign_vote :: "bytes \<Rightarrow> sign_vote_request option"
  amino_decode_sign_proposal :: "bytes \<Rightarrow> sign_proposal_request option"
  amino_decode_pub_key_request :: "bytes \<Rightarrow> unit option"
  amino_decode_ping_request :: "bytes \<Rightarrow> unit option"
  amino_encode_signed_vote :: "signed_vote_response \<Rightarrow> bytes option"
  amino_encode_signed_proposal :: "signed_proposal_response \<Rightarrow> bytes option"
  amino_encode_ping_response :: "bytes option"
  amino_encode_pub_key :: "pub_key_response \<Rightarrow> bytes option"

section \<open>Translating messages\<close>

definition vote_from_pb :: "pb_vote \<Rightarrow> vote" where
  "vote_from_pb v =
     \<lparr>v_vote_type = pbv_type v,
      v_height = pbv_height v,
      v_round = sext_64 (pbv_round v),
      v_block_id = map_option block_id_from_pb (pbv_block_id v),
      v_timestamp = map_option time_from_pb (pbv_timestamp v),
      v_validator_address = pbv_validator_address v,
      v_validator_index = sext_64 (pbv_validator_index v),
      v_signature = pbv_signature v\<rparr>"

definition vote_to_pb :: "vote \<Rightarrow> pb_vote" where
  "vote_to_pb v =
     \<lparr>pbv_type = v_vote_type v,
      pbv_height = v_height v,
      pbv_round = trunc_32 (v_round v),
      pbv_block_id = map_option block_id_to_pb (v_block_id v),
      pbv_timestamp = map_option time_to_pb (v_timestamp v),
      pbv_validator_address = v_validator_address v,
      pbv_validator_index = trunc_32 (v_validator_index v),
      pbv_signature = v_signature v\<rparr>"

definition proposal_from_pb :: "pb_proposal \<Rightarrow> proposal" where
  "proposal_from_pb p =
     \<lparr>p_msg_type = pbp_type p,
      p_height = pbp_height p,
      p_round = sext_64 (pbp_round p),
      p_pol_round = sext_64 (pbp_pol_round p),
      p_block_id = map_option block_id_from_pb (pbp_block_id p),
      p_timestamp = map_option time_from_pb (pbp_timestamp p),
      p_signature = pbp_signature p\<rparr>"

definition proposal_to_pb :: "proposal \<Rightarrow> pb_proposal" where
  "proposal_to_pb p =
     \<lparr>pbp_type = p_msg_type p,
      pbp_height = p_height p,
      pbp_round = trunc_32 (p_round p),
      pbp_pol_round = trunc_32 (p_pol_round p),
      pbp_block_id = map_option block_id_to_pb (p_block_id p),
      pbp_timestamp = map_option time_to_pb (p_timestamp p),
      pbp_signature = p_signature p\<rparr>"

fun request_from_sum :: "privval_sum option \<Rightarrow> (error_kind, request) outcome" where
  "request_from_sum (Some (Pb_SignVoteRequest vote)) =
     Done (SignVote \<lparr>svr_vote = map_option vote_from_pb vote\<rparr>)"
| "request_from_sum (Some (Pb_SignProposalRequest proposal)) =
     Done (SignProposal \<lparr>spr_proposal = map_option proposal_from_pb proposal\<rparr>)"
| "request_from_sum (Some Pb_PubKeyRequest) = Done ShowPublicKey"
| "request_from_sum (Some Pb_PingRequest) = Done ReplyPing"
| "request_from_sum _ = Failed ProtocolError"

section \<open>Reading a request\<close>

text \<open>
  One read of at most \<open>data_max_size\<close> bytes: \<open>None\<close> is an I/O error, \<open>Some\<close> what the
  connection had to offer.
\<close>

definition read_msg :: "rpc_codec \<Rightarrow> bytes option \<Rightarrow> (error_kind, bytes) outcome" where
  "read_msg rc conn = ok_or (error_from Io_error) (map_option (take (data_max_size rc)) conn)"

definition parse_amino_prefix :: "rpc_codec \<Rightarrow> bytes \<Rightarrow> (error_kind, bytes) outcome" where
  "parse_amino_prefix rc packet =
     obind (ok_or (error_from Amino_DecodeError) (decode_varint rc packet)) (\<lambda>amino_buf.
       if length amino_buf < 4 then Failed ProtocolError else Done (take 4 amino_buf))"

definition VOTE_AMINO_NAME :: string where
  "VOTE_AMINO_NAME = ''tendermint/remotesigner/SignVoteRequest''"

definition PROPOSAL_AMINO_NAME :: string where
  "PROPOSAL_AMINO_NAME = ''tendermint/remotesigner/SignProposalRequest''"

definition PUBKEY_AMINO_NAME :: string where
  "PUBKEY_AMINO_NAME = ''tendermint/remotesigner/PubKeyRequest''"

definition PING_AMINO_NAME :: string where
  "PING_AMINO_NAME = ''tendermint/remotesigner/PingRequest''"

definition request_read ::
  "rpc_codec \<Rightarrow> protocol_version \<Rightarrow> bytes option \<Rightarrow> (error_kind, request) outcome" where
  "request_read rc version conn =
     obind (read_msg rc conn) (\<lambda>msg.
       if is_protobuf version then
         obind (ok_or ProtocolError (pb_decode_message rc msg)) request_from_sum
       else
         obind (parse_amino_prefix rc msg) (\<lambda>amino_prefix.
           if amino_prefix = compute_prefix (rpc_sha256 rc) VOTE_AMINO_NAME then
             obind (ok_or (error_from Amino_DecodeError) (amino_decode_sign_vote rc msg))
               (\<lambda>req. Done (SignVote req))
           else if amino_prefix = compute_prefix (rpc_sha256 rc) PROPOSAL_AMINO_NAME then
             obind (ok_or (error_from Amino_DecodeError) (amino_decode_sign_proposal rc msg))
               (\<lambda>req. Done (SignProposal req))
           else if amino_prefix = compute_prefix (rpc_sha256 rc) PUBKEY_AMINO_NAME then
             obind (ok_or (error_from Amino_DecodeError) (amino_decode_pub_key_request rc msg))
               (\<lambda>_. Done ShowPublicKey)
           else if amino_prefix = compute_prefix (rpc_sha256 rc) PING_AMINO_NAME then
             obind (ok_or (error_from Amino_DecodeError) (amino_decode_ping_request rc msg))
               (\<lambda>_. Done ReplyPing)
           else Failed ProtocolError))"

section \<open>Writing a response\<close>

fun response_to_sum :: "response \<Rightarrow> privval_sum" where
  "response_to_sum (SignedVote resp) =
     Pb_SignedVoteResponse (map_option vote_to_pb (sv_vote resp)) None"
| "response_to_sum (SignedProposal resp) =
     Pb_SignedProposalResponse (map_option proposal_to_pb (sp_proposal resp)) None"
| "response_to_sum Ping = Pb_PingResponse"
| "response_to_sum (PublicKey pk) =
     Pb_PubKeyResponse (Some (Ed25519 (pkr_pub_key_ed25519 pk))) None"

fun amino_encode_response :: "rpc_codec \<Rightarrow> response \<Rightarrow> bytes option" where
  "amino_encode_response rc (SignedProposal sp) = amino_encode_signed_proposal rc sp"
| "amino_encode_response rc (SignedVote sv) = amino_encode_signed_vote rc sv"
| "amino_encode_response rc Ping = amino_encode_ping_response rc"
| "amino_encode_response rc (PublicKey pk) = amino_encode_pub_key rc pk"

definition response_encode ::
  "rpc_codec \<Rightarrow> protocol_version \<Rightarrow> response \<Rightarrow> (error_kind, bytes) outcome" where
  "response_encode rc version self =
     (if is_protobuf version
      then ok_or (error_from Prost_EncodeError) (pb_encode_message rc (response_to_sum self))
      else ok_or (error_from Amino_EncodeError) (amino_encode_response rc self))"

section \<open>Facts\<close>

lemma vote_pb_roundtrip [simp]: "vote_to_pb (vote_from_pb v) = v"
  by (cases v) (simp add: vote_to_pb_def vote_from_pb_def option.map_comp comp_def option.map_ident)

lemma proposal_pb_roundtrip [simp]: "proposal_to_pb (proposal_from_pb p) = p"
  by (cases p) (simp add: proposal_to_pb_def proposal_from_pb_def option.map_comp comp_def option.map_ident)

lemma request_from_sum_no_panic [simp]: "\<not> is_panic (request_from_sum m)"
  by (cases m rule: request_from_sum.cases) auto

lemma request_read_no_panic [simp]: "\<not> is_panic (request_read rc v c)"
  by (simp add: request_read_def is_panic_obind read_msg_def parse_amino_prefix_def)

lemma response_encode_no_panic [simp]: "\<not> is_panic (response_encode rc v r)"
  by (simp add: response_encode_def)

section \<open>Properties\<close>

text \<open>
  C25: the reply to a vote or proposal that came as a protocol buffer is that same protocol
  buffer with only the signature filled in: the detour over the amino types and their wider
  integers loses nothing.
\<close>

theorem signed_reply_echoes_request:
  "request_from_sum (Some (Pb_SignVoteRequest (Some v))) = Done (SignVote \<lparr>svr_vote = Some (vote_from_pb v)\<rparr>) \<and>
   response_to_sum (vote_build_response (vote_set_signature sig \<lparr>svr_vote = Some (vote_from_pb v)\<rparr>) None) =
     Pb_SignedVoteResponse (Some (v\<lparr>pbv_signature := sig\<rparr>)) None \<and>
   request_from_sum (Some (Pb_SignProposalRequest (Some p))) =
     Done (SignProposal \<lparr>spr_proposal = Some (proposal_from_pb p)\<rparr>) \<and>
   response_to_sum (proposal_build_response (proposal_set_signature sig
       \<lparr>spr_proposal = Some (proposal_from_pb p)\<rparr>) None) =
     Pb_SignedProposalResponse (Some (p\<lparr>pbp_signature := sig\<rparr>)) None"
proof -
  have "vote_to_pb ((vote_from_pb v)\<lparr>v_signature := sig\<rparr>) = v\<lparr>pbv_signature := sig\<rparr>"
    using vote_pb_roundtrip [of v] by (simp add: vote_to_pb_def vote_from_pb_def) (metis pb_vote.update_convs(8))
  moreover have "proposal_to_pb ((proposal_from_pb p)\<lparr>p_signature := sig\<rparr>) = p\<lparr>pbp_signature := sig\<rparr>"
    using proposal_pb_roundtrip [of p]
    by (simp add: proposal_to_pb_def proposal_from_pb_def) (metis pb_proposal.update_convs(7))
  ultimately show ?thesis
    by (simp add: vote_build_response_def vote_set_signature_def proposal_build_response_def
        proposal_set_signature_def)
qed

end
