(* ===== verification/Kms_Interfaces.thy ===== *)
theory Kms_Interfaces
  imports Kms_Error
begin

text \<open>
  Three interfaces that several components share, each with the lemmas its clients use.

  \<open>position_guard\<close>: a register that only moves forward and never changes its value at one
  position.  It is what double-sign protection promises: \<open>Chain_State\<close> provides it.

  \<open>atomic_file\<close>: a file that is replaced as a whole.  Both the state file of a chain
  (\<open>Chain_State\<close>) and the sequence file of the transaction signer (\<open>Tx_Signer\<close>) provide it.

  \<open>strict_collection\<close>: a collection that refuses a second entry under one key.  The registry of
  chains (\<open>Chain_Registry\<close>) and both key maps of a keyring (\<open>Keyring\<close>) provide it.
\<close>

section \<open>A register that only moves forward\<close>

definition covered :: "('s \<Rightarrow> 'p::linorder) \<Rightarrow> ('s \<Rightarrow> 'v) \<Rightarrow> 's \<Rightarrow> 's \<Rightarrow> bool" where
  "covered pos val e s \<longleftrightarrow> pos e < pos s \<or> (pos e = pos s \<and> val e = val s)"

definition agreeing :: "('s \<Rightarrow> 'p) \<Rightarrow> ('s \<Rightarrow> 'v) \<Rightarrow> 's set \<Rightarrow> bool" where
  "agreeing pos val E \<longleftrightarrow> (\<forall>a \<in> E. \<forall>b \<in> E. pos a = pos b \<longrightarrow> val a = val b)"

fun accepted_run :: "('s \<Rightarrow> 's \<Rightarrow> bool) \<Rightarrow> 's \<Rightarrow> 's list \<Rightarrow> bool" where
  "accepted_run accept s [] \<longleftrightarrow> True"
| "accepted_run accept s (n # ns) \<longleftrightarrow> accept s n \<and> accepted_run accept n ns"

lemma covered_refl [simp]: "covered pos val s s"
  by (simp add: covered_def)

lemma covered_trans: "covered pos val a b \<Longrightarrow> covered pos val b c \<Longrightarrow> covered pos val a c"
  unfolding covered_def by auto

lemma agreeing_empty [simp]: "agreeing pos val {}"
  by (simp add: agreeing_def)

lemma agreeing_mono: "agreeing pos val E \<Longrightarrow> D \<subseteq> E \<Longrightarrow> agreeing pos val D"
  unfolding agreeing_def by blast

lemma agreeingD: "agreeing pos val E \<Longrightarrow> a \<in> E \<Longrightarrow> b \<in> E \<Longrightarrow> pos a = pos b \<Longrightarrow> val a = val b"
  unfolding agreeing_def by blast

locale position_guard =
  fixes pos :: "'s \<Rightarrow> 'p::linorder" and val :: "'s \<Rightarrow> 'v" and accept :: "'s \<Rightarrow> 's \<Rightarrow> bool"
  assumes accept_pos: "accept s n \<Longrightarrow> pos s \<le> pos n"
    and accept_val: "accept s n \<Longrightarrow> pos s = pos n \<Longrightarrow> val s = val n"
begin

lemma covered_accept: "covered pos val e s \<Longrightarrow> accept s n \<Longrightarrow> covered pos val e n"
  using accept_pos [of s n] accept_val [of s n] unfolding covered_def by fastforce

lemma agreeing_accept:
  assumes "agreeing pos val E" and "\<And>e. e \<in> E \<Longrightarrow> covered pos val e s" and "accept s n"
  shows "agreeing pos val (insert n E)"
proof -
  have "covered pos val e n" if "e \<in> E" for e
    using assms(2,3) that by (blast intro: covered_accept)
  then have "val e = val n" if "e \<in> E" "pos e = pos n" for e
    using that unfolding covered_def by (metis less_irrefl)
  with assms(1) show ?thesis unfolding agreeing_def by (metis insert_iff)
qed

lemma accepted_run_covered:
  "accepted_run accept s ns \<Longrightarrow> n \<in> set ns \<Longrightarrow> covered pos val s n"
proof (induction ns arbitrary: s)
  case Nil
  then show ?case by simp
next
  case (Cons m ns)
  have m: "covered pos val s m" using Cons.prems by (auto intro: covered_accept [of s s])
  show ?case
  proof (cases "n = m")
    case True
    then show ?thesis using m by simp
  next
    case False
    then have "covered pos val m n" using Cons by auto
    with m show ?thesis unfolding covered_def by auto
  qed
qed

lemma accepted_run_agreeing: "accepted_run accept s ns \<Longrightarrow> agreeing pos val (insert s (set ns))"
proof (induction ns arbitrary: s)
  case Nil
  then show ?case by (simp add: agreeing_def)
next
  case (Cons m ns)
  have rest: "agreeing pos val (insert m (set ns))" using Cons by simp
  have "covered pos val s n" if "n \<in> insert m (set ns)" for n
    using accepted_run_covered [OF Cons.prems] that by simp
  then have now: "val s = val n" if "n \<in> insert m (set ns)" "pos s = pos n" for n
    using that unfolding covered_def by (metis less_irrefl)
  show ?case
    unfolding agreeing_def
  proof (intro ballI impI)
    fix a b
    assume "a \<in> insert s (set (m # ns))" and "b \<in> insert s (set (m # ns))" and eq: "pos a = pos b"
    then consider "a = s" "b = s" | "a = s" "b \<in> insert m (set ns)"
      | "a \<in> insert m (set ns)" "b = s" | "a \<in> insert m (set ns)" "b \<in> insert m (set ns)"
      by (metis insert_iff list.simps(15))
    then show "val a = val b"
    proof cases
      case 1
      then show ?thesis by simp
    next
      case 2
      then show ?thesis using now [of b] eq by simp
    next
      case 3
      then show ?thesis using now [of a] eq by simp
    next
      case 4
      then show ?thesis by (rule agreeingD [OF rest _ _ eq])
    qed
  qed
qed

end

section \<open>A file that is replaced as a whole\<close>

locale atomic_file =
  fixes usable :: bool
    and put :: "'o \<Rightarrow> 's \<Rightarrow> 'd \<Rightarrow> ('d, 'e, unit) run"
    and get :: "'d \<Rightarrow> 's option"
  assumes put_done: "usable \<Longrightarrow> put os s d = (d', Done ()) \<Longrightarrow> get d' = Some s"
    and put_not_done: "put os s d = (d', r) \<Longrightarrow> r \<noteq> Done () \<Longrightarrow> d' = d"
begin

text \<open>
  After any sequence of writes, each with its own answer of the operating system, the file
  holds the last value whose put succeeded.
\<close>

lemma get_after_puts:
  assumes usable
  shows "get (fold (\<lambda>(os, s) d. fst (put os s d)) ops d) = get d \<or>
    (\<exists>os s d0. (os, s) \<in> set ops \<and> snd (put os s d0) = Done () \<and>
       get (fold (\<lambda>(os, s) d. fst (put os s d)) ops d) = Some s)"
proof (induction ops arbitrary: d)
  case Nil
  then show ?case by simp
next
  case (Cons op ops)
  obtain os s where op: "op = (os, s)" by (cases op)
  obtain d' r where w: "put os s d = (d', r)" by (cases "put os s d")
  have head: "get d' = get d \<or> (snd (put os s d) = Done () \<and> get d' = Some s)"
    using put_done [OF assms] put_not_done [OF w] w by (cases "r = Done ()") auto
  from Cons [of d'] head op w show ?case by fastforce
qed

lemma put_total_correct:
  assumes usable and "put os s d = (d', r)"
  shows "(r = Done () \<and> get d' = Some s) \<or> (r \<noteq> Done () \<and> get d' = get d)"
  using put_done [OF assms(1)] put_not_done [OF assms(2)] assms(2) by (cases "r = Done ()") auto

end

section \<open>A collection that refuses a second entry under one key\<close>

text \<open>
  Adding always stores the new entry and reports an error when it replaced one.  The loop
  that adds a whole list therefore succeeds exactly when no key occurs twice, and then
  every entry can be looked up.  Provided by \<open>Keyring\<close> (both maps) and \<open>Chain_Registry\<close>.
\<close>

locale strict_collection =
  fixes usable :: "'x \<Rightarrow> bool" and key :: "'x \<Rightarrow> 'k" and duplicate :: 'e
    and lookup :: "'s \<Rightarrow> 'k \<rightharpoonup> 'x" and add :: "'x \<Rightarrow> 's \<Rightarrow> ('s, 'e, unit) run"
  assumes add_lookup: "usable x \<Longrightarrow> lookup (fst (add x s)) = (lookup s)(key x \<mapsto> x)"
    and add_fresh: "usable x \<Longrightarrow> lookup s (key x) = None \<Longrightarrow> snd (add x s) = Done ()"
    and add_duplicate: "usable x \<Longrightarrow> lookup s (key x) = Some y \<Longrightarrow> snd (add x s) = Failed duplicate"
begin

lemma add_result:
  "usable x \<Longrightarrow> snd (add x s) = (if lookup s (key x) = None then Done () else Failed duplicate)"
  using add_fresh [of x s] add_duplicate [of x s] by (cases "lookup s (key x)") auto

lemma add_Cons:
  "usable x \<Longrightarrow> for_each add (x # xs) s =
     (if lookup s (key x) = None then for_each add xs (fst (add x s))
      else (fst (add x s), Failed duplicate))"
  by (simp add: rbind_split add_result)

lemma add_all:
  assumes "\<And>x. x \<in> set xs \<Longrightarrow> usable x"
  shows "snd (for_each add xs s) = Done () \<longleftrightarrow>
    distinct (map key xs) \<and> (\<forall>x \<in> set xs. lookup s (key x) = None)"
  using assms
proof (induction xs arbitrary: s)
  case Nil
  then show ?case by simp
next
  case (Cons x xs)
  have x: "usable x" using Cons.prems by simp
  have IH: "snd (for_each add xs (fst (add x s))) = Done () \<longleftrightarrow>
      distinct (map key xs) \<and> (\<forall>y \<in> set xs. lookup (fst (add x s)) (key y) = None)"
    using Cons by simp
  have "(\<forall>y \<in> set xs. lookup (fst (add x s)) (key y) = None) \<longleftrightarrow>
      key x \<notin> key ` set xs \<and> (\<forall>y \<in> set xs. lookup s (key y) = None)"
    unfolding add_lookup [OF x] by (force simp: image_iff)
  then show ?case
    unfolding add_Cons [OF x] using IH by auto
qed

lemma lookup_other:
  assumes "\<And>x. x \<in> set xs \<Longrightarrow> usable x" and "k \<notin> key ` set xs"
  shows "lookup (fst (for_each add xs s)) k = lookup s k"
  using assms
proof (induction xs arbitrary: s)
  case Nil
  then show ?case by simp
next
  case (Cons x xs)
  have x: "usable x" using Cons.prems by simp
  have "lookup (fst (add x s)) k = lookup s k"
    using Cons.prems by (auto simp: add_lookup [OF x])
  moreover have "lookup (fst (for_each add xs (fst (add x s)))) k = lookup (fst (add x s)) k"
    using Cons by simp
  ultimately show ?case unfolding add_Cons [OF x] by simp
qed

lemma lookup_added:
  assumes "\<And>x. x \<in> set xs \<Longrightarrow> usable x" and "snd (for_each add xs s) = Done ()" and "x \<in> set xs"
  shows "lookup (fst (for_each add xs s)) (key x) = Some x"
  using assms
proof (induction xs arbitrary: s)
  case Nil
  then show ?case by simp
next
  case (Cons y ys)
  have y: "usable y" using Cons.prems by simp
  have dist: "key y \<notin> key ` set ys" and fresh: "lookup s (key y) = None"
    using add_all [of "y # ys" s] Cons.prems by auto
  have step: "for_each add (y # ys) s = for_each add ys (fst (add y s))"
    unfolding add_Cons [OF y] using fresh by simp
  show ?case
  proof (cases "x = y")
    case True
    have "lookup (fst (for_each add ys (fst (add y s)))) (key y) = Some y"
      using lookup_other [of ys "key y"] Cons.prems dist by (simp add: add_lookup [OF y])
    then show ?thesis unfolding step True .
  next
    case False
    then show ?thesis unfolding step using Cons step by simp
  qed
qed

end

end
