(* ===== verification/Chain_State.thy ===== *)
theory Chain_State
  imports Amino_Types Kms_Interfaces
begin

text \<open>
  Double-sign protection: \<^verbatim>\<open>src/chain/state.rs\<close> (the last signed consensus state, the
  check of a new one, the state file) and \<^verbatim>\<open>src/chain/state/hook.rs\<close> (the command that
  reports the block height at start-up).

  The disk is a map from paths to file contents.  What the operating system answers (a read
  that fails, a temporary file that cannot be made, written or moved into place) is an
  argument of the operations, so every theorem covers every answer.  The JSON text of a
  state is produced and read by a derived \<^verbatim>\<open>serde\<close> implementation and is a parameter.

  The locale \<open>position_guard\<close> is the abstract promise of the check; the check of the source
  is an interpretation of it.
\<close>

section \<open>The state and its file\<close>

type_synonym disk = "path \<rightharpoonup> string"

record state =
  st_consensus_state :: consensus_state
  st_state_file_path :: path

record state_json =
  to_json :: "consensus_state \<Rightarrow> string option"
  from_json :: "string \<Rightarrow> consensus_state option"

text \<open>What is relied on: a state that was serialised is read back as it was.\<close>

definition json_roundtrip :: "state_json \<Rightarrow> bool" where
  "json_roundtrip js \<longleftrightarrow> (\<forall>s j. to_json js s = Some j \<longrightarrow> from_json js j = Some s)"

datatype read_answer = Read_ok | Read_fails

datatype write_answer = Write_ok | Tempfile_fails | Write_fails | Persist_fails

definition root_panic :: panic_payload where
  "root_panic = Payload_str ''state file cannot be root directory''"

text \<open>
  Write a temporary file next to the state file and move it into place: the move is the
  only step that changes the state file.
\<close>

definition sync_to_disk ::
  "state_json \<Rightarrow> write_answer \<Rightarrow> state \<Rightarrow> disk \<Rightarrow> (disk, foreign_error, unit) run" where
  "sync_to_disk js os self disk =
     (case to_json js (st_consensus_state self) of
        None \<Rightarrow> (disk, Failed Io_error)
      | Some json \<Rightarrow>
          (case path_parent (st_state_file_path self) of
             None \<Rightarrow> (disk, Panicked root_panic)
           | Some state_file_dir \<Rightarrow>
               (case os of
                  Tempfile_fails \<Rightarrow> (disk, Failed Io_error)
                | Write_fails \<Rightarrow> (disk, Failed Io_error)
                | Persist_fails \<Rightarrow> (disk, Failed Io_error)
                | Write_ok \<Rightarrow> (disk(st_state_file_path self \<mapsto> json), Done ()))))"

definition write_initial_state ::
  "tendermint_crate \<Rightarrow> state_json \<Rightarrow> write_answer \<Rightarrow> path \<Rightarrow> disk \<Rightarrow> (disk, error_kind, state) run" where
  "write_initial_state tm js os path disk =
     (let initial_state = \<lparr>st_consensus_state = (state_default tm)\<lparr>cs_height := 0\<rparr>,
                           st_state_file_path = path\<rparr>
      in case sync_to_disk js os initial_state disk of
           (disk', r) \<Rightarrow> rbind (disk', map_err error_from r) (\<lambda>d _. (d, Done initial_state)))"

definition load_state ::
  "tendermint_crate \<Rightarrow> state_json \<Rightarrow> read_answer \<Rightarrow> write_answer \<Rightarrow> path \<Rightarrow> disk
     \<Rightarrow> (disk, error_kind, state) run" where
  "load_state tm js rd os path disk =
     (case rd of
        Read_fails \<Rightarrow> (disk, Failed (error_from Io_error))
      | Read_ok \<Rightarrow>
          (case disk path of
             Some state_json \<Rightarrow>
               (case from_json js state_json of
                  None \<Rightarrow> (disk, Failed ParseError)
                | Some cs \<Rightarrow> (disk, Done \<lparr>st_consensus_state = cs, st_state_file_path = path\<rparr>))
           | None \<Rightarrow> write_initial_state tm js os path disk))"

section \<open>Checking and updating\<close>

text \<open>
  The nested conditions of \<^verbatim>\<open>update_consensus_state\<close>: height, round and step must not
  go back; at the same height and round the block ID may only change between absent and
  present, and not within one step.
\<close>

definition consensus_check ::
  "consensus_state \<Rightarrow> consensus_state \<Rightarrow> (state_error_kind, unit) outcome" where
  "consensus_check old new =
     (if cs_height new < cs_height old then Failed HeightRegression
      else if cs_height new = cs_height old then
        (if cs_round new < cs_round old then Failed RoundRegression
         else if cs_round new = cs_round old then
           (if cs_step new < cs_step old then Failed StepRegression
            else if cs_block_id new \<noteq> cs_block_id old \<and>
              ((cs_block_id new \<noteq> None \<and> cs_block_id old \<noteq> None) \<or> cs_step new = cs_step old)
            then Failed State_DoubleSign
            else Done ())
         else Done ())
      else Done ())"

definition update_consensus_state ::
  "state_json \<Rightarrow> write_answer \<Rightarrow> consensus_state \<Rightarrow> state \<Rightarrow> disk
     \<Rightarrow> (state \<times> disk, state_error_kind, unit) run" where
  "update_consensus_state js os new_state self disk =
     rbind ((self, disk), consensus_check (st_consensus_state self) new_state) (\<lambda>_ _.
       let self' = self\<lparr>st_consensus_state := new_state\<rparr>
       in case sync_to_disk js os self' disk of
            (disk', r) \<Rightarrow> ((self', disk'), map_err (\<lambda>_. SyncError) r))"

section \<open>The state hook\<close>

definition DEFAULT_TIMEOUT_SECS :: u64 where
  "DEFAULT_TIMEOUT_SECS = 1"

definition BLOCK_HEIGHT_SANITY_LIMIT :: u64 where
  "BLOCK_HEIGHT_SANITY_LIMIT = 9000"

record hook_output =
  latest_block_height :: u64

text \<open>
  \<^verbatim>\<open>std::process\<close>: a spawned command inherits its parent's streams unless the builder
  says otherwise, and the handle \<^verbatim>\<open>child.stdout\<close> is there only when the stream was piped.
\<close>

datatype stdio = Inherit | Piped

record command =
  cmd_program :: string
  cmd_args :: "string list"
  cmd_stdout :: stdio

definition command_new :: "string \<Rightarrow> command" where
  "command_new program = \<lparr>cmd_program = program, cmd_args = [], cmd_stdout = Inherit\<rparr>"

record child =
  child_stdout :: "string option"

datatype wait_result = Exited bool | Timed_out

text \<open>
  What the operating system does with the command: whether it starts and what it prints,
  how waiting for it ends, whether killing and reaping it works.
\<close>

record hook_process =
  hp_spawn :: "command \<Rightarrow> string option"
  hp_wait :: "u64 \<Rightarrow> wait_result option"
  hp_kill_ok :: bool
  hp_reap_ok :: bool

definition spawn :: "hook_process \<Rightarrow> command \<Rightarrow> child option" where
  "spawn os c = map_option
     (\<lambda>printed. \<lparr>child_stdout = (case cmd_stdout c of Inherit \<Rightarrow> None | Piped \<Rightarrow> Some printed)\<rparr>)
     (hp_spawn os c)"

definition index_panic :: panic_payload where
  "index_panic = Payload_String ''index out of bounds: the len is 0 but the index is 0''"

definition hook_run ::
  "(string \<Rightarrow> hook_output option) \<Rightarrow> hook_process \<Rightarrow> hook_config \<Rightarrow> (error_kind, hook_output) outcome" where
  "hook_run parse os config =
     (case hook_cmd config of
        [] \<Rightarrow> Panicked index_panic
      | prog # args \<Rightarrow>
          (case spawn os ((command_new prog)\<lparr>cmd_args := args\<rparr>) of
             None \<Rightarrow> Failed (error_from Io_error)
           | Some child \<Rightarrow>
               (let timeout = (case hook_timeout_secs config of
                                 None \<Rightarrow> DEFAULT_TIMEOUT_SECS | Some t \<Rightarrow> t)
                in case hp_wait os timeout of
                     None \<Rightarrow> Failed (error_from Io_error)
                   | Some (Exited success) \<Rightarrow>
                       (if success then
                          (case child_stdout child of
                             Some stdout \<Rightarrow> ok_or (error_from Serde_json_error) (parse stdout)
                           | None \<Rightarrow> Failed HookError)
                        else Failed HookError)
                   | Some Timed_out \<Rightarrow>
                       (if \<not> hp_kill_ok os then Failed (error_from Io_error)
                        else if \<not> hp_reap_ok os then Failed (error_from Io_error)
                        else Failed HookError))))"

definition update_from_hook_output ::
  "tendermint_crate \<Rightarrow> hook_output \<Rightarrow> state \<Rightarrow> state" where
  "update_from_hook_output tm output self =
     (let hook_height = latest_block_height output;
          last_height = cs_height (st_consensus_state self)
      in if hook_height > last_height then
           (let delta = hook_height - last_height
            in if delta < BLOCK_HEIGHT_SANITY_LIMIT
               then self\<lparr>st_consensus_state := (state_default tm)\<lparr>cs_height := hook_height\<rparr>\<rparr>
               else self)
         else self)"

section \<open>What the check accepts\<close>

definition state_position :: "consensus_state \<Rightarrow> u64 \<times> u32 \<times> int" where
  "state_position s = (cs_height s, cs_round s, cs_step s)"

abbreviation check_accepts :: "consensus_state \<Rightarrow> consensus_state \<Rightarrow> bool" where
  "check_accepts old new \<equiv> consensus_check old new = Done ()"

lemma consensus_check_no_panic [simp]: "\<not> is_panic (consensus_check old new)"
  by (simp add: consensus_check_def)

lemma consensus_check_cases:
  "consensus_check old new = Done () \<or> (\<exists>e. consensus_check old new = Failed e)"
  by (simp add: consensus_check_def)

lemma check_accepts_position: "check_accepts old new \<Longrightarrow> state_position old \<le> state_position new"
  by (auto simp: consensus_check_def state_position_def less_eq_prod_def split: if_splits)

lemma check_accepts_block_id:
  "check_accepts old new \<Longrightarrow> state_position old = state_position new \<Longrightarrow>
     cs_block_id old = cs_block_id new"
  by (auto simp: consensus_check_def state_position_def split: if_splits)

interpretation cg: position_guard state_position cs_block_id check_accepts
  by unfold_locales (erule check_accepts_position, erule (1) check_accepts_block_id)

section \<open>What the operations do\<close>

lemma json_roundtripD: "json_roundtrip js \<Longrightarrow> to_json js s = Some j \<Longrightarrow> from_json js j = Some s"
  by (simp add: json_roundtrip_def)

lemma sync_to_disk_DoneD:
  assumes "sync_to_disk js os s d = (d', Done ())"
  shows "\<exists>j. to_json js (st_consensus_state s) = Some j \<and> d' = d(st_state_file_path s \<mapsto> j)"
  using assms by (auto simp: sync_to_disk_def split: option.splits write_answer.splits)

lemma sync_to_disk_not_DoneD:
  "sync_to_disk js os s d = (d', r) \<Longrightarrow> r \<noteq> Done () \<Longrightarrow> d' = d"
  by (auto simp: sync_to_disk_def split: option.splits write_answer.splits)

lemma sync_to_disk_panics_iff:
  "is_panic (snd (sync_to_disk js os s d)) \<longleftrightarrow>
     to_json js (st_consensus_state s) \<noteq> None \<and> path_parent (st_state_file_path s) = None"
  by (auto simp: sync_to_disk_def split: option.splits write_answer.splits)

text \<open>The consensus state that a start-up reads from the file at a path.\<close>

definition stored_state :: "state_json \<Rightarrow> path \<Rightarrow> disk \<Rightarrow> consensus_state option" where
  "stored_state js p d = Option.bind (d p) (from_json js)"

interpretation state_file: atomic_file "json_roundtrip js"
  "\<lambda>os cs. sync_to_disk js os \<lparr>st_consensus_state = cs, st_state_file_path = p\<rparr>"
  "stored_state js p" for js p
  by unfold_locales
    (auto dest!: sync_to_disk_DoneD sync_to_disk_not_DoneD json_roundtripD
      simp: stored_state_def)

lemma update_consensus_state_rejected:
  "consensus_check (st_consensus_state s) new = Failed e \<Longrightarrow>
     update_consensus_state js os new s d = ((s, d), Failed e)"
  by (simp add: update_consensus_state_def)

lemma update_consensus_state_accepted:
  "check_accepts (st_consensus_state s) new \<Longrightarrow>
     update_consensus_state js os new s d =
       ((s\<lparr>st_consensus_state := new\<rparr>, fst (sync_to_disk js os (s\<lparr>st_consensus_state := new\<rparr>) d)),
        map_err (\<lambda>_. SyncError) (snd (sync_to_disk js os (s\<lparr>st_consensus_state := new\<rparr>) d)))"
  by (simp add: update_consensus_state_def Let_def split: prod.splits)

lemma update_consensus_state_DoneD:
  assumes "update_consensus_state js os new s d = ((s', d'), Done ())"
  shows "check_accepts (st_consensus_state s) new" "s' = s\<lparr>st_consensus_state := new\<rparr>"
    "sync_to_disk js os s' d = (d', Done ())"
proof -
  show acc: "check_accepts (st_consensus_state s) new"
    using consensus_check_cases [of "st_consensus_state s" new] assms
    by (auto simp: update_consensus_state_def)
  show s': "s' = s\<lparr>st_consensus_state := new\<rparr>" and "sync_to_disk js os s' d = (d', Done ())"
    using assms unfolding update_consensus_state_accepted [OF acc] by (auto simp: prod_eq_iff)
qed

text \<open>
  In every outcome the in-memory state is the old one or an accepted successor of it, and
  the disk is either untouched or holds the new state.
\<close>

lemma update_consensus_state_effect:
  assumes "update_consensus_state js os new s d = ((s', d'), r)"
  shows "st_state_file_path s' = st_state_file_path s"
    and "s' = s \<or> (check_accepts (st_consensus_state s) new \<and> st_consensus_state s' = new)"
    and "r \<noteq> Done () \<Longrightarrow> d' = d"
    and "d' = d \<or> sync_to_disk js os (s\<lparr>st_consensus_state := new\<rparr>) d = (d', Done ())"
proof -
  let ?s = "s\<lparr>st_consensus_state := new\<rparr>"
  consider (rej) e where "consensus_check (st_consensus_state s) new = Failed e"
    | (acc) "check_accepts (st_consensus_state s) new"
    using consensus_check_cases by blast
  then have *: "st_state_file_path s' = st_state_file_path s \<and>
      (s' = s \<or> (check_accepts (st_consensus_state s) new \<and> st_consensus_state s' = new)) \<and>
      (r \<noteq> Done () \<longrightarrow> d' = d) \<and> (d' = d \<or> sync_to_disk js os ?s d = (d', Done ()))"
  proof cases
    case rej
    then show ?thesis using assms by (simp add: update_consensus_state_rejected)
  next
    case acc
    then have eq: "s' = ?s" "d' = fst (sync_to_disk js os ?s d)"
      "r = map_err (\<lambda>_. SyncError) (snd (sync_to_disk js os ?s d))"
      using assms by (auto simp: update_consensus_state_accepted)
    obtain dd rr where sync: "sync_to_disk js os ?s d = (dd, rr)"
      by (cases "sync_to_disk js os ?s d")
    with eq have "d' = dd" and r: "r = map_err (\<lambda>_. SyncError) rr" by simp_all
    moreover have "rr \<noteq> Done () \<Longrightarrow> dd = d" by (rule sync_to_disk_not_DoneD [OF sync])
    ultimately show ?thesis using acc eq(1) sync by (cases "rr = Done ()") auto
  qed
  then show "st_state_file_path s' = st_state_file_path s"
    and "s' = s \<or> (check_accepts (st_consensus_state s) new \<and> st_consensus_state s' = new)"
    and "r \<noteq> Done () \<Longrightarrow> d' = d"
    and "d' = d \<or> sync_to_disk js os ?s d = (d', Done ())"
    by blast+
qed

lemma update_from_hook_output_covers:
  "covered state_position cs_block_id (st_consensus_state s)
     (st_consensus_state (update_from_hook_output tm out s))"
  by (simp add: update_from_hook_output_def covered_def state_position_def Let_def less_prod_def)

lemma load_state_path: "load_state tm js rd os p d = (d', Done s) \<Longrightarrow> st_state_file_path s = p"
  by (auto simp: load_state_def write_initial_state_def Let_def rbind_split
      split: read_answer.splits option.splits prod.splits outcome.splits)

lemma load_state_keeps_file: "d p \<noteq> None \<Longrightarrow> fst (load_state tm js rd os p d) = d"
  by (auto simp: load_state_def split: read_answer.splits option.splits)

lemma load_state_stored:
  "load_state tm js rd os p d = (d', Done s) \<Longrightarrow> stored_state js p d = Some c \<Longrightarrow>
     st_consensus_state s = c"
  by (auto simp: load_state_def stored_state_def split: read_answer.splits option.splits)

lemma load_state_fresh:
  assumes "load_state tm js rd os p d = (d', Done s)" and "d p = None"
  shows "st_consensus_state s = (state_default tm)\<lparr>cs_height := 0\<rparr>"
    "\<exists>j. to_json js (st_consensus_state s) = Some j \<and> d' = d(p \<mapsto> j)"
  using assms
  by (auto simp: load_state_def write_initial_state_def Let_def rbind_split
      split: read_answer.splits option.splits prod.splits outcome.splits dest!: sync_to_disk_DoneD)

lemma hook_never: "hook_run parse os config \<noteq> Done out"
  by (auto simp: hook_run_def spawn_def command_new_def Let_def
      split: list.splits option.splits wait_result.splits)

section \<open>Properties\<close>

text \<open>
  C15: the double-sign check accepts a new state exactly when its height and round come after
  the old ones, or they are the same, the step does not go back, and the block ID is the same
  or, at a later step, one of the two is absent.
\<close>

theorem consensus_check_accepts_iff:
  "consensus_check old new = Done () \<longleftrightarrow>
     (cs_height old, cs_round old) < (cs_height new, cs_round new) \<or>
     (cs_height old = cs_height new \<and> cs_round old = cs_round new \<and> cs_step old \<le> cs_step new \<and>
      (cs_block_id new = cs_block_id old \<or>
       (cs_step old < cs_step new \<and> (cs_block_id new = None \<or> cs_block_id old = None))))"
  by (auto simp: consensus_check_def less_prod_def)

text \<open>
  How an update of the chain state can end.  Success: the state was acceptable, and both
  memory and file hold it.  A failed write: memory holds the new state, no file changed.  Any
  other error: nothing changed.  A panic only for a state file without parent directory, and
  then no file changed.
\<close>

theorem update_consensus_state_outcomes:
  assumes "json_roundtrip js" and "update_consensus_state js os new s d = ((s', d'), r)"
  shows "(r = Done () \<longrightarrow> check_accepts (st_consensus_state s) new \<and> st_consensus_state s' = new \<and>
            stored_state js (st_state_file_path s) d' = Some new) \<and>
    (r = Failed SyncError \<longrightarrow> check_accepts (st_consensus_state s) new \<and> st_consensus_state s' = new \<and> d' = d) \<and>
    (\<forall>e. r = Failed e \<and> e \<noteq> SyncError \<longrightarrow>
            consensus_check (st_consensus_state s) new = Failed e \<and> s' = s \<and> d' = d) \<and>
    (is_panic r \<longrightarrow> path_parent (st_state_file_path s) = None \<and> d' = d)"
proof (cases "check_accepts (st_consensus_state s) new")
  case True
  let ?s = "s\<lparr>st_consensus_state := new\<rparr>"
  obtain dd rr where sync: "sync_to_disk js os ?s d = (dd, rr)" by (metis surj_pair)
  have eq: "s' = ?s" "d' = dd" "r = map_err (\<lambda>_. SyncError) rr"
    using assms(2) sync by (simp_all add: update_consensus_state_accepted [OF True])
  have "stored_state js (st_state_file_path s) dd = Some new" if "rr = Done ()"
    using state_file.put_done [OF assms(1), of os new "st_state_file_path s" d dd] sync that
    by (cases s) simp
  moreover have "dd = d" if "rr \<noteq> Done ()" using sync_to_disk_not_DoneD [OF sync that] .
  moreover have "path_parent (st_state_file_path s) = None" if "is_panic rr"
    using sync_to_disk_panics_iff [of js os ?s d] sync that by simp
  ultimately show ?thesis using eq True by (cases rr) auto
next
  case False
  then obtain e where "consensus_check (st_consensus_state s) new = Failed e"
    using consensus_check_cases by blast
  moreover from this have "e \<noteq> SyncError" by (auto simp: consensus_check_def split: if_splits)
  ultimately show ?thesis using assms(2) update_consensus_state_rejected by fastforce
qed

definition unit_json :: "consensus_state \<Rightarrow> state_json" where
  "unit_json s = \<lparr>to_json = (\<lambda>x. if x = s then Some [] else None), from_json = (\<lambda>j. Some s)\<rparr>"

lemma unit_json_roundtrip [simp]: "json_roundtrip (unit_json s)"
  by (simp add: json_roundtrip_def unit_json_def)

definition height_one :: consensus_state where
  "height_one = \<lparr>cs_height = 1, cs_round = 0, cs_step = 1, cs_block_id = None\<rparr>"

definition height_zero :: state where
  "height_zero = \<lparr>st_consensus_state = height_one\<lparr>cs_height := 0\<rparr>,
     st_state_file_path = \<lparr>path_absolute = True, path_components = [''s'']\<rparr>\<rparr>"

lemma height_one_accepted: "check_accepts (st_consensus_state height_zero) height_one"
  by (simp add: consensus_check_def height_zero_def height_one_def)

theorem update_consensus_state_outcomes_witness:
  "\<exists>s' d'. update_consensus_state (unit_json height_one) Write_ok height_one height_zero Map.empty = ((s', d'), Done ()) \<and>
     stored_state (unit_json height_one) (st_state_file_path height_zero) d' = Some height_one"
proof -
  have "sync_to_disk (unit_json height_one) Write_ok (height_zero\<lparr>st_consensus_state := height_one\<rparr>) Map.empty =
      ([st_state_file_path height_zero \<mapsto> []], Done ())"
    by (simp add: sync_to_disk_def unit_json_def height_zero_def path_parent_def)
  then have run: "update_consensus_state (unit_json height_one) Write_ok height_one height_zero Map.empty =
      ((height_zero\<lparr>st_consensus_state := height_one\<rparr>, [st_state_file_path height_zero \<mapsto> []]), Done ())"
    unfolding update_consensus_state_accepted [OF height_one_accepted] by simp
  from update_consensus_state_outcomes [OF unit_json_roundtrip this] run show ?thesis by blast
qed

text \<open>A sequence of writes, each with the answer of the operating system.\<close>

definition sync_all :: "state_json \<Rightarrow> path \<Rightarrow> (write_answer \<times> consensus_state) list \<Rightarrow> disk \<Rightarrow> disk" where
  "sync_all js p ops d =
     fold (\<lambda>(os, s) d. fst (sync_to_disk js os \<lparr>st_consensus_state = s, st_state_file_path = p\<rparr> d)) ops d"

text \<open>
  C16: after any number of attempts to write the state file, whatever the operating system
  answers to each, the file reads as before or as a state whose write was reported successful.
\<close>

theorem state_file_holds_a_written_state:
  assumes "json_roundtrip js"
  shows "stored_state js p (sync_all js p ops d) = stored_state js p d \<or>
    (\<exists>os s d0. (os, s) \<in> set ops \<and>
       snd (sync_to_disk js os \<lparr>st_consensus_state = s, st_state_file_path = p\<rparr> d0) = Done () \<and>
       stored_state js p (sync_all js p ops d) = Some s)"
  unfolding sync_all_def by (rule state_file.get_after_puts [OF assms])

theorem state_file_holds_a_written_state_witness:
  "stored_state (unit_json height_one) (st_state_file_path height_zero)
     (sync_all (unit_json height_one) (st_state_file_path height_zero)
        [(Persist_fails, height_one), (Tempfile_fails, height_one)] Map.empty) = None"
  using state_file_holds_a_written_state [OF unit_json_roundtrip, of height_one "st_state_file_path height_zero"
      "[(Persist_fails, height_one), (Tempfile_fails, height_one)]" Map.empty]
  by (auto simp: sync_to_disk_def stored_state_def split: option.splits)

text \<open>
  The state hook can move the height only forward and by less than 9000 blocks; otherwise
  the state stays as it is.
\<close>

theorem hook_jump_bounded:
  "update_from_hook_output tm out s = s \<or>
   (st_state_file_path (update_from_hook_output tm out s) = st_state_file_path s \<and>
    unat (cs_height (st_consensus_state s)) <
      unat (cs_height (st_consensus_state (update_from_hook_output tm out s))) \<and>
    unat (cs_height (st_consensus_state (update_from_hook_output tm out s))) <
      unat (cs_height (st_consensus_state s)) + 9000)"
proof -
  have bound: "unat h < unat l + 9000" if "l < h" "h - l < 9000" for h l :: u64
  proof -
    have "l \<le> h" using that(1) by simp
    have "unat (h - l) < 9000" using that(2) by (simp add: word_less_nat_alt)
    then show ?thesis using unat_sub [OF \<open>l \<le> h\<close>] that(1) by (simp add: word_less_nat_alt)
  qed
  show ?thesis
    by (auto simp: update_from_hook_output_def BLOCK_HEIGHT_SANITY_LIMIT_def Let_def word_less_nat_alt [symmetric]
        dest: bound)
qed

end
