(* ===== verification/Keyring.thy ===== *)
theory Keyring
  imports Kms_Config Kms_Interfaces
begin

text \<open>
  The signing keyring of one chain: \<^verbatim>\<open>src/keyring.rs\<close> with its signers
  (\<^verbatim>\<open>src/keyring/ed25519.rs\<close>, \<^verbatim>\<open>src/keyring/ecdsa.rs\<close>), the key display formats
  (\<^verbatim>\<open>src/keyring/format.rs\<close>) and the provider names (\<^verbatim>\<open>src/keyring/providers.rs\<close>).

  \<^verbatim>\<open>crate::Map\<close> is a \<^verbatim>\<open>BTreeMap\<close>: here the list of its entries in key order.  A signer
  object is the function its \<^verbatim>\<open>try_sign\<close> computes.
\<close>

section \<open>The ordered map\<close>

type_synonym ('k, 'v) ordered_map = "('k \<times> 'v) list"

fun map_insert :: "'k::linorder \<Rightarrow> 'v \<Rightarrow> ('k, 'v) ordered_map \<Rightarrow> ('k, 'v) ordered_map" where
  "map_insert k v [] = [(k, v)]"
| "map_insert k v ((k', v') # m) =
     (if k < k' then (k, v) # (k', v') # m
      else if k = k' then (k, v) # m
      else (k', v') # map_insert k v m)"

definition ordered :: "('k::linorder, 'v) ordered_map \<Rightarrow> bool" where
  "ordered m \<longleftrightarrow> sorted_wrt (<) (map fst m)"

lemma ordered_Nil [simp]: "ordered []"
  by (simp add: ordered_def)

lemma map_of_map_insert [simp]: "map_of (map_insert k v m) = (map_of m)(k \<mapsto> v)"
  by (induction k v m rule: map_insert.induct) auto

lemma set_map_insert: "fst ` set (map_insert k v m) = insert k (fst ` set m)"
  by (induction k v m rule: map_insert.induct) auto

lemma ordered_map_insert [simp]: "ordered m \<Longrightarrow> ordered (map_insert k v m)"
proof (induction k v m rule: map_insert.induct)
  case (2 k v k' v' m)
  show ?case
  proof (cases "k' < k")
    case True
    have "k' < x" if "x \<in> set (map fst (map_insert k v m))" for x
      using that set_map_insert [of k v m] True 2 by (auto simp: ordered_def)
    moreover have "\<not> k < k'" "k \<noteq> k'" using True by auto
    ultimately show ?thesis using 2 by (simp add: ordered_def)
  next
    case False
    with 2 show ?thesis by (auto simp: ordered_def)
  qed
qed (simp add: ordered_def)

lemma ordered_distinct: "ordered m \<Longrightarrow> distinct (map fst m)"
  by (simp add: ordered_def strict_sorted_iff)

lemma length_map_insert:
  "length (map_insert k v m) \<le> Suc (length m)" "length m \<le> length (map_insert k v m)"
  by (induction k v m rule: map_insert.induct) auto

lemma map_insert_all:
  "\<forall>(key, x) \<in> set m. P key x \<Longrightarrow> P k v \<Longrightarrow> \<forall>(key, x) \<in> set (map_insert k v m). P key x"
  by (induction k v m rule: map_insert.induct) auto

section \<open>Signers and formats\<close>

datatype signing_provider = Yubihsm | LedgerTm | SoftSign | FortanixDsm

fun provider_name :: "signing_provider \<Rightarrow> string" where
  "provider_name Yubihsm = ''yubihsm''"
| "provider_name LedgerTm = ''ledgertm''"
| "provider_name SoftSign = ''softsign''"
| "provider_name FortanixDsm = ''fortanixdsm''"

record signer =
  sg_provider :: signing_provider
  sg_public_key :: tendermint_key
  sg_try_sign :: "bytes \<Rightarrow> (unit, bytes) outcome"

definition signer_new ::
  "signing_provider \<Rightarrow> tendermint_key \<Rightarrow> (bytes \<Rightarrow> (unit, bytes) outcome) \<Rightarrow> signer" where
  "signer_new provider public_key obj =
     \<lparr>sg_provider = provider, sg_public_key = public_key, sg_try_sign = obj\<rparr>"

definition signer_sign :: "signer \<Rightarrow> bytes \<Rightarrow> (error_kind, bytes) outcome" where
  "signer_sign self msg = map_err (\<lambda>_. SigningError) (sg_try_sign self msg)"

text \<open>The ECDSA signer has the same fields.\<close>

definition ecdsa_signer_new ::
  "signing_provider \<Rightarrow> tendermint_key \<Rightarrow> (bytes \<Rightarrow> (unit, bytes) outcome) \<Rightarrow> signer" where
  "ecdsa_signer_new provider public_key obj =
     \<lparr>sg_provider = provider, sg_public_key = public_key, sg_try_sign = obj\<rparr>"

definition ecdsa_signer_sign :: "signer \<Rightarrow> bytes \<Rightarrow> (error_kind, bytes) outcome" where
  "ecdsa_signer_sign self msg = map_err (\<lambda>_. SigningError) (sg_try_sign self msg)"

record key_display =
  kd_account_id :: "public_key \<Rightarrow> bytes"
  kd_bech32 :: "string \<Rightarrow> bytes \<Rightarrow> string"
  kd_key_bech32 :: "string \<Rightarrow> public_key \<Rightarrow> string"
  kd_cosmos_json :: "public_key \<Rightarrow> string"
  kd_hex :: "tendermint_key \<Rightarrow> string"

fun format_serialize :: "key_display \<Rightarrow> key_format_display \<Rightarrow> tendermint_key \<Rightarrow> string" where
  "format_serialize kd (Bech32 account_key_prefix consensus_key_prefix) (AccountKey pk) =
     kd_bech32 kd account_key_prefix (kd_account_id kd pk)"
| "format_serialize kd (Bech32 account_key_prefix consensus_key_prefix) (ConsensusKey pk) =
     kd_key_bech32 kd consensus_key_prefix pk"
| "format_serialize kd CosmosJson k = kd_cosmos_json kd (key_of k)"
| "format_serialize kd Hex k = kd_hex kd k"

section \<open>The keyring\<close>

record keyring =
  kr_ecdsa_keys :: "(tendermint_key, signer) ordered_map"
  kr_ed25519_keys :: "(tendermint_key, signer) ordered_map"
  kr_format :: key_format_display

definition keyring_new :: "key_format_display \<Rightarrow> keyring" where
  "keyring_new format = \<lparr>kr_ecdsa_keys = [], kr_ed25519_keys = [], kr_format = format\<rparr>"

definition ecdsa_consensus_panic :: panic_payload where
  "ecdsa_consensus_panic = Payload_String ''not implemented: ECDSA consensus keys unsupported''"

definition ed25519_account_panic :: panic_payload where
  "ed25519_account_panic = Payload_String ''not implemented: Ed25519 account keys unsupported''"

definition add_ecdsa :: "signer \<Rightarrow> keyring \<Rightarrow> (keyring, error_kind, unit) run" where
  "add_ecdsa signer self =
     (let public_key = sg_public_key signer
      in case public_key of
           ConsensusKey _ \<Rightarrow> (self, Panicked ecdsa_consensus_panic)
         | AccountKey _ \<Rightarrow>
             (self\<lparr>kr_ecdsa_keys := map_insert public_key signer (kr_ecdsa_keys self)\<rparr>,
              case map_of (kr_ecdsa_keys self) public_key of
                Some other \<Rightarrow> Failed InvalidKey
              | None \<Rightarrow> Done ()))"

definition add_ed25519 :: "signer \<Rightarrow> keyring \<Rightarrow> (keyring, error_kind, unit) run" where
  "add_ed25519 signer self =
     (let public_key = sg_public_key signer
      in case public_key of
           AccountKey _ \<Rightarrow> (self, Panicked ed25519_account_panic)
         | ConsensusKey _ \<Rightarrow>
             (self\<lparr>kr_ed25519_keys := map_insert public_key signer (kr_ed25519_keys self)\<rparr>,
              case map_of (kr_ed25519_keys self) public_key of
                Some other \<Rightarrow> Failed InvalidKey
              | None \<Rightarrow> Done ()))"

definition default_ed25519_pubkey :: "keyring \<Rightarrow> (error_kind, tendermint_key) outcome" where
  "default_ed25519_pubkey self =
     (case map fst (kr_ed25519_keys self) of
        [k] \<Rightarrow> Done k
      | _ \<Rightarrow> Failed InvalidKey)"

text \<open>The loops over the ECDSA keys stop at the first key of the account.\<close>

fun find_account ::
  "(public_key \<Rightarrow> bytes) \<Rightarrow> bytes \<Rightarrow> (tendermint_key, 'v) ordered_map \<Rightarrow> (public_key \<times> 'v) option" where
  "find_account account_id_of account_id [] = None"
| "find_account account_id_of account_id ((AccountKey pk, v) # m) =
     (if account_id = account_id_of pk then Some (pk, v)
      else find_account account_id_of account_id m)"
| "find_account account_id_of account_id ((ConsensusKey pk, v) # m) =
     find_account account_id_of account_id m"

definition get_account_pubkey ::
  "(public_key \<Rightarrow> bytes) \<Rightarrow> bytes \<Rightarrow> keyring \<Rightarrow> public_key option" where
  "get_account_pubkey account_id_of account_id self =
     map_option fst (find_account account_id_of account_id (kr_ecdsa_keys self))"

definition sign_ecdsa ::
  "(public_key \<Rightarrow> bytes) \<Rightarrow> bytes \<Rightarrow> bytes \<Rightarrow> keyring \<Rightarrow> (error_kind, bytes) outcome" where
  "sign_ecdsa account_id_of account_id msg self =
     (case find_account account_id_of account_id (kr_ecdsa_keys self) of
        Some (pk, signer) \<Rightarrow> ecdsa_signer_sign signer msg
      | None \<Rightarrow> Failed InvalidKey)"

definition sign_ed25519 ::
  "tendermint_key option \<Rightarrow> bytes \<Rightarrow> keyring \<Rightarrow> (error_kind, bytes) outcome" where
  "sign_ed25519 public_key msg self =
     obind (case public_key of
              Some public_key \<Rightarrow> ok_or InvalidKey (map_of (kr_ed25519_keys self) public_key)
            | None \<Rightarrow>
                (let vals = map snd (kr_ed25519_keys self)
                 in if 1 < length vals then Failed SigningError
                    else case vals of [] \<Rightarrow> Failed InvalidKey | signer # _ \<Rightarrow> Done signer))
       (\<lambda>signer. signer_sign signer msg)"

section \<open>The keyring invariant\<close>

text \<open>
  Every entry is filed under its signer's own key; ECDSA keys are account keys, Ed25519
  keys are consensus keys; both maps are in key order, so no key occurs twice.
\<close>

definition keyring_wf :: "keyring \<Rightarrow> bool" where
  "keyring_wf k \<longleftrightarrow>
     ordered (kr_ecdsa_keys k) \<and> ordered (kr_ed25519_keys k) \<and>
     (\<forall>(key, s) \<in> set (kr_ecdsa_keys k). key = sg_public_key s \<and> (\<exists>pk. key = AccountKey pk)) \<and>
     (\<forall>(key, s) \<in> set (kr_ed25519_keys k). key = sg_public_key s \<and> (\<exists>pk. key = ConsensusKey pk))"

lemma keyring_wf_new [simp]: "keyring_wf (keyring_new f)"
  by (simp add: keyring_wf_def keyring_new_def)

lemma keyring_wf_ecdsa:
  "keyring_wf k \<Longrightarrow>
     \<forall>(key, s) \<in> set (kr_ecdsa_keys k). key = sg_public_key s \<and> (\<exists>pk. key = AccountKey pk)"
  by (simp add: keyring_wf_def)

lemma keyring_wf_ed25519:
  "keyring_wf k \<Longrightarrow>
     \<forall>(key, s) \<in> set (kr_ed25519_keys k). key = sg_public_key s \<and> (\<exists>pk. key = ConsensusKey pk)"
  by (simp add: keyring_wf_def)

lemma keyring_wf_add_ecdsa [simp]: "keyring_wf k \<Longrightarrow> keyring_wf (fst (add_ecdsa s k))"
  using map_insert_all [OF keyring_wf_ecdsa, of k "sg_public_key s" s]
  by (cases "sg_public_key s") (simp_all add: keyring_wf_def add_ecdsa_def Let_def)

lemma keyring_wf_add_ed25519 [simp]: "keyring_wf k \<Longrightarrow> keyring_wf (fst (add_ed25519 s k))"
  using map_insert_all [OF keyring_wf_ed25519, of k "sg_public_key s" s]
  by (cases "sg_public_key s") (simp_all add: keyring_wf_def add_ed25519_def Let_def)

lemma add_ecdsa_usable:
  assumes "sg_public_key s = AccountKey pk"
  shows "map_of (kr_ecdsa_keys (fst (add_ecdsa s k))) = (map_of (kr_ecdsa_keys k))(sg_public_key s \<mapsto> s)"
    and "snd (add_ecdsa s k) =
      (if map_of (kr_ecdsa_keys k) (sg_public_key s) = None then Done () else Failed InvalidKey)"
  using assms by (simp_all add: add_ecdsa_def Let_def split: option.split)

interpretation ecdsa_keys: strict_collection "\<lambda>s. \<exists>pk. sg_public_key s = AccountKey pk"
  sg_public_key InvalidKey "\<lambda>k. map_of (kr_ecdsa_keys k)" add_ecdsa
  by unfold_locales (elim exE; simp add: add_ecdsa_usable)+

lemma add_ed25519_usable:
  assumes "sg_public_key s = ConsensusKey pk"
  shows "map_of (kr_ed25519_keys (fst (add_ed25519 s k))) = (map_of (kr_ed25519_keys k))(sg_public_key s \<mapsto> s)"
    and "snd (add_ed25519 s k) =
      (if map_of (kr_ed25519_keys k) (sg_public_key s) = None then Done () else Failed InvalidKey)"
  using assms by (simp_all add: add_ed25519_def Let_def split: option.split)

interpretation ed25519_keys: strict_collection "\<lambda>s. \<exists>pk. sg_public_key s = ConsensusKey pk"
  sg_public_key InvalidKey "\<lambda>k. map_of (kr_ed25519_keys k)" add_ed25519
  by unfold_locales (elim exE; simp add: add_ed25519_usable)+

lemma add_ed25519_frame [simp]:
  "kr_ecdsa_keys (fst (add_ed25519 s k)) = kr_ecdsa_keys k"
  "kr_format (fst (add_ed25519 s k)) = kr_format k"
  by (simp_all add: add_ed25519_def Let_def split: tendermint_key.splits)

lemma add_ecdsa_frame [simp]:
  "kr_ed25519_keys (fst (add_ecdsa s k)) = kr_ed25519_keys k"
  "kr_format (fst (add_ecdsa s k)) = kr_format k"
  by (simp_all add: add_ecdsa_def Let_def split: tendermint_key.splits)

lemma sign_ed25519_default:
  "sign_ed25519 None msg k =
     (case map snd (kr_ed25519_keys k) of
        [] \<Rightarrow> Failed InvalidKey
      | [s] \<Rightarrow> signer_sign s msg
      | _ \<Rightarrow> Failed SigningError)"
  by (auto simp: sign_ed25519_def Let_def split: list.splits)

lemma find_account_SomeD:
  "find_account f a m = Some (pk, v) \<Longrightarrow> (AccountKey pk, v) \<in> set m \<and> a = f pk"
  by (induction f a m rule: find_account.induct) (auto split: if_splits)

lemma find_account_None_iff:
  "find_account f a m = None \<longleftrightarrow> (\<forall>pk v. (AccountKey pk, v) \<in> set m \<longrightarrow> a \<noteq> f pk)"
  by (induction f a m rule: find_account.induct) auto

section \<open>Properties\<close>

text \<open>
  Signing without naming a key uses the only key of the keyring; with no key it fails with
  \<^verbatim>\<open>InvalidKey\<close>, with several with \<^verbatim>\<open>SigningError\<close>, and no key is used then.
\<close>

theorem sign_ed25519_uses_only_key:
  "sign_ed25519 None msg k =
     (if length (kr_ed25519_keys k) = 1 then signer_sign (snd (hd (kr_ed25519_keys k))) msg
      else if kr_ed25519_keys k = [] then Failed InvalidKey
      else Failed SigningError)"
  unfolding sign_ed25519_default by (cases "kr_ed25519_keys k"; cases "tl (kr_ed25519_keys k)") auto

text \<open>
  Adding a list of consensus keys to a keyring succeeds exactly when no key occurs twice in
  the list and none is in the keyring already; then each of them can be used by its public key,
  and the account keys are untouched.
\<close>

theorem consensus_keys_added_once:
  assumes "\<forall>s \<in> set signers. \<exists>pk. sg_public_key s = ConsensusKey pk"
  shows "(snd (for_each add_ed25519 signers k) = Done () \<longleftrightarrow>
      distinct (map sg_public_key signers) \<and>
      (\<forall>s \<in> set signers. map_of (kr_ed25519_keys k) (sg_public_key s) = None)) \<and>
    (snd (for_each add_ed25519 signers k) = Done () \<longrightarrow>
      (\<forall>s \<in> set signers. sign_ed25519 (Some (sg_public_key s)) msg (fst (for_each add_ed25519 signers k)) =
         signer_sign s msg)) \<and>
    kr_ecdsa_keys (fst (for_each add_ed25519 signers k)) = kr_ecdsa_keys k"
proof (intro conjI impI ballI)
  show "snd (for_each add_ed25519 signers k) = Done () \<longleftrightarrow>
      distinct (map sg_public_key signers) \<and>
      (\<forall>s \<in> set signers. map_of (kr_ed25519_keys k) (sg_public_key s) = None)"
    using ed25519_keys.add_all [of signers k] assms by blast
next
  fix s
  assume "snd (for_each add_ed25519 signers k) = Done ()" and "s \<in> set signers"
  then have "map_of (kr_ed25519_keys (fst (for_each add_ed25519 signers k))) (sg_public_key s) = Some s"
    using ed25519_keys.lookup_added [of signers k s] assms by blast
  then show "sign_ed25519 (Some (sg_public_key s)) msg (fst (for_each add_ed25519 signers k)) = signer_sign s msg"
    by (simp add: sign_ed25519_def)
next
  show "kr_ecdsa_keys (fst (for_each add_ed25519 signers k)) = kr_ecdsa_keys k"
    by (rule for_each_invariant [where I = "\<lambda>x. kr_ecdsa_keys x = kr_ecdsa_keys k"]) simp_all
qed

definition echo_signer :: "bytes \<Rightarrow> signer" where
  "echo_signer pk = signer_new SoftSign (ConsensusKey (Ed25519 pk)) Done"

theorem consensus_keys_added_once_witness:
  "snd (for_each add_ed25519 [echo_signer [1], echo_signer [2]] (keyring_new Hex)) = Done () \<and>
   sign_ed25519 (Some (ConsensusKey (Ed25519 [2]))) [9]
     (fst (for_each add_ed25519 [echo_signer [1], echo_signer [2]] (keyring_new Hex))) = Done [9]"
proof -
  have keys: "sg_public_key (echo_signer b) = ConsensusKey (Ed25519 b)" "signer_sign (echo_signer b) m = Done m" for b m
    by (simp_all add: echo_signer_def signer_new_def signer_sign_def)
  have usable: "\<forall>s \<in> set [echo_signer [1], echo_signer [2]]. \<exists>pk. sg_public_key s = ConsensusKey pk"
    by (simp add: keys)
  note * = consensus_keys_added_once [OF usable, of "keyring_new Hex" "[9]"]
  have "snd (for_each add_ed25519 [echo_signer [1], echo_signer [2]] (keyring_new Hex)) = Done ()"
    using * by (simp add: keys keyring_new_def del: for_each.simps)
  with * show ?thesis
    using keys(1) [of "[2]"] keys(2) [of "[2]" "[9]"] by (auto simp del: for_each.simps)
qed

text \<open>
  An ECDSA signature for an account is made by a signer whose public key belongs to that
  account, and \<^verbatim>\<open>get_account_pubkey\<close> returns the public key of that same signer.
\<close>

theorem sign_ecdsa_key_matches:
  assumes "keyring_wf k" and "sign_ecdsa account_id_of a msg k = Done sig"
  shows "\<exists>pk s. get_account_pubkey account_id_of a k = Some pk \<and> account_id_of pk = a \<and>
    (AccountKey pk, s) \<in> set (kr_ecdsa_keys k) \<and> sg_public_key s = AccountKey pk \<and>
    ecdsa_signer_sign s msg = Done sig"
proof -
  obtain pk s where find: "find_account account_id_of a (kr_ecdsa_keys k) = Some (pk, s)"
    and sig: "ecdsa_signer_sign s msg = Done sig"
    using assms(2) by (auto simp: sign_ecdsa_def split: option.splits)
  note entry = find_account_SomeD [OF find]
  then have "sg_public_key s = AccountKey pk" using keyring_wf_ecdsa [OF assms(1)] by auto
  then show ?thesis using find sig entry by (auto simp: get_account_pubkey_def)
qed

definition account_keyring :: keyring where
  "account_keyring = fst (add_ecdsa (ecdsa_signer_new SoftSign (AccountKey (Secp256k1 [4])) Done) (keyring_new Hex))"

theorem sign_ecdsa_key_matches_witness:
  "sign_ecdsa (\<lambda>pk. case pk of Secp256k1 b \<Rightarrow> b | Ed25519 b \<Rightarrow> []) [4] [9] account_keyring = Done [9] \<and>
   get_account_pubkey (\<lambda>pk. case pk of Secp256k1 b \<Rightarrow> b | Ed25519 b \<Rightarrow> []) [4] account_keyring = Some (Secp256k1 [4])"
proof -
  let ?f = "\<lambda>pk. case pk of Secp256k1 b \<Rightarrow> b | Ed25519 b \<Rightarrow> []"
  have wf: "keyring_wf account_keyring" by (simp add: account_keyring_def)
  have run: "sign_ecdsa ?f [4] [9] account_keyring = Done [9]"
    by (simp add: account_keyring_def sign_ecdsa_def add_ecdsa_def keyring_new_def ecdsa_signer_new_def
        ecdsa_signer_sign_def Let_def)
  obtain pk s where "get_account_pubkey ?f [4] account_keyring = Some pk" "(AccountKey pk, s) \<in> set (kr_ecdsa_keys account_keyring)"
    using sign_ecdsa_key_matches [OF wf run] by blast
  then show ?thesis
    using run by (simp add: account_keyring_def add_ecdsa_def keyring_new_def ecdsa_signer_new_def Let_def)
qed

end
