(* ===== verification/Chain_Registry.thy ===== *)
theory Chain_Registry
  imports Chain_State Keyring
begin

text \<open>
  The chains the KMS knows: \<^verbatim>\<open>src/chain.rs\<close>, \<^verbatim>\<open>src/chain/registry.rs\<close> and
  \<^verbatim>\<open>src/chain/guard.rs\<close>.  The registry is filled at start-up by the main thread and only
  read afterwards; the state of each chain is behind its own lock.
\<close>

record chain =
  ch_id :: chain_id
  ch_keyring :: keyring
  ch_state :: "state mutex"

type_synonym registry = "chain_id \<rightharpoonup> chain"

section \<open>The registry\<close>

definition add_account_key ::
  "chain_id \<Rightarrow> signer \<Rightarrow> registry \<Rightarrow> (registry, error_kind, unit) run" where
  "add_account_key chain_id signer self =
     (case self chain_id of
        None \<Rightarrow> (self, Failed InvalidKey)
      | Some chain \<Rightarrow>
          (case add_ecdsa signer (ch_keyring chain) of
             (kr, r) \<Rightarrow> (self(chain_id \<mapsto> chain\<lparr>ch_keyring := kr\<rparr>), r)))"

definition add_consensus_key ::
  "chain_id \<Rightarrow> signer \<Rightarrow> registry \<Rightarrow> (registry, error_kind, unit) run" where
  "add_consensus_key chain_id signer self =
     (case self chain_id of
        None \<Rightarrow> (self, Failed InvalidKey)
      | Some chain \<Rightarrow>
          (case add_ed25519 signer (ch_keyring chain) of
             (kr, r) \<Rightarrow> (self(chain_id \<mapsto> chain\<lparr>ch_keyring := kr\<rparr>), r)))"

definition register_chain :: "chain \<Rightarrow> registry \<Rightarrow> (registry, error_kind, unit) run" where
  "register_chain chain self =
     (self(ch_id chain \<mapsto> chain),
      case self (ch_id chain) of None \<Rightarrow> Done () | Some old \<Rightarrow> Failed ConfigError)"

definition get_chain :: "registry \<Rightarrow> chain_id \<Rightarrow> chain option" where
  "get_chain self chain_id = self chain_id"

interpretation chains: strict_collection "\<lambda>_. True" ch_id ConfigError get_chain register_chain
  by unfold_locales (auto simp: register_chain_def get_chain_def fun_eq_iff)

section \<open>Chains from the configuration\<close>

text \<open>
  What the environment answers while one chain is loaded: how the state file reads and
  writes, and how the hook command behaves.
\<close>

record chain_env =
  ce_read :: read_answer
  ce_write :: write_answer
  ce_hook :: hook_process
  ce_hook_parse :: "string \<Rightarrow> hook_output option"

definition default_state_file :: "chain_id \<Rightarrow> path" where
  "default_state_file chain_id = path_from (chain_id @ ''_priv_validator_state.json'')"

definition config_state_file :: "chain_config \<Rightarrow> path" where
  "config_state_file config =
     (case cc_state_file config of
        Some path \<Rightarrow> path
      | None \<Rightarrow> default_state_file (cc_id config))"

text \<open>Run the configured hook; when it fails, \<^verbatim>\<open>fail_closed\<close> decides whether to go on.\<close>

definition apply_hook ::
  "tendermint_crate \<Rightarrow> chain_env \<Rightarrow> chain_config \<Rightarrow> state \<Rightarrow> (error_kind, state) outcome" where
  "apply_hook tm env config state =
     (case cc_state_hook config of
        None \<Rightarrow> Done state
      | Some hook \<Rightarrow>
          (case hook_run (ce_hook_parse env) (ce_hook env) hook of
             Done hook_output \<Rightarrow> Done (update_from_hook_output tm hook_output state)
           | Failed e \<Rightarrow> if hook_fail_closed hook then Failed e else Done state
           | Panicked p \<Rightarrow> Panicked p))"

definition chain_from_config ::
  "tendermint_crate \<Rightarrow> state_json \<Rightarrow> chain_env \<Rightarrow> chain_config \<Rightarrow> disk
     \<Rightarrow> (disk, error_kind, chain) run" where
  "chain_from_config tm js env config disk =
     (let state_file = config_state_file config
      in rbind (load_state tm js (ce_read env) (ce_write env) state_file disk) (\<lambda>disk' state.
         rbind (disk', apply_hook tm env config state) (\<lambda>disk'' state'.
         (disk'', Done \<lparr>ch_id = cc_id config,
                        ch_keyring = keyring_new (cc_key_format config),
                        ch_state = mutex_new state'\<rparr>))))"

text \<open>The loop of \<^verbatim>\<open>chain::load_config\<close>: every chain with the answers of its environment.\<close>

definition register_config ::
  "tendermint_crate \<Rightarrow> state_json \<Rightarrow> (chain_config \<Rightarrow> chain_env) \<Rightarrow> chain_config
     \<Rightarrow> registry \<times> disk \<Rightarrow> (registry \<times> disk, error_kind, unit) run" where
  "register_config tm js env config s =
     (case s of (registry, disk) \<Rightarrow>
        (case chain_from_config tm js (env config) config disk of
           (disk', Done chain) \<Rightarrow>
             (case register_chain chain registry of (registry', r) \<Rightarrow> ((registry', disk'), r))
         | (disk', Failed e) \<Rightarrow> ((registry, disk'), Failed e)
         | (disk', Panicked p) \<Rightarrow> ((registry, disk'), Panicked p)))"

definition load_chains ::
  "tendermint_crate \<Rightarrow> state_json \<Rightarrow> (chain_config \<Rightarrow> chain_env) \<Rightarrow> chain_config list
     \<Rightarrow> registry \<times> disk \<Rightarrow> (registry \<times> disk, error_kind, unit) run" where
  "load_chains tm js env configs s = for_each (register_config tm js env) configs s"

section \<open>Invariants\<close>

definition registry_wf :: "registry \<Rightarrow> bool" where
  "registry_wf reg \<longleftrightarrow> (\<forall>c chain. reg c = Some chain \<longrightarrow> ch_id chain = c \<and> keyring_wf (ch_keyring chain))"

text \<open>A property of every chain together with the ID it is filed under.\<close>

definition registry_all :: "(chain_id \<Rightarrow> chain \<Rightarrow> bool) \<Rightarrow> registry \<Rightarrow> bool" where
  "registry_all P reg \<longleftrightarrow> (\<forall>c chain. reg c = Some chain \<longrightarrow> P c chain)"

lemma registry_all_empty [simp]: "registry_all P Map.empty"
  by (simp add: registry_all_def)

lemma registry_wf_all:
  "registry_wf = registry_all (\<lambda>c chain. ch_id chain = c \<and> keyring_wf (ch_keyring chain))"
  by (simp add: fun_eq_iff registry_wf_def registry_all_def)

definition state_file_of :: "chain \<Rightarrow> path" where
  "state_file_of chain = st_state_file_path (guarded (ch_state chain))"

text \<open>No two chains keep their state in the same file.\<close>

definition separate_files :: "registry \<Rightarrow> bool" where
  "separate_files reg \<longleftrightarrow>
     (\<forall>c d x y. reg c = Some x \<longrightarrow> reg d = Some y \<longrightarrow> c \<noteq> d \<longrightarrow> state_file_of x \<noteq> state_file_of y)"

lemma separate_files_update:
  assumes "separate_files reg" and "reg c = Some x" and "state_file_of y = state_file_of x"
  shows "separate_files (reg(c \<mapsto> y))"
  using assms unfolding separate_files_def by (auto split: if_splits)

lemma chain_from_config_DoneD:
  assumes "chain_from_config tm js env config d = (d', Done chain)"
  shows "ch_id chain = cc_id config" "ch_keyring chain = keyring_new (cc_key_format config)"
    "\<not> poisoned (ch_state chain)"
  using assms unfolding chain_from_config_def Let_def
  by (auto dest!: rbind_DoneD simp: mutex_new_def)

lemma apply_hook_DoneD:
  "apply_hook tm env config s = Done s' \<Longrightarrow> s' = s \<or> (\<exists>out. s' = update_from_hook_output tm out s)"
  by (auto simp: apply_hook_def split: option.splits outcome.splits if_splits)

lemma chain_from_config_steps:
  assumes "chain_from_config tm js env config d = (d', Done chain)"
  obtains s s' where
    "load_state tm js (ce_read env) (ce_write env) (config_state_file config) d = (d', Done s)"
    "apply_hook tm env config s = Done s'" "ch_state chain = mutex_new s'"
  using assms unfolding chain_from_config_def Let_def by (auto dest!: rbind_DoneD)

lemma chain_from_config_disk:
  assumes "chain_from_config tm js env config d = (d', r)" and "d (config_state_file config) \<noteq> None"
  shows "d' = d"
  using assms(1) load_state_keeps_file [of d "config_state_file config"] assms(2) unfolding chain_from_config_def Let_def
  by (auto simp: rbind_split split: outcome.splits)

text \<open>
  A chain that starts from an existing state file starts at or after the state in the file:
  the hook can only move it forward.
\<close>

lemma chain_from_config_covers:
  assumes "chain_from_config tm js env config d = (d', Done chain)"
    and "stored_state js (config_state_file config) d = Some c"
  shows "covered state_position cs_block_id c (st_consensus_state (guarded (ch_state chain)))"
proof -
  obtain s s' where load: "load_state tm js (ce_read env) (ce_write env) (config_state_file config) d = (d', Done s)"
    and hook: "apply_hook tm env config s = Done s'" and chain: "ch_state chain = mutex_new s'"
    by (rule chain_from_config_steps [OF assms(1)])
  have "st_consensus_state s = c" using load_state_stored [OF load assms(2)] .
  then show ?thesis
    using apply_hook_DoneD [OF hook] chain update_from_hook_output_covers [of s tm]
    by (auto simp: mutex_new_def)
qed

lemma chain_from_config_path:
  assumes "chain_from_config tm js env config d = (d', Done chain)"
  shows "st_state_file_path (guarded (ch_state chain)) = config_state_file config"
proof (rule chain_from_config_steps [OF assms])
  fix s s'
  assume load: "load_state tm js (ce_read env) (ce_write env) (config_state_file config) d = (d', Done s)"
    and hook: "apply_hook tm env config s = Done s'" and chain: "ch_state chain = mutex_new s'"
  show ?thesis
    using apply_hook_DoneD [OF hook] chain load_state_path [OF load]
    by (auto simp: mutex_new_def update_from_hook_output_def Let_def)
qed

lemma default_state_file_parent: "path_parent (default_state_file c) \<noteq> None"
proof -
  define suffix where "suffix = ''_priv_validator_state.json''"
  have "CHR ''/'' \<notin> set suffix" by (simp add: suffix_def)
  from split_on_last_part [OF this, of c]
  obtain ps p where "split_on CHR ''/'' (c @ suffix) = ps @ [p @ suffix]" by auto
  moreover have "keep_component (p @ suffix)"
    by (cases p) (simp_all add: keep_component_def suffix_def)
  ultimately have "path_components (default_state_file c) \<noteq> []"
    by (simp add: default_state_file_def path_from_def Let_def flip: suffix_def)
  then show ?thesis by (simp add: path_parent_def)
qed

section \<open>Properties\<close>

text \<open>
  C17: a chain that starts on an existing state file starts at the state in that file or later,
  whatever the hook does; the file is not touched.
\<close>

theorem restart_resumes_from_file:
  assumes "chain_from_config tm js env config d = (d', Done chain)"
    and "stored_state js (config_state_file config) d = Some c"
  shows "d' = d \<and> covered state_position cs_block_id c (st_consensus_state (guarded (ch_state chain)))"
proof
  have "d (config_state_file config) \<noteq> None"
    using assms(2) by (auto simp: stored_state_def bind_eq_Some_conv)
  then show "d' = d" by (rule chain_from_config_disk [OF assms(1)])
  show "covered state_position cs_block_id c (st_consensus_state (guarded (ch_state chain)))"
    by (rule chain_from_config_covers [OF assms])
qed

definition quiet_env :: chain_env where
  "quiet_env = \<lparr>ce_read = Read_ok, ce_write = Write_ok,
     ce_hook = \<lparr>hp_spawn = (\<lambda>_. None), hp_wait = (\<lambda>_. None), hp_kill_ok = True, hp_reap_ok = True\<rparr>,
     ce_hook_parse = (\<lambda>_. None)\<rparr>"

definition filed_config :: chain_config where
  "filed_config = \<lparr>cc_id = ''c'', cc_key_format = Hex, cc_state_file = Some (st_state_file_path height_zero),
     cc_state_hook = None\<rparr>"

definition still_tm :: tendermint_crate where
  "still_tm = \<lparr>height_try_from = Some, parts_header_new = (\<lambda>t h. None), state_default = height_one\<rparr>"

theorem restart_resumes_from_file_witness:
  "\<exists>d' chain. chain_from_config still_tm (unit_json height_one) quiet_env filed_config
       [st_state_file_path height_zero \<mapsto> []] = (d', Done chain) \<and>
     covered state_position cs_block_id height_one (st_consensus_state (guarded (ch_state chain)))"
proof -
  have "load_state still_tm (unit_json height_one) Read_ok Write_ok (st_state_file_path height_zero)
      [st_state_file_path height_zero \<mapsto> []] = ([st_state_file_path height_zero \<mapsto> []],
      Done \<lparr>st_consensus_state = height_one, st_state_file_path = st_state_file_path height_zero\<rparr>)"
    by (simp add: load_state_def unit_json_def)
  then obtain d' chain where run: "chain_from_config still_tm (unit_json height_one) quiet_env filed_config
      [st_state_file_path height_zero \<mapsto> []] = (d', Done chain)"
    by (simp add: chain_from_config_def filed_config_def config_state_file_def quiet_env_def apply_hook_def Let_def)
  have "stored_state (unit_json height_one) (config_state_file filed_config)
      [st_state_file_path height_zero \<mapsto> []] = Some height_one"
    by (simp add: stored_state_def filed_config_def config_state_file_def unit_json_def)
  from restart_resumes_from_file [OF run this] run show ?thesis by blast
qed

text \<open>
  C37: a chain whose hook is configured to fail closed never starts, because the hook never
  succeeds.
\<close>

theorem fail_closed_hook_blocks_start:
  assumes "cc_state_hook config = Some hook" and "hook_fail_closed hook"
  shows "\<not> is_done (snd (chain_from_config tm js env config d))"
proof -
  have "apply_hook tm env config s \<noteq> Done s'" for s s'
    using assms hook_never [of "ce_hook_parse env" "ce_hook env" hook]
    by (auto simp: apply_hook_def split: outcome.splits)
  then show ?thesis
    unfolding chain_from_config_def Let_def
    by (auto simp: rbind_split split: outcome.splits)
qed

theorem fail_closed_hook_blocks_start_witness:
  "\<not> is_done (snd (chain_from_config still_tm (unit_json height_one)
     (quiet_env\<lparr>ce_hook := \<lparr>hp_spawn = (\<lambda>_. Some ''7''), hp_wait = (\<lambda>_. Some (Exited True)), hp_kill_ok = True, hp_reap_ok = True\<rparr>\<rparr>)
     (filed_config\<lparr>cc_state_hook := Some \<lparr>hook_cmd = [''height''], hook_timeout_secs = None, hook_fail_closed = True\<rparr>\<rparr>)
     [st_state_file_path height_zero \<mapsto> []]))"
  by (rule fail_closed_hook_blocks_start, simp, simp)

end
