(* ===== verification/Kms_Session.thy ===== *)
theory Kms_Session
  imports Rpc Chain_Registry
begin

text \<open>
  A session with a validator: \<^verbatim>\<open>src/session.rs\<close>.  The world of a session is the shared
  registry of chains, the disk with the state files, and what was sent to the validator so
  far.  What each turn of the request loop gets from the outside (the bytes read, whether
  the reply can be written, how writing the state file ends) is an argument.

  \<^verbatim>\<open>sign\<close> is generic in the request type; here it takes the record of trait operations, and
  its lemmas are proved once, for every provider of the interface \<open>signable_request\<close>.
\<close>

record world =
  w_registry :: registry
  w_disk :: disk
  w_sent :: "bytes list"

record turn =
  io_read :: "bytes option"
  io_write_ok :: bool
  io_state_file :: write_answer

section \<open>Parsing a request\<close>

fun step_of :: "signed_msg_type \<Rightarrow> int" where
  "step_of Proposal = 0"
| "step_of PreVote = 1"
| "step_of PreCommit = 2"

definition parse_request ::
  "'r tendermint_request \<Rightarrow> 'r \<Rightarrow> (error_kind, signed_msg_type \<times> consensus_state) outcome" where
  "parse_request R request =
     obind (ok_or ProtocolError (rq_msg_type R request)) (\<lambda>msg_type.
     obind (ok_or ProtocolError (rq_consensus_state R request)) (\<lambda>consensus_state.
       Done (msg_type, consensus_state\<lparr>cs_step := step_of msg_type\<rparr>)))"

section \<open>Signing\<close>

definition check_max_height ::
  "'r tendermint_request \<Rightarrow> validator_config \<Rightarrow> 'r \<Rightarrow> (error_kind, unit) outcome" where
  "check_max_height R config request =
     (case vc_max_height config of
        Some max_height \<Rightarrow>
          (case rq_height R request of
             Some height \<Rightarrow>
               if sint height > sint max_height then Failed ExceedMaxHeight else Done ()
           | None \<Rightarrow> Done ())
      | None \<Rightarrow> Done ())"

text \<open>
  Lock the chain state, check and update it; a double sign becomes an answer for the
  validator, every other state error ends the session.
\<close>

definition session_update_consensus_state ::
  "state_json \<Rightarrow> write_answer \<Rightarrow> 'r tendermint_request \<Rightarrow> 'r \<Rightarrow> chain \<Rightarrow> disk
     \<Rightarrow> (chain \<times> disk, error_kind, remote_error option) run" where
  "session_update_consensus_state js os R request chain disk =
     (case parse_request R request of
        Failed e \<Rightarrow> ((chain, disk), Failed e)
      | Panicked p \<Rightarrow> ((chain, disk), Panicked p)
      | Done (msg_type, request_state) \<Rightarrow>
          (case with_lock (ch_state chain) disk (update_consensus_state js os request_state) of
             ((state, disk'), r) \<Rightarrow>
               ((chain\<lparr>ch_state := state\<rparr>, disk'),
                case r of
                  Done _ \<Rightarrow> Done None
                | Failed State_DoubleSign \<Rightarrow>
                    Done (Some (remote_error_double_sign (cs_height request_state)))
                | Failed e \<Rightarrow> Failed (error_from (Chain_state_error e))
                | Panicked p \<Rightarrow> Panicked p)))"

definition missing_chain :: panic_payload where
  "missing_chain = Payload_String ''chain missing from registry!''"

definition log_signing_request ::
  "'r tendermint_request \<Rightarrow> 'r \<Rightarrow> (error_kind, unit) outcome" where
  "log_signing_request R request = obind (parse_request R request) (\<lambda>_. Done ())"

definition unwrap_failed :: panic_payload where
  "unwrap_failed = Payload_String ''called `Result::unwrap()` on an `Err` value''"

text \<open>\<^verbatim>\<open>unwrap()\<close> of a result: an error becomes a panic.\<close>

fun unwrap_result :: "(error_kind, 'a) outcome \<Rightarrow> (error_kind, 'a) outcome" where
  "unwrap_result (Done a) = Done a"
| "unwrap_result (Failed e) = Panicked unwrap_failed"
| "unwrap_result (Panicked p) = Panicked p"

text \<open>From the bytes to sign to the reply, once the chain state allows it.\<close>

definition sign_and_reply ::
  "'r tendermint_request \<Rightarrow> validator_config \<Rightarrow> keyring \<Rightarrow> 'r \<Rightarrow> (error_kind, response) outcome" where
  "sign_and_reply R config keyring request =
     obind (map_err error_from
              (rq_sign_bytes R (vc_chain_id config) (vc_protocol_version config) request)) (\<lambda>to_sign.
     obind (sign_ed25519 None to_sign keyring) (\<lambda>signature.
     obind (unwrap_result (log_signing_request R request)) (\<lambda>_.
       Done (rq_build_response R (rq_set_signature R signature request) None))))"

definition session_sign ::
  "state_json \<Rightarrow> write_answer \<Rightarrow> 'r tendermint_request \<Rightarrow> validator_config \<Rightarrow> 'r \<Rightarrow> world
     \<Rightarrow> (world, error_kind, response) run" where
  "session_sign js os R config request w =
     rbind (w, map_err (\<lambda>_. SigningError) (rq_validate R request)) (\<lambda>w _.
     rbind (w, check_max_height R config request) (\<lambda>w _.
     rbind (w, unwrap_or_panic missing_chain (get_chain (w_registry w) (vc_chain_id config))) (\<lambda>w chain.
       (case session_update_consensus_state js os R request chain (w_disk w) of
          ((chain', disk'), r) \<Rightarrow>
            rbind (w\<lparr>w_registry := (w_registry w)(vc_chain_id config \<mapsto> chain'), w_disk := disk'\<rparr>, r)
              (\<lambda>w' remote_err.
                (w', case remote_err of
                       Some e \<Rightarrow> Done (rq_build_response R request (Some e))
                     | None \<Rightarrow> sign_and_reply R config (ch_keyring chain') request))))))"

section \<open>The other requests and the loop\<close>

definition get_public_key :: "validator_config \<Rightarrow> world \<Rightarrow> (error_kind, response) outcome" where
  "get_public_key config w =
     obind (unwrap_or_panic missing_chain (get_chain (w_registry w) (vc_chain_id config))) (\<lambda>chain.
     obind (default_ed25519_pubkey (ch_keyring chain)) (\<lambda>key.
     obind (pub_key_response_from (key_of key)) (\<lambda>resp.
       Done (PublicKey resp))))"

definition handle_request ::
  "tendermint_crate \<Rightarrow> canonical_codec \<Rightarrow> rpc_codec \<Rightarrow> state_json \<Rightarrow> validator_config \<Rightarrow> turn
     \<Rightarrow> world \<Rightarrow> (world, error_kind, bool) run" where
  "handle_request tm cc rc js config io w =
     rbind (w, request_read rc (vc_protocol_version config) (io_read io)) (\<lambda>w request.
     rbind (case request of
              SignProposal req \<Rightarrow> session_sign js (io_state_file io) (proposal_request tm cc) config req w
            | SignVote req \<Rightarrow> session_sign js (io_state_file io) (vote_request tm cc) config req w
            | ReplyPing \<Rightarrow> (w, Done Ping)
            | ShowPublicKey \<Rightarrow> (w, get_public_key config w)) (\<lambda>w response.
     rbind (w, response_encode rc (vc_protocol_version config) response) (\<lambda>w response_bytes.
       if io_write_ok io
       then (w\<lparr>w_sent := w_sent w @ [response_bytes]\<rparr>, Done True)
       else (w, Failed (error_from Io_error)))))"

text \<open>
  \<^verbatim>\<open>while self.handle_request()? {}\<close> over the turns the outside offers: \<open>None\<close> is the loop
  still waiting when they are used up.
\<close>

fun request_loop ::
  "tendermint_crate \<Rightarrow> canonical_codec \<Rightarrow> rpc_codec \<Rightarrow> state_json \<Rightarrow> validator_config \<Rightarrow> turn list
     \<Rightarrow> world \<Rightarrow> world \<times> (error_kind, unit) outcome option" where
  "request_loop tm cc rc js config [] w = (w, None)"
| "request_loop tm cc rc js config (io # ios) w =
     (case handle_request tm cc rc js config io w of
        (w', Done True) \<Rightarrow> request_loop tm cc rc js config ios w'
      | (w', Done False) \<Rightarrow> (w', Some (Done ()))
      | (w', Failed e) \<Rightarrow> (w', Some (Failed e))
      | (w', Panicked p) \<Rightarrow> (w', Some (Panicked p)))"

section \<open>Facts about parsing and the state update\<close>

lemma parse_request_no_panic [simp]: "\<not> is_panic (parse_request R r)"
  by (simp add: parse_request_def is_panic_obind)

lemma parse_request_DoneD:
  "parse_request R r = Done (t, s) \<Longrightarrow>
     rq_msg_type R r = Some t \<and> (\<exists>s0. rq_consensus_state R r = Some s0 \<and> s = s0\<lparr>cs_step := step_of t\<rparr>)"
  by (auto simp: parse_request_def obind_Done_iff)

lemma check_max_height_no_panic [simp]: "\<not> is_panic (check_max_height R config r)"
  by (simp add: check_max_height_def split: option.splits)

lemma session_update_Done_None:
  assumes "session_update_consensus_state js os R r chain d = ((chain', d'), Done None)"
  obtains t s l where "parse_request R r = Done (t, s)"
    "with_lock (ch_state chain) d (update_consensus_state js os s) = ((l, d'), Done ())"
    "chain' = chain\<lparr>ch_state := l\<rparr>"
  using assms unfolding session_update_consensus_state_def
  by (auto split: outcome.splits prod.splits state_error_kind.splits)

lemma session_update_Done_Some:
  assumes "session_update_consensus_state js os R r chain d = ((chain', d'), Done (Some e))"
  obtains t s l where "parse_request R r = Done (t, s)"
    "with_lock (ch_state chain) d (update_consensus_state js os s) = ((l, d'), Failed State_DoubleSign)"
    "chain' = chain\<lparr>ch_state := l\<rparr>" "e = remote_error_double_sign (cs_height s)"
  using assms unfolding session_update_consensus_state_def
  by (auto split: outcome.splits prod.splits state_error_kind.splits)

text \<open>A session that replies with a signature: everything that must have happened before.\<close>

lemma session_sign_DoneD:
  assumes "session_sign js os R config r w = (w', Done resp)"
  obtains chain chain' d' e where
    "rq_validate R r = Done ()" "check_max_height R config r = Done ()"
    "get_chain (w_registry w) (vc_chain_id config) = Some chain"
    "session_update_consensus_state js os R r chain (w_disk w) = ((chain', d'), Done e)"
    "w' = w\<lparr>w_registry := (w_registry w)(vc_chain_id config \<mapsto> chain'), w_disk := d'\<rparr>"
    "(case e of Some e \<Rightarrow> Done (rq_build_response R r (Some e))
              | None \<Rightarrow> sign_and_reply R config (ch_keyring chain') r) = Done resp"
  using assms unfolding session_sign_def
  by (auto dest!: rbind_DoneD split: prod.splits)

lemma sign_and_reply_DoneD:
  assumes "sign_and_reply R config k r = Done resp"
  obtains b sig where "rq_sign_bytes R (vc_chain_id config) (vc_protocol_version config) r = Done b"
    "sign_ed25519 None b k = Done sig" "resp = rq_build_response R (rq_set_signature R sig r) None"
  using assms by (auto simp: sign_and_reply_def obind_Done_iff)

section \<open>What holds for every request type\<close>

context signable_request
begin

lemma parse_request_total:
  assumes "rq_validate R r = Done ()" and "height_conversion tm"
  shows "\<exists>t s. parse_request R r = Done (t, s)"
proof -
  obtain h t where "rq_height R r = Some h" "0 \<le> sint h" "rq_msg_type R r = Some t"
    using validated [OF assms(1)] by blast
  moreover from this have "height_try_from tm h = Some h"
    using height_conversionD [OF assms(2), of h] by simp
  ultimately show ?thesis using height_gives_state by (fastforce simp: parse_request_def)
qed

lemma signed_reply_iff:
  assumes "session_sign js os R config r w = (w', Done resp)"
  shows "response_signature resp \<noteq> None \<longleftrightarrow> response_err resp = None"
  using assms
proof (rule session_sign_DoneD)
  fix chain chain' d' e
  assume val: "rq_validate R r = Done ()"
    and res: "(case e of Some e \<Rightarrow> Done (rq_build_response R r (Some e))
        | None \<Rightarrow> sign_and_reply R config (ch_keyring chain') r) = Done resp"
  show ?thesis
  proof (cases e)
    case None
    then obtain sig where "resp = rq_build_response R (rq_set_signature R sig r) None"
      using res by (auto elim: sign_and_reply_DoneD)
    then show ?thesis using signed_reply [OF val] ok_reply by simp
  next
    case (Some x)
    then show ?thesis using res error_reply by auto
  qed
qed

text \<open>
  A reply without error implies that the chain state was locked, accepted the request and
  was written to disk before the key was used.
\<close>

lemma signed_after_update:
  assumes "session_sign js os R config r w = (w', Done resp)" and "response_err resp = None"
  obtains chain l t s b sig where
    "rq_validate R r = Done ()" "check_max_height R config r = Done ()"
    "get_chain (w_registry w) (vc_chain_id config) = Some chain"
    "parse_request R r = Done (t, s)"
    "with_lock (ch_state chain) (w_disk w) (update_consensus_state js os s) = ((l, w_disk w'), Done ())"
    "w_registry w' = (w_registry w)(vc_chain_id config \<mapsto> chain\<lparr>ch_state := l\<rparr>)"
    "rq_sign_bytes R (vc_chain_id config) (vc_protocol_version config) r = Done b"
    "sign_ed25519 None b (ch_keyring chain) = Done sig"
    "response_signature resp = Some sig"
  using assms(1)
proof (rule session_sign_DoneD)
  fix chain chain' d' e
  assume val: "rq_validate R r = Done ()" and mx: "check_max_height R config r = Done ()"
    and ch: "get_chain (w_registry w) (vc_chain_id config) = Some chain"
    and upd: "session_update_consensus_state js os R r chain (w_disk w) = ((chain', d'), Done e)"
    and w': "w' = w\<lparr>w_registry := (w_registry w)(vc_chain_id config \<mapsto> chain'), w_disk := d'\<rparr>"
    and res: "(case e of Some e \<Rightarrow> Done (rq_build_response R r (Some e))
        | None \<Rightarrow> sign_and_reply R config (ch_keyring chain') r) = Done resp"
  have "e = None" using res assms(2) error_reply by (cases e) auto
  with upd res obtain t s l b sig where *: "parse_request R r = Done (t, s)"
    "with_lock (ch_state chain) (w_disk w) (update_consensus_state js os s) = ((l, d'), Done ())"
    "chain' = chain\<lparr>ch_state := l\<rparr>"
    "rq_sign_bytes R (vc_chain_id config) (vc_protocol_version config) r = Done b"
    "sign_ed25519 None b (ch_keyring chain') = Done sig"
    "resp = rq_build_response R (rq_set_signature R sig r) None"
    by (auto elim!: session_update_Done_None sign_and_reply_DoneD)
  then show thesis using that val mx ch w' signed_reply [OF val] by simp
qed

text \<open>A request the chain state refuses changes nothing and is not signed.\<close>

lemma conflict_refused:
  assumes "rq_validate R r = Done ()" and "check_max_height R config r = Done ()"
    and "w_registry w (vc_chain_id config) = Some chain" and "\<not> poisoned (ch_state chain)"
    and "parse_request R r = Done (t, q)"
    and "consensus_check (st_consensus_state (guarded (ch_state chain))) q = Failed State_DoubleSign"
  shows "session_sign js os R config r w =
    (w, Done (rq_build_response R r (Some (remote_error_double_sign (cs_height q)))))"
proof -
  obtain s where s: "ch_state chain = \<lparr>guarded = s, poisoned = False\<rparr>"
    using assms(4) by (cases "ch_state chain") auto
  have "with_lock (ch_state chain) (w_disk w) (update_consensus_state js os q) =
      ((ch_state chain, w_disk w), Failed State_DoubleSign)"
    using assms(6) by (simp add: s with_lock_def update_consensus_state_rejected)
  then show ?thesis
    using assms(1-3,5)
    by (simp add: session_sign_def session_update_consensus_state_def get_chain_def fun_upd_idem)
qed

lemma regression_refused:
  assumes "rq_validate R r = Done ()" and "check_max_height R config r = Done ()"
    and "w_registry w (vc_chain_id config) = Some chain" and "\<not> poisoned (ch_state chain)"
    and "parse_request R r = Done (t, q)"
    and "consensus_check (st_consensus_state (guarded (ch_state chain))) q = Failed e"
    and "e \<noteq> State_DoubleSign"
  shows "session_sign js os R config r w = (w, Failed DoubleSign)"
proof -
  obtain s where s: "ch_state chain = \<lparr>guarded = s, poisoned = False\<rparr>"
    using assms(4) by (cases "ch_state chain") auto
  have "with_lock (ch_state chain) (w_disk w) (update_consensus_state js os q) =
      ((ch_state chain, w_disk w), Failed e)"
    using assms(6) by (simp add: s with_lock_def update_consensus_state_rejected)
  then show ?thesis
    using assms(1-3,5,7)
    by (cases e)
      (simp_all add: session_sign_def session_update_consensus_state_def get_chain_def fun_upd_idem)
qed

text \<open>A request the chain state accepts is signed.\<close>

lemma acceptable_signed:
  assumes "rq_validate R r = Done ()" and "check_max_height R config r = Done ()"
    and "w_registry w (vc_chain_id config) = Some chain" and "\<not> poisoned (ch_state chain)"
    and pr: "parse_request R r = Done (t, q)"
    and acc: "check_accepts (st_consensus_state (guarded (ch_state chain))) q"
    and json: "to_json js q = Some j" and "path_parent (st_state_file_path (guarded (ch_state chain))) \<noteq> None"
    and "rq_sign_bytes R (vc_chain_id config) (vc_protocol_version config) r = Done b"
    and "sign_ed25519 None b (ch_keyring chain) = Done sig"
  shows "session_sign js Write_ok R config r w =
    (w\<lparr>w_registry := (w_registry w)(vc_chain_id config \<mapsto> chain\<lparr>ch_state :=
          \<lparr>guarded = (guarded (ch_state chain))\<lparr>st_consensus_state := q\<rparr>, poisoned = False\<rparr>\<rparr>),
       w_disk := (w_disk w)(st_state_file_path (guarded (ch_state chain)) \<mapsto> j)\<rparr>,
     Done (rq_build_response R (rq_set_signature R sig r) None))"
proof -
  let ?s = "(guarded (ch_state chain))\<lparr>st_consensus_state := q\<rparr>"
  have sync: "sync_to_disk js Write_ok ?s (w_disk w) = ((w_disk w)(st_state_file_path ?s \<mapsto> j), Done ())"
    using json assms(8) by (auto simp: sync_to_disk_def)
  have "with_lock (ch_state chain) (w_disk w) (update_consensus_state js Write_ok q) =
      ((\<lparr>guarded = ?s, poisoned = False\<rparr>, (w_disk w)(st_state_file_path ?s \<mapsto> j)), Done ())"
    using with_lock_unpoisoned [OF assms(4), of "update_consensus_state js Write_ok q" "w_disk w"]
      update_consensus_state_accepted [OF acc, of js Write_ok "w_disk w"] sync by simp
  moreover have "sign_and_reply R config (ch_keyring chain) r = Done (rq_build_response R (rq_set_signature R sig r) None)"
    using assms(9,10) by (simp add: sign_and_reply_def log_signing_request_def pr)
  ultimately show ?thesis
    using assms(1-3) by (simp add: session_sign_def session_update_consensus_state_def get_chain_def pr)
qed

text \<open>A poisoned chain lock: every valid request panics before anything is signed.\<close>

lemma poisoned_panics:
  assumes "rq_validate R r = Done ()" and "check_max_height R config r = Done ()"
    and "w_registry w (vc_chain_id config) = Some chain" and "poisoned (ch_state chain)"
    and "height_conversion tm"
  shows "session_sign js os R config r w = (w, Panicked poison_payload)"
proof -
  obtain t q where "parse_request R r = Done (t, q)"
    using parse_request_total [OF assms(1,5)] by blast
  then show ?thesis
    using assms(1-4)
    by (simp add: session_sign_def session_update_consensus_state_def get_chain_def fun_upd_idem)
qed

text \<open>
  Nothing in a session panics as long as the chain is registered, its lock is not poisoned,
  its state file is not the root directory and its signers do not panic.
\<close>

lemma session_sign_no_panic:
  assumes "height_conversion tm" and encodable
    and ch: "w_registry w (vc_chain_id config) = Some chain" and "\<not> poisoned (ch_state chain)"
    and file_ok: "path_parent (st_state_file_path (guarded (ch_state chain))) \<noteq> None"
    and signers: "\<And>m. \<not> is_panic (sign_ed25519 None m (ch_keyring chain))"
  shows "\<not> is_panic (snd (session_sign js os R config r w))"
proof (cases "rq_validate R r = Done () \<and> check_max_height R config r = Done ()")
  case False
  then show ?thesis
    using validate_total [of r] check_max_height_no_panic [of R config r]
    by (cases "rq_validate R r"; cases "check_max_height R config r") (auto simp: session_sign_def)
next
  case True
  then obtain t q b where pr: "parse_request R r = Done (t, q)"
    and b: "rq_sign_bytes R (vc_chain_id config) (vc_protocol_version config) r = Done b"
    using parse_request_total [OF _ assms(1)] sign_bytes_total [OF _ assms(2)] by metis
  obtain l d' u where lk: "with_lock (ch_state chain) (w_disk w) (update_consensus_state js os q) = ((l, d'), u)"
    by (metis surj_pair)
  have body: "update_consensus_state js os q (guarded (ch_state chain)) (w_disk w) = ((guarded l, d'), u)"
    using lk assms(4) by (auto simp: with_lock_def split: prod.splits)
  have u: "\<not> is_panic u"
  proof (cases "check_accepts (st_consensus_state (guarded (ch_state chain))) q")
    case True
    show ?thesis
      using update_consensus_state_effect(1) [OF body] body file_ok
      unfolding update_consensus_state_accepted [OF True]
      by (auto simp: sync_to_disk_panics_iff)
  next
    case False
    then show ?thesis
      using consensus_check_cases body update_consensus_state_rejected by fastforce
  qed
  have "\<not> is_panic (sign_and_reply R config (ch_keyring chain) r)"
    using signers [of b] by (auto simp: sign_and_reply_def b log_signing_request_def pr is_panic_obind)
  then show ?thesis
    using True ch pr lk u
    by (auto simp: session_sign_def get_chain_def session_update_consensus_state_def rbind_split
        split: outcome.splits state_error_kind.splits option.splits)
qed

text \<open>Nothing above the configured height is signed.\<close>

lemma signed_below_max_height:
  assumes "session_sign js os R config r w = (w', Done resp)" and "vc_max_height config = Some m"
  obtains h where "rq_validate R r = Done ()" and "rq_height R r = Some h" and "sint h \<le> sint m"
  using assms(1)
proof (rule session_sign_DoneD)
  assume val: "rq_validate R r = Done ()" and mx: "check_max_height R config r = Done ()"
  then obtain h where h: "rq_height R r = Some h" using validated by blast
  moreover from this have "sint h \<le> sint m"
    using mx assms(2) by (simp add: check_max_height_def split: if_splits)
  ultimately show thesis using that val by blast
qed

end

end
