(* ===== verification/Signing_Machine.thy ===== *)
theory Signing_Machine
  imports Kms_Session
begin

text \<open>
  Double-sign protection of one chain over the whole life of the KMS.  A node is the
  running process (the locked chain state, or nothing while the process is down), the
  disk, the consensus states whose update succeeded in this process (a session that got
  that far may sign), and the consensus states that were signed at any time.  The steps
  are the critical section of a session, the signature that follows it (in any later
  moment, so that sessions of several validators may interleave), a crash, a start of the
  process, and changes to other files.
\<close>

record node =
  nd_lock :: "state mutex option"
  nd_disk :: disk
  nd_authorised :: "consensus_state set"
  nd_signed :: "consensus_state set"

definition node_down :: "disk \<Rightarrow> node" where
  "node_down d = \<lparr>nd_lock = None, nd_disk = d, nd_authorised = {}, nd_signed = {}\<rparr>"

inductive node_step ::
  "tendermint_crate \<Rightarrow> state_json \<Rightarrow> chain_config \<Rightarrow> node \<Rightarrow> node \<Rightarrow> bool"
  for tm js config where
  update: "nd_lock n = Some m \<Longrightarrow>
    with_lock m (nd_disk n) (update_consensus_state js os q) = ((m', d'), r) \<Longrightarrow>
    node_step tm js config n
      (n\<lparr>nd_lock := Some m', nd_disk := d',
         nd_authorised := (if r = Done () then insert q (nd_authorised n) else nd_authorised n)\<rparr>)"
| sign: "nd_lock n = Some m \<Longrightarrow> q \<in> nd_authorised n \<Longrightarrow>
    node_step tm js config n (n\<lparr>nd_signed := insert q (nd_signed n)\<rparr>)"
| crash: "node_step tm js config n (n\<lparr>nd_lock := None, nd_authorised := {}\<rparr>)"
| start: "nd_lock n = None \<Longrightarrow>
    chain_from_config tm js env config (nd_disk n) = (d', Done chain) \<Longrightarrow>
    node_step tm js config n (n\<lparr>nd_lock := Some (ch_state chain), nd_disk := d'\<rparr>)"
| start_fails: "nd_lock n = None \<Longrightarrow>
    chain_from_config tm js env config (nd_disk n) = (d', r) \<Longrightarrow> \<not> is_done r \<Longrightarrow>
    node_step tm js config n (n\<lparr>nd_disk := d'\<rparr>)"
| other_files: "d' (config_state_file config) = nd_disk n (config_state_file config) \<Longrightarrow>
    node_step tm js config n (n\<lparr>nd_disk := d'\<rparr>)"

inductive node_reachable ::
  "tendermint_crate \<Rightarrow> state_json \<Rightarrow> chain_config \<Rightarrow> node \<Rightarrow> bool"
  for tm js config where
  initial: "node_reachable tm js config (node_down d)"
| step: "node_reachable tm js config n \<Longrightarrow> node_step tm js config n n' \<Longrightarrow>
    node_reachable tm js config n'"

section \<open>The invariant\<close>

text \<open>
  Everything that was or may be signed is covered by the state file and by the state in
  memory, and no two of them disagree.
\<close>

definition node_inv :: "state_json \<Rightarrow> path \<Rightarrow> node \<Rightarrow> bool" where
  "node_inv js p n \<longleftrightarrow>
     (\<forall>e \<in> nd_authorised n \<union> nd_signed n.
        \<exists>c. stored_state js p (nd_disk n) = Some c \<and> covered state_position cs_block_id e c) \<and>
     (\<forall>m. nd_lock n = Some m \<longrightarrow>
        st_state_file_path (guarded m) = p \<and>
        (\<forall>e \<in> nd_authorised n \<union> nd_signed n.
           covered state_position cs_block_id e (st_consensus_state (guarded m)))) \<and>
     (nd_lock n = None \<longrightarrow> nd_authorised n = {}) \<and>
     agreeing state_position cs_block_id (nd_authorised n \<union> nd_signed n)"

lemma node_inv_down [simp]: "node_inv js p (node_down d)"
  by (simp add: node_inv_def node_down_def)

lemma node_inv_memory:
  "node_inv js p n \<Longrightarrow> nd_lock n = Some m \<Longrightarrow> e \<in> nd_authorised n \<union> nd_signed n \<Longrightarrow>
     covered state_position cs_block_id e (st_consensus_state (guarded m))"
  by (simp add: node_inv_def)

lemma node_inv_update:
  assumes js: "json_roundtrip js" and inv: "node_inv js p n" and m: "nd_lock n = Some m"
    and upd: "with_lock m (nd_disk n) (update_consensus_state js os q) = ((m', d'), r)"
  shows "node_inv js p (n\<lparr>nd_lock := Some m', nd_disk := d',
    nd_authorised := (if r = Done () then insert q (nd_authorised n) else nd_authorised n)\<rparr>)"
proof (cases "poisoned m")
  case True
  then have "m' = m" "d' = nd_disk n" "r \<noteq> Done ()" using upd by auto
  then show ?thesis using inv m by (simp add: node_inv_def)
next
  case False
  let ?E = "nd_authorised n \<union> nd_signed n"
  let ?cov = "covered state_position cs_block_id"
  have body: "update_consensus_state js os q (guarded m) (nd_disk n) = ((guarded m', d'), r)"
    using upd False by (auto simp: with_lock_def split: prod.splits)
  note eff = update_consensus_state_effect [OF body]
  have path: "st_state_file_path (guarded m') = p"
    using eff(1) inv m by (simp add: node_inv_def)
  have mem: "?cov e (st_consensus_state (guarded m'))" if "e \<in> ?E" for e
    using eff(2) node_inv_memory [OF inv m that] cg.covered_accept by metis
  show ?thesis
  proof (cases "r = Done ()")
    case True
    note ok = update_consensus_state_DoneD [OF body [unfolded True]]
    have q: "st_consensus_state (guarded m') = q" using ok(2) by simp
    have "sync_to_disk js os \<lparr>st_consensus_state = q, st_state_file_path = p\<rparr> (nd_disk n) = (d', Done ())"
      using ok(3) q path by (metis state.surjective old.unit.exhaust)
    then have stored: "stored_state js p d' = Some q"
      using state_file.put_done [OF js] by blast
    have "agreeing state_position cs_block_id (insert q ?E)"
      using cg.agreeing_accept [of ?E _ q] ok(1) inv node_inv_memory [OF inv m]
      unfolding node_inv_def by blast
    then show ?thesis
      using mem stored path True q inv unfolding node_inv_def by auto
  next
    case False
    then have "d' = nd_disk n" by (rule eff(3))
    then show ?thesis using mem path False inv unfolding node_inv_def by simp
  qed
qed

lemma node_inv_start:
  assumes inv: "node_inv js (config_state_file config) n" and down: "nd_lock n = None"
    and run: "chain_from_config tm js env config (nd_disk n) = (d', Done chain)"
  shows "node_inv js (config_state_file config)
    (n\<lparr>nd_lock := Some (ch_state chain), nd_disk := d'\<rparr>)"
proof (cases "nd_signed n = {}")
  case True
  then show ?thesis
    using inv down chain_from_config_path [OF run] by (simp add: node_inv_def)
next
  case False
  then obtain c where c: "stored_state js (config_state_file config) (nd_disk n) = Some c"
    using inv by (fastforce simp: node_inv_def)
  then have "nd_disk n (config_state_file config) \<noteq> None"
    by (auto simp: stored_state_def bind_eq_Some_conv)
  then have same: "d' = nd_disk n" by (rule chain_from_config_disk [OF run])
  have auth: "nd_authorised n = {}" using inv down by (simp add: node_inv_def)
  have "covered state_position cs_block_id e (st_consensus_state (guarded (ch_state chain)))"
    if "e \<in> nd_signed n" for e
  proof (rule covered_trans)
    show "covered state_position cs_block_id e c"
      using inv that c by (auto simp: node_inv_def)
    show "covered state_position cs_block_id c (st_consensus_state (guarded (ch_state chain)))"
      by (rule chain_from_config_covers [OF run c])
  qed
  with same auth show ?thesis
    using inv chain_from_config_path [OF run] unfolding node_inv_def by simp
qed

lemma node_inv_start_fails:
  assumes inv: "node_inv js (config_state_file config) n" and down: "nd_lock n = None"
    and run: "chain_from_config tm js env config (nd_disk n) = (d', r)"
  shows "node_inv js (config_state_file config) (n\<lparr>nd_disk := d'\<rparr>)"
proof (cases "nd_signed n = {}")
  case True
  then show ?thesis using inv down by (simp add: node_inv_def)
next
  case False
  then have "nd_disk n (config_state_file config) \<noteq> None"
    using inv by (fastforce simp: node_inv_def stored_state_def bind_eq_Some_conv)
  then have "d' = nd_disk n" by (rule chain_from_config_disk [OF run])
  then show ?thesis using inv by simp
qed

lemma node_step_inv:
  assumes "node_step tm js config n n'" and "json_roundtrip js"
    and "node_inv js (config_state_file config) n"
  shows "node_inv js (config_state_file config) n'"
  using assms
proof (induction rule: node_step.induct)
  case (update n m os q m' d' r)
  then show ?case by (intro node_inv_update)
next
  case (sign n m q)
  then show ?case by (simp add: node_inv_def insert_absorb)
next
  case (crash n)
  then show ?case by (auto simp: node_inv_def intro: agreeing_mono)
next
  case (start n env d' chain)
  then show ?case by (intro node_inv_start)
next
  case (start_fails n env d' r)
  then show ?case by (intro node_inv_start_fails)
next
  case (other_files d' n)
  then show ?case by (simp add: node_inv_def stored_state_def)
qed

lemma node_reachable_inv:
  assumes "node_reachable tm js config n" and "json_roundtrip js"
  shows "node_inv js (config_state_file config) n"
  using assms by (induction rule: node_reachable.induct) (auto intro: node_step_inv)

lemma node_steps_inv:
  assumes "(node_step tm js config)\<^sup>*\<^sup>* n n'" and "json_roundtrip js"
    and "node_inv js (config_state_file config) n"
  shows "node_inv js (config_state_file config) n'"
  using assms(1) by induction (use assms in \<open>auto intro: node_step_inv\<close>)

section \<open>Sessions refine the machine\<close>

text \<open>The node of one chain, as a session sees it.\<close>

definition chain_node ::
  "chain_id \<Rightarrow> world \<Rightarrow> consensus_state set \<Rightarrow> consensus_state set \<Rightarrow> node" where
  "chain_node c w A S = \<lparr>nd_lock = map_option ch_state (w_registry w c), nd_disk = w_disk w,
                         nd_authorised = A, nd_signed = S\<rparr>"

text \<open>
  What the state update of a session does to the registry and the disk: at most one chain
  changes, in its lock, and at most its state file.
\<close>

lemma with_lock_update_frame:
  assumes "with_lock m d (update_consensus_state js os q) = ((m', d'), r)"
  shows "st_state_file_path (guarded m') = st_state_file_path (guarded m)"
    and "p \<noteq> st_state_file_path (guarded m) \<Longrightarrow> d' p = d p"
proof -
  have "st_state_file_path (guarded m') = st_state_file_path (guarded m) \<and>
    (p \<noteq> st_state_file_path (guarded m) \<longrightarrow> d' p = d p)"
  proof (cases "poisoned m")
    case True
    then show ?thesis using assms by simp
  next
    case False
    then have body: "update_consensus_state js os q (guarded m) d = ((guarded m', d'), r)"
      using assms by (auto simp: with_lock_def split: prod.splits)
    show ?thesis
      using update_consensus_state_effect(1,4) [OF body] by (auto dest!: sync_to_disk_DoneD)
  qed
  then show "st_state_file_path (guarded m') = st_state_file_path (guarded m)"
    and "p \<noteq> st_state_file_path (guarded m) \<Longrightarrow> d' p = d p"
    by blast+
qed

text \<open>
  Every run of \<^verbatim>\<open>sign\<close> either stops before the chain state is touched or goes through one
  critical section.
\<close>

lemma session_sign_cases:
  assumes "session_sign js os R config r w = (w', res)"
  obtains (early) "w' = w" "\<not> is_done res"
  | (critical) chain t q l d' u where "w_registry w (vc_chain_id config) = Some chain"
      "parse_request R r = Done (t, q)"
      "with_lock (ch_state chain) (w_disk w) (update_consensus_state js os q) = ((l, d'), u)"
      "w' = w\<lparr>w_registry := (w_registry w)(vc_chain_id config \<mapsto> chain\<lparr>ch_state := l\<rparr>), w_disk := d'\<rparr>"
      "u \<noteq> Done () \<Longrightarrow> is_done res \<Longrightarrow> u = Failed State_DoubleSign"
proof (cases "rq_validate R r = Done () \<and> check_max_height R config r = Done () \<and>
    (\<exists>chain. get_chain (w_registry w) (vc_chain_id config) = Some chain)")
  case False
  then have "w' = w \<and> \<not> is_done res"
    using assms unfolding session_sign_def get_chain_def
    by (cases "rq_validate R r"; cases "check_max_height R config r";
        cases "w_registry w (vc_chain_id config)") auto
  then show thesis using early by blast
next
  case True
  then obtain chain where ch: "w_registry w (vc_chain_id config) = Some chain"
    by (auto simp: get_chain_def)
  show thesis
  proof (cases "parse_request R r")
    case (Done a)
    obtain t q where a: "a = (t, q)" by (cases a)
    obtain l d' u where lk: "with_lock (ch_state chain) (w_disk w) (update_consensus_state js os q) = ((l, d'), u)"
      by (metis surj_pair)
    show thesis
    proof (rule critical)
      show "w_registry w (vc_chain_id config) = Some chain" by (rule ch)
      show "parse_request R r = Done (t, q)" using Done a by simp
      show "with_lock (ch_state chain) (w_disk w) (update_consensus_state js os q) = ((l, d'), u)"
        by (rule lk)
      show "w' = w\<lparr>w_registry := (w_registry w)(vc_chain_id config \<mapsto> chain\<lparr>ch_state := l\<rparr>), w_disk := d'\<rparr>"
        using assms True ch lk Done a
        by (auto simp: session_sign_def get_chain_def session_update_consensus_state_def rbind_split
            split: outcome.splits state_error_kind.splits)
      show "u = Failed State_DoubleSign" if "u \<noteq> Done ()" "is_done res"
        using assms True ch lk Done a that
        by (auto simp: session_sign_def get_chain_def session_update_consensus_state_def rbind_split
            split: outcome.splits state_error_kind.splits)
    qed
  qed (use assms True ch early in \<open>auto simp: session_sign_def get_chain_def
      session_update_consensus_state_def fun_upd_idem\<close>)
qed

lemma chain_node_simps [simp]:
  "nd_lock (chain_node c w A S) = map_option ch_state (w_registry w c)"
  "nd_disk (chain_node c w A S) = w_disk w"
  "nd_authorised (chain_node c w A S) = A" "nd_signed (chain_node c w A S) = S"
  by (simp_all add: chain_node_def)

context signable_request
begin

text \<open>
  The call in terms of the machine: nothing, or an update of this chain followed by a
  signature when the reply carries no error; for every other chain only other files change.
\<close>

lemma session_sign_refines:
  assumes run: "session_sign js os R config r w = (w', res)"
    and sep: "separate_files (w_registry w)" and ch: "w_registry w c = Some ch"
    and path: "state_file_of ch = config_state_file cfg"
  shows "\<exists>A' S'. (node_step tm js cfg)\<^sup>*\<^sup>* (chain_node c w A S) (chain_node c w' A' S') \<and> S \<subseteq> S' \<and>
    (\<forall>resp t q. res = Done resp \<and> response_err resp = None \<and> vc_chain_id config = c \<and>
       parse_request R r = Done (t, q) \<longrightarrow> q \<in> S')"
  using run
proof (cases rule: session_sign_cases)
  case early
  then show ?thesis by (intro exI [of _ A] exI [of _ S]) auto
next
  case (critical chain t q l d' u)
  show ?thesis
  proof (cases "vc_chain_id config = c")
    case True
    define A' where "A' = (if u = Done () then insert q A else A)"
    have w': "chain_node c w' A' T = (chain_node c w A T)\<lparr>nd_lock := Some l, nd_disk := d',
        nd_authorised := A'\<rparr>" for T
      using critical True by (simp add: chain_node_def)
    have upd: "node_step tm js cfg (chain_node c w A S) (chain_node c w' A' S)"
      using node_step.update [of "chain_node c w A S" "ch_state chain" js os q l d' u tm cfg]
        critical(1,3) True w' [of S] unfolding A'_def
      by (cases "u = Done ()") simp_all
    show ?thesis
    proof (cases "u = Done ()")
      case True
      have "node_step tm js cfg (chain_node c w' A' S)
          ((chain_node c w' A' S)\<lparr>nd_signed := insert q (nd_signed (chain_node c w' A' S))\<rparr>)"
        using critical \<open>vc_chain_id config = c\<close> True by (intro node_step.sign [of _ l]) (simp_all add: A'_def)
      then have "node_step tm js cfg (chain_node c w' A' S) (chain_node c w' A' (insert q S))"
        by (simp add: chain_node_def)
      with upd show ?thesis using critical(2)
        by (intro exI [of _ A'] exI [of _ "insert q S"]) auto
    next
      case False
      have "response_err resp \<noteq> None" if "res = Done resp" for resp
        using signed_after_update [OF run [unfolded that]] critical False
        by (fastforce simp: get_chain_def)
      with upd show ?thesis by (intro exI [of _ A'] exI [of _ S]) auto
    qed
  next
    case False
    have "state_file_of chain \<noteq> config_state_file cfg"
      using sep ch path critical(1) False unfolding separate_files_def by metis
    then have "d' (config_state_file cfg) = w_disk w (config_state_file cfg)"
      using with_lock_update_frame(2) [OF critical(3)] by (simp add: state_file_of_def)
    then have "node_step tm js cfg (chain_node c w A S) ((chain_node c w A S)\<lparr>nd_disk := d'\<rparr>)"
      by (intro node_step.other_files) simp
    moreover have "(chain_node c w A S)\<lparr>nd_disk := d'\<rparr> = chain_node c w' A S"
      using critical(4) False by (simp add: chain_node_def)
    ultimately show ?thesis using False by (intro exI [of _ A] exI [of _ S]) auto
  qed
qed

lemma session_sign_frame:
  assumes run: "session_sign js os R config r w = (w', res)" and sep: "separate_files (w_registry w)"
    and ch: "w_registry w c = Some ch"
  shows "separate_files (w_registry w') \<and>
    (\<exists>ch'. w_registry w' c = Some ch' \<and> state_file_of ch' = state_file_of ch)"
  using run
proof (cases rule: session_sign_cases)
  case early
  then show ?thesis using sep ch by simp
next
  case (critical chain t q l d' u)
  have "state_file_of (chain\<lparr>ch_state := l\<rparr>) = state_file_of chain"
    using with_lock_update_frame(1) [OF critical(3)] by (simp add: state_file_of_def)
  then show ?thesis
    using separate_files_update [OF sep critical(1)] critical(1,4) ch by auto
qed

end

section \<open>Serving requests\<close>

text \<open>
  One request of a session: the new world, and the chain, request and consensus state that
  got signed, if any.  A sequence of them is any interleaving of the sessions of several
  validators, as the chain lock orders them.
\<close>

record job =
  jb_config :: validator_config
  jb_request :: request
  jb_state_file :: write_answer

type_synonym signed_entry = "chain_id \<times> request \<times> consensus_state"

definition serve_sign ::
  "state_json \<Rightarrow> 'r tendermint_request \<Rightarrow> ('r \<Rightarrow> request) \<Rightarrow> job \<Rightarrow> 'r \<Rightarrow> world \<Rightarrow> world \<times> signed_entry list" where
  "serve_sign js R wrap j r w =
     (case session_sign js (jb_state_file j) R (jb_config j) r w of
        (w', Done resp) \<Rightarrow>
          (w', case (response_err resp, parse_request R r) of
                 (None, Done (t, q)) \<Rightarrow> [(vc_chain_id (jb_config j), wrap r, q)]
               | _ \<Rightarrow> [])
      | (w', _) \<Rightarrow> (w', []))"

definition serve_one ::
  "tendermint_crate \<Rightarrow> canonical_codec \<Rightarrow> state_json \<Rightarrow> job \<Rightarrow> world \<Rightarrow> world \<times> signed_entry list" where
  "serve_one tm cc js j w =
     (case jb_request j of
        SignVote r \<Rightarrow> serve_sign js (vote_request tm cc) SignVote j r w
      | SignProposal r \<Rightarrow> serve_sign js (proposal_request tm cc) SignProposal j r w
      | _ \<Rightarrow> (w, []))"

fun serve ::
  "tendermint_crate \<Rightarrow> canonical_codec \<Rightarrow> state_json \<Rightarrow> job list \<Rightarrow> world \<Rightarrow> world \<times> signed_entry list" where
  "serve tm cc js [] w = (w, [])"
| "serve tm cc js (j # jobs) w =
     (case serve_one tm cc js j w of (w', es) \<Rightarrow>
        (case serve tm cc js jobs w' of (w'', es') \<Rightarrow> (w'', es @ es')))"

text \<open>The states signed for one chain.\<close>

definition states_of :: "chain_id \<Rightarrow> signed_entry list \<Rightarrow> consensus_state set" where
  "states_of c es = {q. \<exists>r. (c, r, q) \<in> set es}"

lemma states_of_simps [simp]:
  "states_of c [] = {}" "states_of c (es @ es') = states_of c es \<union> states_of c es'"
  by (auto simp: states_of_def)

definition node_ok :: "state_json \<Rightarrow> chain_config \<Rightarrow> chain_id \<Rightarrow> world \<Rightarrow> consensus_state set \<Rightarrow> bool" where
  "node_ok js cfg c w S \<longleftrightarrow>
     separate_files (w_registry w) \<and>
     (\<exists>ch. w_registry w c = Some ch \<and> state_file_of ch = config_state_file cfg) \<and>
     (\<exists>A S'. S \<subseteq> S' \<and> node_inv js (config_state_file cfg) (chain_node c w A S'))"

context signable_request
begin

lemma serve_sign_ok:
  assumes js: "json_roundtrip js" and ok: "node_ok js cfg c w S"
    and run: "serve_sign js R wrap j r w = (w', es)"
  shows "node_ok js cfg c w' (S \<union> states_of c es)"
proof -
  obtain ch A S0 where sep: "separate_files (w_registry w)"
    and ch: "w_registry w c = Some ch" "state_file_of ch = config_state_file cfg"
    and S0: "S \<subseteq> S0" and inv: "node_inv js (config_state_file cfg) (chain_node c w A S0)"
    using ok unfolding node_ok_def by blast
  obtain v res where ss: "session_sign js (jb_state_file j) R (jb_config j) r w = (v, res)"
    by (metis surj_pair)
  then have v: "v = w'" using run by (auto simp: serve_sign_def split: outcome.splits)
  obtain A' S' where step: "(node_step tm js cfg)\<^sup>*\<^sup>* (chain_node c w A S0) (chain_node c w' A' S')"
    and S': "S0 \<subseteq> S'" and signed: "\<And>resp t q. res = Done resp \<Longrightarrow> response_err resp = None \<Longrightarrow>
      vc_chain_id (jb_config j) = c \<Longrightarrow> parse_request R r = Done (t, q) \<Longrightarrow> q \<in> S'"
    using session_sign_refines [OF ss [unfolded v] sep ch] by metis
  have "states_of c es \<subseteq> S'"
    using run ss signed
    by (auto simp: serve_sign_def states_of_def split: outcome.splits option.splits)
  then have sub: "S \<union> states_of c es \<subseteq> S'" using S0 S' by blast
  have inv': "node_inv js (config_state_file cfg) (chain_node c w' A' S')"
    by (rule node_steps_inv [OF step js inv])
  show ?thesis
    unfolding node_ok_def
    using session_sign_frame [OF ss [unfolded v] sep ch(1)] ch(2) sub inv' by metis
qed

end

lemma serve_one_ok:
  assumes "json_roundtrip js" "node_ok js cfg c w S" "serve_one tm cc js j w = (w', es)"
  shows "node_ok js cfg c w' (S \<union> states_of c es)"
  using assms vote_rq.serve_sign_ok [OF assms(1,2)] proposal_rq.serve_sign_ok [OF assms(1,2)]
  by (cases "jb_request j") (auto simp: serve_one_def)

lemma serve_ok:
  "json_roundtrip js \<Longrightarrow> node_ok js cfg c w S \<Longrightarrow> serve tm cc js jobs w = (w', es) \<Longrightarrow>
     node_ok js cfg c w' (S \<union> states_of c es)"
proof (induction jobs arbitrary: w S es)
  case Nil
  then show ?case by simp
next
  case (Cons j jobs)
  obtain v es1 es2 where one: "serve_one tm cc js j w = (v, es1)"
    and rest: "serve tm cc js jobs v = (w', es2)" and es: "es = es1 @ es2"
    using Cons.prems(3) by (auto split: prod.splits)
  have "node_ok js cfg c v (S \<union> states_of c es1)"
    by (rule serve_one_ok [OF Cons.prems(1,2) one])
  from Cons.IH [OF Cons.prems(1) this rest] show ?case by (simp add: es Un_assoc)
qed

lemma node_ok_initial:
  "separate_files (w_registry w) \<Longrightarrow> w_registry w c = Some ch \<Longrightarrow>
     state_file_of ch = config_state_file cfg \<Longrightarrow> node_ok js cfg c w {}"
  unfolding node_ok_def by (auto simp: node_inv_def state_file_of_def intro!: exI [of _ "{}"])

lemma serve_agreeing:
  assumes "json_roundtrip js" "separate_files (w_registry w)" "w_registry w c = Some ch"
  shows "agreeing state_position cs_block_id (states_of c (snd (serve tm cc js jobs w)))"
proof -
  define cfg where "cfg = \<lparr>cc_id = c, cc_key_format = Hex, cc_state_file = Some (state_file_of ch),
    cc_state_hook = None\<rparr>"
  have "state_file_of ch = config_state_file cfg" by (simp add: cfg_def config_state_file_def)
  then have "node_ok js cfg c w {}" using assms by (intro node_ok_initial)
  then have "node_ok js cfg c (fst (serve tm cc js jobs w)) ({} \<union> states_of c (snd (serve tm cc js jobs w)))"
    by (rule serve_ok [OF assms(1)]) simp
  then show ?thesis
    unfolding node_ok_def node_inv_def by (auto intro: agreeing_mono)
qed

end
