(* ===== verification/Sample_World.thy ===== *)
theory Sample_World
  imports Signing_Machine
begin

text \<open>
  A small concrete KMS: one chain, one software key, a state file, and concrete functions
  for the crates that the model takes as parameters.  The properties of the development are
  applied to it, which shows that their hypotheses can hold together.
\<close>

section \<open>The crates\<close>

definition sample_tm :: tendermint_crate where
  "sample_tm =
     \<lparr>height_try_from = (\<lambda>h. if sint h < 0 then None else Some h),
      parts_header_new = (\<lambda>t h. if t = 0 then None else Some \<lparr>ph_total = t, ph_hash = h\<rparr>),
      state_default = \<lparr>cs_height = 1, cs_round = 0, cs_step = 0, cs_block_id = None\<rparr>\<rparr>"

lemma sample_height_conversion: "height_conversion sample_tm"
  by (simp add: height_conversion_def sample_tm_def)

lemma sample_parts_header_stores: "parts_header_stores sample_tm"
  by (simp add: parts_header_stores_def sample_tm_def)

text \<open>A serialiser for the states of a table: the text is the index, in unary.\<close>

fun table_index :: "'a list \<Rightarrow> 'a \<Rightarrow> nat option" where
  "table_index [] s = None"
| "table_index (x # xs) s = (if x = s then Some 0 else map_option Suc (table_index xs s))"

definition table_json :: "consensus_state list \<Rightarrow> state_json" where
  "table_json states =
     \<lparr>to_json = (\<lambda>s. map_option (\<lambda>i. replicate i CHR ''x'') (table_index states s)),
      from_json = (\<lambda>j. if length j < length states then Some (states ! length j) else None)\<rparr>"

lemma table_index_nth: "table_index xs s = Some i \<Longrightarrow> i < length xs \<and> xs ! i = s"
  by (induction xs arbitrary: i) (auto split: if_splits)

lemma table_json_roundtrip [simp]: "json_roundtrip (table_json states)"
  by (auto simp: json_roundtrip_def table_json_def dest: table_index_nth)

definition sample_codec :: canonical_codec where
  "sample_codec =
     \<lparr>pb_encode_canonical_vote = (\<lambda>v. Some [ucast (pcv_type v), ucast (pcv_height v)]),
      pb_encode_canonical_proposal = (\<lambda>p. Some [ucast (pcp_type p), ucast (pcp_height p)]),
      amino_encode_canonical_vote = (\<lambda>v. Some [ucast (cv_vote_type v), ucast (cv_height v)]),
      amino_encode_canonical_proposal = (\<lambda>p. Some [ucast (cp_msg_type p), ucast (cp_height p)])\<rparr>"

lemma sample_encoders_total: "encoders_total sample_codec"
  by (simp add: encoders_total_def sample_codec_def)

section \<open>The configuration and the world\<close>

definition sample_path :: path where
  "sample_path = \<lparr>path_absolute = True, path_components = [''s'']\<rparr>"

definition sample_chain_config :: chain_config where
  "sample_chain_config =
     \<lparr>cc_id = ''c'', cc_key_format = Hex, cc_state_file = Some sample_path, cc_state_hook = None\<rparr>"

definition sample_validator :: validator_config where
  "sample_validator =
     \<lparr>vc_addr = Unix sample_path, vc_chain_id = ''c'', vc_reconnect = True, vc_timeout = None,
      vc_secret_key = None, vc_max_height = Some 100, vc_protocol_version = V0_34\<rparr>"

definition sample_signer :: signer where
  "sample_signer =
     \<lparr>sg_provider = SoftSign, sg_public_key = ConsensusKey (Ed25519 [7]), sg_try_sign = (\<lambda>m. Done (0 # m))\<rparr>"

definition genesis_state :: consensus_state where
  "genesis_state = \<lparr>cs_height = 0, cs_round = 0, cs_step = 0, cs_block_id = None\<rparr>"

definition sample_state :: consensus_state where
  "sample_state = \<lparr>cs_height = 5, cs_round = 0, cs_step = 1, cs_block_id = None\<rparr>"

definition sample_json :: state_json where
  "sample_json = table_json [genesis_state, sample_state]"

lemma sample_json_roundtrip [simp]: "json_roundtrip sample_json"
  by (simp add: sample_json_def)

text \<open>The chain at a given consensus state, and the world with that chain and a disk.\<close>

definition chain_at :: "consensus_state \<Rightarrow> chain" where
  "chain_at q =
     \<lparr>ch_id = ''c'', ch_keyring = \<lparr>kr_ecdsa_keys = [],
        kr_ed25519_keys = [(ConsensusKey (Ed25519 [7]), sample_signer)], kr_format = Hex\<rparr>,
      ch_state = mutex_new \<lparr>st_consensus_state = q, st_state_file_path = sample_path\<rparr>\<rparr>"

definition world_at :: "consensus_state \<Rightarrow> disk \<Rightarrow> world" where
  "world_at q d = \<lparr>w_registry = [''c'' \<mapsto> chain_at q], w_disk = d, w_sent = []\<rparr>"

abbreviation sample_world :: world where
  "sample_world \<equiv> world_at genesis_state Map.empty"

abbreviation sample_world_signed :: world where
  "sample_world_signed \<equiv> world_at sample_state [sample_path \<mapsto> ''x'']"

lemma world_at_simps [simp]:
  "w_registry (world_at q d) ''c'' = Some (chain_at q)" "w_disk (world_at q d) = d"
  "separate_files (w_registry (world_at q d))"
  "state_file_of (chain_at q) = config_state_file sample_chain_config"
  by (simp_all add: world_at_def separate_files_def state_file_of_def chain_at_def mutex_new_def
      config_state_file_def sample_chain_config_def)

text \<open>
  A pre-vote at height 5, for any block ID that is valid but not part of the consensus
  state, with any time stamp.
\<close>

definition unseen_block :: "amino_block_id option \<Rightarrow> bool" where
  "unseen_block bid \<longleftrightarrow> state_block_id sample_tm bid = None \<and>
     (case bid of None \<Rightarrow> True | Some b \<Rightarrow> block_id_validate_basic b = Done ())"

lemma unseen_None [simp]: "unseen_block None"
  by (simp add: unseen_block_def state_block_id_def)

definition vote_for :: "amino_block_id option \<Rightarrow> time_msg option \<Rightarrow> vote" where
  "vote_for bid ts =
     \<lparr>v_vote_type = 1, v_height = 5, v_round = 0, v_block_id = bid, v_timestamp = ts,
      v_validator_address = replicate 20 0, v_validator_index = 0, v_signature = []\<rparr>"

definition request_for :: "amino_block_id option \<Rightarrow> time_msg option \<Rightarrow> sign_vote_request" where
  "request_for bid ts = \<lparr>svr_vote = Some (vote_for bid ts)\<rparr>"

definition job_for :: "amino_block_id option \<Rightarrow> time_msg option \<Rightarrow> job" where
  "job_for bid ts = \<lparr>jb_config = sample_validator, jb_request = SignVote (request_for bid ts),
                     jb_state_file = Write_ok\<rparr>"

abbreviation nil_vote :: "time_msg option \<Rightarrow> vote" where "nil_vote \<equiv> vote_for None"
abbreviation nil_request :: "time_msg option \<Rightarrow> sign_vote_request" where "nil_request \<equiv> request_for None"
abbreviation nil_job :: "time_msg option \<Rightarrow> job" where "nil_job \<equiv> job_for None"

definition sample_time :: time_msg where
  "sample_time = \<lparr>tm_seconds = 9, tm_nanos = 0\<rparr>"

lemmas sample_defs =
  sample_tm_def sample_codec_def sample_path_def sample_chain_config_def sample_validator_def
  sample_signer_def genesis_state_def sample_state_def sample_json_def table_json_def
  chain_at_def world_at_def vote_for_def request_for_def job_for_def

text \<open>The chain goes from its first state to the vote's state, or stays there, and signs.\<close>

lemma sample_parse:
  assumes "unseen_block bid"
  shows "parse_request (vote_request sample_tm cc) (request_for bid ts) = Done (PreVote, sample_state)"
proof -
  have "height_try_from sample_tm 5 = Some 5" by (simp add: sample_tm_def)
  moreover have "state_block_id sample_tm bid = None" using assms by (simp add: unseen_block_def)
  ultimately show ?thesis
    by (simp add: parse_request_def vote_operation_defs vote_msg_type_def request_for_def vote_for_def
        sample_state_def)
qed

lemma sample_update:
  assumes "q \<in> {genesis_state, sample_state}"
  shows "with_lock (ch_state (chain_at q)) d (update_consensus_state sample_json Write_ok sample_state) =
     ((mutex_new \<lparr>st_consensus_state = sample_state, st_state_file_path = sample_path\<rparr>,
       d(sample_path \<mapsto> ''x'')), Done ())"
  using assms
  by (auto simp: with_lock_def update_consensus_state_def consensus_check_def sync_to_disk_def
      path_parent_def mutex_new_def Let_def sample_defs)

definition reply_for :: "amino_block_id option \<Rightarrow> time_msg option \<Rightarrow> response" where
  "reply_for bid ts = SignedVote \<lparr>sv_vote = Some ((vote_for bid ts)\<lparr>v_signature := [0, 1, 5]\<rparr>), sv_err = None\<rparr>"

lemma sample_sign:
  assumes "q \<in> {genesis_state, sample_state}" and "unseen_block bid"
  shows "session_sign sample_json Write_ok (vote_request sample_tm sample_codec) sample_validator
     (request_for bid ts) (world_at q d) =
   (world_at sample_state (d(sample_path \<mapsto> ''x'')), Done (reply_for bid ts))"
proof -
  let ?R = "vote_request sample_tm sample_codec"
  let ?chain = "(chain_at q)\<lparr>ch_state := mutex_new \<lparr>st_consensus_state = sample_state,
        st_state_file_path = sample_path\<rparr>\<rparr>"
  have valid: "rq_validate ?R (request_for bid ts) = Done ()"
    using assms(2)
    by (simp add: vote_operation_defs vote_validate_basic_def vote_msg_type_def VALIDATOR_ADDR_SIZE_def
        vote_for_def request_for_def unseen_block_def split: option.splits)
  have mx: "check_max_height ?R sample_validator (request_for bid ts) = Done ()"
    by (simp add: check_max_height_def vote_operation_defs vote_for_def request_for_def
        sample_validator_def)
  have upd: "session_update_consensus_state sample_json Write_ok ?R (request_for bid ts) (chain_at q) d =
     ((?chain, d(sample_path \<mapsto> ''x'')), Done None)"
    by (simp add: session_update_consensus_state_def sample_parse [OF assms(2)] sample_update [OF assms(1)])
  have chain: "?chain = chain_at sample_state" by (simp add: chain_at_def)
  have reply: "sign_and_reply ?R sample_validator (ch_keyring (chain_at sample_state)) (request_for bid ts) =
      Done (reply_for bid ts)"
    by (simp add: sign_and_reply_def log_signing_request_def sample_parse [OF assms(2)] sign_ed25519_def signer_sign_def
        Let_def)
       (simp add: vote_operation_defs sample_defs is_protobuf_def pb_canonical_vote_of_def reply_for_def)
  show ?thesis
    using valid mx upd reply
    by (simp add: session_sign_def get_chain_def chain sample_validator_def)
       (simp add: world_at_def)
qed

end
