(* ===== verification/Ledger_App.thy ===== *)
theory Ledger_App
  imports Kms_Error
begin

text \<open>
  The client of the Ledger validator app: \<^verbatim>\<open>src/keyring/providers/ledgertm/client.rs\<close>,
  \<^verbatim>\<open>error.rs\<close> and \<^verbatim>\<open>signer.rs\<close>.  A device is a parameter: a function from the commands
  it got before and the current one to its answer (absent for a transport error).  The
  operations return the commands sent so far beside their outcome, so that what the device
  sees can be stated.
\<close>

section \<open>Commands and answers\<close>

record apdu_command =
  cla :: u8
  ins :: u8
  p1 :: u8
  p2 :: u8
  apdu_length :: u8
  apdu_data :: bytes

record apdu_answer =
  answer_data :: bytes
  retcode :: u16

datatype ledger_error =
    InvalidVersion | InvalidEmptyMessage | InvalidMessageSize | InvalidPk
  | NoSignature | InvalidSignature | Ledger

type_synonym device = "apdu_command list \<Rightarrow> apdu_command \<Rightarrow> apdu_answer option"

type_synonym 'a app_run = "(apdu_command list, ledger_error, 'a) run"

definition CLA :: u8 where "CLA = 0x56"
definition INS_PUBLIC_KEY_ED25519 :: u8 where "INS_PUBLIC_KEY_ED25519 = 0x01"
definition INS_SIGN_ED25519 :: u8 where "INS_SIGN_ED25519 = 0x02"
definition INS_GET_VERSION :: u8 where "INS_GET_VERSION = 0x00"
definition USER_MESSAGE_CHUNK_SIZE :: nat where "USER_MESSAGE_CHUNK_SIZE = 250"

text \<open>\<^verbatim>\<open>self.app.exchange(command)?\<close>\<close>

definition exchange :: "device \<Rightarrow> apdu_command \<Rightarrow> apdu_command list \<Rightarrow> apdu_answer app_run" where
  "exchange dev command sent = (sent @ [command], ok_or Ledger (dev sent command))"

section \<open>Version and public key\<close>

record ledger_version =
  ver_mode :: u8
  ver_major :: u8
  ver_minor :: u8
  ver_patch :: u8

definition answer_index_panic :: panic_payload where
  "answer_index_panic = Payload_String ''index out of bounds''"

definition app_version :: "device \<Rightarrow> apdu_command list \<Rightarrow> ledger_version app_run" where
  "app_version dev sent =
     rbind (exchange dev \<lparr>cla = CLA, ins = INS_GET_VERSION, p1 = 0, p2 = 0, apdu_length = 0, apdu_data = []\<rparr> sent)
       (\<lambda>sent' response.
          (sent',
           if retcode response \<noteq> 0x9000 then Failed InvalidVersion
           else case answer_data response of
                  mode # major # minor # patch # _ \<Rightarrow>
                    Done \<lparr>ver_mode = mode, ver_major = major, ver_minor = minor, ver_patch = patch\<rparr>
                | _ \<Rightarrow> Panicked answer_index_panic))"

text \<open>A bad return code is only logged here; the size of the answer decides.\<close>

definition app_public_key :: "device \<Rightarrow> apdu_command list \<Rightarrow> bytes app_run" where
  "app_public_key dev sent =
     rbind (exchange dev \<lparr>cla = CLA, ins = INS_PUBLIC_KEY_ED25519, p1 = 0, p2 = 0, apdu_length = 0, apdu_data = []\<rparr> sent)
       (\<lambda>sent' response.
          (sent',
           if length (answer_data response) \<noteq> 32 then Failed InvalidPk
           else Done (answer_data response)))"

section \<open>Signing in chunks\<close>

text \<open>\<^verbatim>\<open>slice::chunks\<close>; it panics for size 0, which the constant size rules out.\<close>

function chunks :: "nat \<Rightarrow> 'a list \<Rightarrow> 'a list list" where
  "chunks n xs = (if xs = [] \<or> n = 0 then [] else take n xs # chunks n (drop n xs))"
  by pat_completeness auto
termination by (relation "measure (length \<circ> snd)") auto

declare chunks.simps [simp del]

definition sign_command :: "nat \<Rightarrow> u8 \<Rightarrow> bytes \<Rightarrow> apdu_command" where
  "sign_command packet_idx packet_count chunk =
     \<lparr>cla = CLA, ins = INS_SIGN_ED25519, p1 = word_of_nat (packet_idx + 1), p2 = packet_count,
      apdu_length = word_of_nat (length chunk), apdu_data = chunk\<rparr>"

text \<open>The loop over the chunks from an index on, with the last answer so far.\<close>

fun send_chunks ::
  "device \<Rightarrow> u8 \<Rightarrow> nat \<Rightarrow> bytes list \<Rightarrow> apdu_answer \<Rightarrow> apdu_command list \<Rightarrow> apdu_answer app_run" where
  "send_chunks dev packet_count packet_idx [] response sent = (sent, Done response)"
| "send_chunks dev packet_count packet_idx (chunk # cs) response sent =
     rbind (exchange dev (sign_command packet_idx packet_count chunk) sent)
       (\<lambda>sent' response'. send_chunks dev packet_count (Suc packet_idx) cs response' sent')"

definition app_sign :: "device \<Rightarrow> bytes \<Rightarrow> apdu_command list \<Rightarrow> bytes app_run" where
  "app_sign dev message sent =
     (let cs = chunks USER_MESSAGE_CHUNK_SIZE message
      in if length cs > 255 then (sent, Failed InvalidMessageSize)
         else if length cs = 0 then (sent, Failed InvalidEmptyMessage)
         else rbind (send_chunks dev (word_of_nat (length cs)) 0 cs \<lparr>answer_data = [], retcode = 0\<rparr> sent)
           (\<lambda>sent' response.
              (sent',
               if answer_data response = [] \<and> retcode response = 0x9000 then Failed NoSignature
               else if length (answer_data response) \<noteq> 64 then Failed InvalidSignature
               else Done (answer_data response))))"

section \<open>The signer object\<close>

definition ledger_try_sign :: "device \<Rightarrow> bytes \<Rightarrow> (unit, bytes) outcome" where
  "ledger_try_sign dev msg = map_err (\<lambda>_. ()) (snd (app_sign dev msg []))"

definition ledger_unwrap_panic :: panic_payload where
  "ledger_unwrap_panic = Payload_String ''called `Result::unwrap()` on an `Err` value: InvalidPk''"

text \<open>
  \<^verbatim>\<open>PublicKey::from(&signer)\<close>: unwrapped twice; \<open>valid_key\<close> is \<^verbatim>\<open>PublicKey::from_bytes\<close>.
\<close>

definition ledger_public_key :: "(bytes \<Rightarrow> bool) \<Rightarrow> device \<Rightarrow> (unit, bytes) outcome" where
  "ledger_public_key valid_key dev =
     (case snd (app_public_key dev []) of
        Done pk \<Rightarrow> if valid_key pk then Done pk else Panicked ledger_unwrap_panic
      | Failed e \<Rightarrow> Panicked ledger_unwrap_panic
      | Panicked p \<Rightarrow> Panicked p)"

section \<open>Facts about chunks\<close>

lemma chunks_Nil [simp]: "chunks n [] = []"
  by (simp add: chunks.simps)

lemma chunks_step: "xs \<noteq> [] \<Longrightarrow> 0 < n \<Longrightarrow> chunks n xs = take n xs # chunks n (drop n xs)"
  by (simp add: chunks.simps)

lemma concat_chunks: "0 < n \<Longrightarrow> concat (chunks n xs) = xs"
proof (induction n xs rule: chunks.induct)
  case (1 n xs)
  then show ?case by (cases "xs = []") (simp_all add: chunks_step)
qed

lemma chunk_sizes: "0 < n \<Longrightarrow> c \<in> set (chunks n xs) \<Longrightarrow> 0 < length c \<and> length c \<le> n"
proof (induction n xs rule: chunks.induct)
  case (1 n xs)
  then show ?case by (cases "xs = []") (auto simp: chunks_step)
qed

lemma length_chunks: "0 < n \<Longrightarrow> length (chunks n xs) = (length xs + n - 1) div n"
proof (induction n xs rule: chunks.induct)
  case (1 n xs)
  show ?case
  proof (cases "xs = []")
    case True
    then show ?thesis using 1 by simp
  next
    case False
    then have IH: "length (chunks n (drop n xs)) = (length xs - n + n - 1) div n" using 1 by simp
    show ?thesis
    proof (cases "length xs \<le> n")
      case True
      have "0 < length xs" using False by simp
      then have "n \<le> length xs + n - 1" and "length xs + n - 1 < n + n"
        using True by linarith+
      then have "(length xs + n - 1) div n = 1" by (intro div_nat_eqI) simp_all
      then show ?thesis using True False 1 by (simp add: chunks_step)
    next
      case False2: False
      then have "(length xs + n - 1) div n = Suc ((length xs - 1) div n)"
        using 1 div_add_self2 [of n "length xs - 1"] by simp
      then show ?thesis using False False2 IH 1 by (simp add: chunks_step)
    qed
  qed
qed

text \<open>The commands a run of the loop sends: a prefix of the numbered chunks.\<close>

definition numbered_commands :: "u8 \<Rightarrow> nat \<Rightarrow> bytes list \<Rightarrow> apdu_command list" where
  "numbered_commands count i cs = map (\<lambda>(k, c). sign_command k count c) (enumerate i cs)"

lemma send_chunks_sent:
  "\<exists>k \<le> length cs. fst (send_chunks dev count i cs r sent) = sent @ take k (numbered_commands count i cs)"
proof (induction cs arbitrary: i r sent)
  case Nil
  then show ?case by simp
next
  case (Cons c cs)
  let ?cmd = "sign_command i count c"
  show ?case
  proof (cases "dev sent ?cmd")
    case None
    then show ?thesis
      by (intro exI [of _ 1]) (simp add: exchange_def numbered_commands_def)
  next
    case (Some a)
    obtain k where "k \<le> length cs" and
      "fst (send_chunks dev count (Suc i) cs a (sent @ [?cmd])) =
         (sent @ [?cmd]) @ take k (numbered_commands count (Suc i) cs)"
      using Cons.IH by blast
    then show ?thesis using Some
      by (intro exI [of _ "Suc k"]) (simp add: exchange_def numbered_commands_def)
  qed
qed

lemma send_chunks_done:
  "snd (send_chunks dev count i cs r sent) = Done a \<Longrightarrow>
     fst (send_chunks dev count i cs r sent) = sent @ numbered_commands count i cs"
proof (induction cs arbitrary: i r sent)
  case Nil
  then show ?case by (simp add: numbered_commands_def)
next
  case (Cons c cs)
  then show ?case
    by (cases "dev sent (sign_command i count c)") (auto simp: exchange_def numbered_commands_def)
qed

lemma send_chunks_length:
  "length sent + (if cs = [] then 0 else 1) \<le> length (fst (send_chunks dev count i cs r sent))"
proof (induction cs arbitrary: i r sent)
  case Nil
  then show ?case by simp
next
  case (Cons c cs)
  have "Suc (length sent) \<le> length (fst (send_chunks dev count (Suc i) cs a (sent @ [x])))" for a x
    using Cons.IH [of "sent @ [x]" "Suc i" a] by simp
  then show ?case by (cases "dev sent (sign_command i count c)") (simp_all add: exchange_def)
qed

lemma send_chunks_no_panic: "\<not> is_panic (snd (send_chunks dev count i cs r sent))"
proof (induction cs arbitrary: i r sent)
  case Nil
  then show ?case by simp
next
  case (Cons c cs)
  then show ?case by (cases "dev sent (sign_command i count c)") (auto simp: exchange_def)
qed

section \<open>What the device sees\<close>

lemma numbered_nth:
  "i < length cs \<Longrightarrow> numbered_commands count 0 cs ! i = sign_command i count (cs ! i)"
  by (simp add: numbered_commands_def nth_enumerate_eq)

lemma numbered_length [simp]: "length (numbered_commands count i cs) = length cs"
  by (simp add: numbered_commands_def)

lemma numbered_data: "map apdu_data (numbered_commands count i cs) = cs"
  by (simp add: numbered_commands_def sign_command_def comp_def case_prod_unfold)

lemma app_sign_DoneD:
  assumes "app_sign dev msg sent = (sent', Done sig)"
  shows "sent' = sent @ numbered_commands (word_of_nat (length (chunks USER_MESSAGE_CHUNK_SIZE msg))) 0
      (chunks USER_MESSAGE_CHUNK_SIZE msg)"
    and "length (chunks USER_MESSAGE_CHUNK_SIZE msg) \<le> 255" and "length sig = 64"
proof -
  define cs where "cs = chunks USER_MESSAGE_CHUNK_SIZE msg"
  obtain a where run: "send_chunks dev (word_of_nat (length cs)) 0 cs \<lparr>answer_data = [], retcode = 0\<rparr> sent = (sent', Done a)"
    and len: "length cs \<le> 255" and "length sig = 64"
    using assms unfolding app_sign_def Let_def cs_def [symmetric]
    by (auto split: if_splits dest!: rbind_DoneD)
  have "fst (send_chunks dev (word_of_nat (length cs)) 0 cs \<lparr>answer_data = [], retcode = 0\<rparr> sent) =
      sent @ numbered_commands (word_of_nat (length cs)) 0 cs"
    by (rule send_chunks_done [where a = a]) (simp add: run)
  then show "sent' = sent @ numbered_commands (word_of_nat (length (chunks USER_MESSAGE_CHUNK_SIZE msg))) 0
      (chunks USER_MESSAGE_CHUNK_SIZE msg)"
    and "length (chunks USER_MESSAGE_CHUNK_SIZE msg) \<le> 255" and "length sig = 64"
    using run len \<open>length sig = 64\<close> by (simp_all add: cs_def)
qed

text \<open>
  C28: when the Ledger client returns a signature, the data of the commands it sent,
  put together, is exactly the message; command \<open>i\<close> carries packet number \<open>i + 1\<close>, the packet
  count and its own length in single bytes without wrap-around, and at most 250 bytes; and
  the signature has 64 bytes.
\<close>

theorem ledger_sign_sends_message:
  assumes "app_sign dev msg [] = (sent, Done sig)"
  shows "concat (map apdu_data sent) = msg \<and> length sig = 64 \<and> length sent \<le> 255 \<and>
    (\<forall>i < length sent. unat (p1 (sent ! i)) = i + 1 \<and> unat (p2 (sent ! i)) = length sent \<and>
       unat (apdu_length (sent ! i)) = length (apdu_data (sent ! i)) \<and>
       0 < length (apdu_data (sent ! i)) \<and> length (apdu_data (sent ! i)) \<le> 250)"
proof -
  define cs where "cs = chunks USER_MESSAGE_CHUNK_SIZE msg"
  note d = app_sign_DoneD [OF assms, folded cs_def]
  have sent: "sent = numbered_commands (word_of_nat (length cs)) 0 cs" using d(1) by simp
  have sizes: "0 < length c \<and> length c \<le> 250" if "c \<in> set cs" for c
    using chunk_sizes [of 250 c msg] that by (simp add: cs_def USER_MESSAGE_CHUNK_SIZE_def)
  have "unat (p1 (sent ! i)) = i + 1 \<and> unat (p2 (sent ! i)) = length sent \<and>
       unat (apdu_length (sent ! i)) = length (apdu_data (sent ! i)) \<and>
       0 < length (apdu_data (sent ! i)) \<and> length (apdu_data (sent ! i)) \<le> 250"
    if "i < length sent" for i
  proof -
    have i: "i < length cs" using that sent by simp
    have c: "0 < length (cs ! i)" "length (cs ! i) \<le> 250" using sizes i by simp_all
    have "i + 1 \<le> 255" using i d(2) by simp
    then have "unat (word_of_nat (i + 1) :: u8) = i + 1" by (simp add: unat_of_nat del: of_nat_add of_nat_Suc)
    moreover have "unat (word_of_nat (length cs) :: u8) = length cs" using d(2) by (simp add: unat_of_nat)
    moreover have "unat (word_of_nat (length (cs ! i)) :: u8) = length (cs ! i)"
      using c by (simp add: unat_of_nat)
    ultimately show ?thesis
      using c unfolding sent numbered_nth [OF i] by (simp add: sign_command_def)
  qed
  moreover have "concat (map apdu_data sent) = msg"
    unfolding sent numbered_data by (simp add: cs_def concat_chunks USER_MESSAGE_CHUNK_SIZE_def)
  ultimately show ?thesis using d sent by simp
qed

theorem ledger_sign_sends_message_witness:
  "\<exists>sent sig. app_sign (\<lambda>_ _. Some \<lparr>answer_data = replicate 64 3, retcode = 0x9000\<rparr>) [5, 6] [] = (sent, Done sig) \<and>
     concat (map apdu_data sent) = [5, 6]"
proof -
  let ?dev = "\<lambda>_ _. Some \<lparr>answer_data = replicate 64 3, retcode = 0x9000\<rparr>"
  have "chunks USER_MESSAGE_CHUNK_SIZE [5, 6] = [[5, 6 :: u8]]"
    by (simp add: USER_MESSAGE_CHUNK_SIZE_def chunks_step)
  then have "app_sign ?dev [5, 6] [] = ([sign_command 0 1 [5, 6]], Done (replicate 64 3))"
    by (simp add: app_sign_def exchange_def)
  with ledger_sign_sends_message [OF this] show ?thesis by blast
qed

text \<open>
  A message is refused before anything is sent exactly when it is empty or longer than
  255 chunks of 250 bytes; nothing in the client panics while signing.
\<close>

theorem ledger_sign_refuses:
  "(fst (app_sign dev msg []) = [] \<longleftrightarrow> msg = [] \<or> 63750 < length msg) \<and>
   \<not> is_panic (snd (app_sign dev msg []))"
proof -
  define cs where "cs = chunks USER_MESSAGE_CHUNK_SIZE msg"
  have len: "length cs = (length msg + 249) div 250"
    by (simp add: cs_def length_chunks USER_MESSAGE_CHUNK_SIZE_def)
  have "length cs > 255 \<longleftrightarrow> 63750 < length msg" unfolding len by linarith
  moreover have "length cs = 0 \<longleftrightarrow> msg = []" unfolding len by (cases msg) auto
  moreover have "fst (send_chunks dev n 0 cs r []) \<noteq> []" if "cs \<noteq> []" for n r
    using send_chunks_length [of "[]" cs dev n 0 r] that by auto
  ultimately show ?thesis
    using send_chunks_no_panic [of dev "word_of_nat (length cs)" 0 cs "\<lparr>answer_data = [], retcode = 0\<rparr>" "[]"]
    unfolding app_sign_def Let_def cs_def [symmetric]
    by (auto simp: rbind_split split: outcome.splits)
qed

end
