(* ===== verification/Key_Providers.thy ===== *)
theory Key_Providers
  imports Chain_Registry Ledger_App
begin

text \<open>
  Where the keys come from: secret files (\<^verbatim>\<open>src/key_utils.rs\<close>), the software signer
  (\<^verbatim>\<open>src/keyring/providers/softsign.rs\<close>), the YubiHSM (\<^verbatim>\<open>providers/yubihsm.rs\<close>), the Ledger
  (\<^verbatim>\<open>providers/ledgertm.rs\<close>) and Fortanix DSM (\<^verbatim>\<open>providers/fortanixdsm.rs\<close>), and the two
  functions that load the whole configuration (\<^verbatim>\<open>keyring::load_config\<close>,
  \<^verbatim>\<open>chain::load_config\<close>).

  The cryptographic crates, the HSM and the DSM service are parameters.  A file system is
  what a read of each path returns, absent for every I/O error.
\<close>

section \<open>Secret files\<close>

record crypto_crate =
  base64_encode :: "bytes \<Rightarrow> string"
  base64_decode :: "string \<Rightarrow> bytes option"
  ed25519_secret :: "bytes \<Rightarrow> bool"
  ed25519_public :: "bytes \<Rightarrow> bytes"
  ed25519_sign_with :: "bytes \<Rightarrow> bytes \<Rightarrow> bytes"
  ecdsa_secret :: "bytes \<Rightarrow> bool"
  ecdsa_public :: "bytes \<Rightarrow> bytes"
  ecdsa_sign_with :: "bytes \<Rightarrow> bytes \<Rightarrow> bytes"
  from_raw_secp256k1 :: "bytes \<Rightarrow> public_key option"
  from_raw_ed25519 :: "bytes \<Rightarrow> public_key option"
  ed25519_public_ok :: "bytes \<Rightarrow> bool"

text \<open>
  \<^verbatim>\<open>str::trim_end\<close> on ASCII text, and what is relied on: Base64 text decodes to the bytes
  it was made of and does not end in white space.
\<close>

definition is_space :: "char \<Rightarrow> bool" where
  "is_space c \<longleftrightarrow> c \<in> {CHR '' '', CHR 0x09, CHR 0x0A, CHR 0x0B, CHR 0x0C, CHR 0x0D}"

definition trim_end :: "string \<Rightarrow> string" where
  "trim_end s = rev (dropWhile is_space (rev s))"

definition base64_roundtrip :: "crypto_crate \<Rightarrow> bool" where
  "base64_roundtrip cr \<longleftrightarrow>
     (\<forall>b. base64_decode cr (base64_encode cr b) = Some b \<and>
          (\<forall>c \<in> set (base64_encode cr b). \<not> is_space c))"

type_synonym file_system = "path \<rightharpoonup> string"

definition load_base64_secret ::
  "crypto_crate \<Rightarrow> file_system \<Rightarrow> path \<Rightarrow> (error_kind, bytes) outcome" where
  "load_base64_secret cr fs path =
     obind (ok_or IoError (fs path)) (\<lambda>base64_data.
       ok_or IoError (base64_decode cr (trim_end base64_data)))"

text \<open>The secret and the public half of a key pair.\<close>

definition load_base64_ed25519_key ::
  "crypto_crate \<Rightarrow> file_system \<Rightarrow> path \<Rightarrow> (error_kind, bytes \<times> bytes) outcome" where
  "load_base64_ed25519_key cr fs path =
     obind (load_base64_secret cr fs path) (\<lambda>key_bytes.
       if ed25519_secret cr key_bytes then Done (key_bytes, ed25519_public cr key_bytes)
       else Failed InvalidKey)"

text \<open>
  Opening truncates the file; a write that fails later leaves some prefix of the data.
\<close>

datatype secret_write = Secret_written | Open_fails | Write_stops nat

definition write_base64_secret ::
  "crypto_crate \<Rightarrow> secret_write \<Rightarrow> path \<Rightarrow> bytes \<Rightarrow> file_system \<Rightarrow> (file_system, error_kind, unit) run" where
  "write_base64_secret cr os path data fs =
     (let base64_data = base64_encode cr data
      in case os of
           Open_fails \<Rightarrow> (fs, Failed IoError)
         | Write_stops n \<Rightarrow> (fs(path \<mapsto> take n base64_data), Failed IoError)
         | Secret_written \<Rightarrow> (fs(path \<mapsto> base64_data), Done ()))"

text \<open>The random bytes are an argument: 32 of them.\<close>

definition SECRET_KEY_LENGTH :: nat where
  "SECRET_KEY_LENGTH = 32"

definition generate_key ::
  "crypto_crate \<Rightarrow> secret_write \<Rightarrow> bytes \<Rightarrow> path \<Rightarrow> file_system \<Rightarrow> (file_system, error_kind, unit) run" where
  "generate_key cr os random path fs =
     write_base64_secret cr os path (take SECRET_KEY_LENGTH random) fs"

section \<open>Adding a key to several chains\<close>

definition add_to_chains ::
  "(chain_id \<Rightarrow> signer \<Rightarrow> registry \<Rightarrow> (registry, error_kind, unit) run) \<Rightarrow> signer
     \<Rightarrow> chain_id list \<Rightarrow> registry \<Rightarrow> (registry, error_kind, unit) run" where
  "add_to_chains add signer chain_ids registry = for_each (\<lambda>c. add c signer) chain_ids registry"

definition key_panic :: panic_payload where
  "key_panic = Payload_String ''invalid public key''"

definition unreachable_panic :: panic_payload where
  "unreachable_panic =
     Payload_String ''internal error: entered unreachable code: unsupported priv_validator.json algorithm''"

section \<open>The software signer\<close>

text \<open>\<open>load_json\<close> is \<^verbatim>\<open>PrivValidatorKey::load_json_file\<close>, down to its private key.\<close>

datatype private_key = Ed25519_private bytes bytes | Other_private

definition load_ed25519_key ::
  "crypto_crate \<Rightarrow> (path \<Rightarrow> private_key option) \<Rightarrow> file_system \<Rightarrow> softsign_config
     \<Rightarrow> (error_kind, bytes \<times> bytes) outcome" where
  "load_ed25519_key cr load_json fs config =
     (case (case ss_key_format config of None \<Rightarrow> key_format_default | Some f \<Rightarrow> f) of
        Base64 \<Rightarrow> load_base64_ed25519_key cr fs (ss_path config)
      | Json \<Rightarrow>
          obind (ok_or ConfigError (load_json (ss_path config))) (\<lambda>private_key.
            case private_key of
              Ed25519_private secret public \<Rightarrow> Done (secret, public)
            | Other_private \<Rightarrow> Panicked unreachable_panic))"

definition load_secp256k1_key ::
  "crypto_crate \<Rightarrow> file_system \<Rightarrow> softsign_config \<Rightarrow> (error_kind, bytes) outcome" where
  "load_secp256k1_key cr fs config =
     (if (case ss_key_format config of None \<Rightarrow> key_format_default | Some f \<Rightarrow> f) \<noteq> Base64
      then Failed ConfigError
      else obind (load_base64_secret cr fs (ss_path config)) (\<lambda>key_bytes.
             if ecdsa_secret cr key_bytes then Done key_bytes else Failed ConfigError))"

text \<open>One turn of the loop; the flag says that a consensus key was already loaded.\<close>

definition softsign_init_key ::
  "crypto_crate \<Rightarrow> (path \<Rightarrow> private_key option) \<Rightarrow> file_system \<Rightarrow> softsign_config
     \<Rightarrow> registry \<times> bool \<Rightarrow> (registry \<times> bool, error_kind, unit) run" where
  "softsign_init_key cr load_json fs config s =
     (case s of (registry, loaded_consensus_key) \<Rightarrow>
        (case ss_key_type config of
           Account \<Rightarrow>
             rbind (s, load_secp256k1_key cr fs config) (\<lambda>s signing_key.
             rbind (s, unwrap_or_panic key_panic (from_raw_secp256k1 cr (ecdsa_public cr signing_key)))
               (\<lambda>s public_key.
                 case add_to_chains add_account_key
                        (ecdsa_signer_new SoftSign (AccountKey public_key)
                           (\<lambda>msg. Done (ecdsa_sign_with cr signing_key msg)))
                        (ss_chain_ids config) registry of
                   (registry', r) \<Rightarrow> ((registry', loaded_consensus_key), r)))
         | Consensus \<Rightarrow>
             if loaded_consensus_key then (s, Failed ConfigError)
             else rbind ((registry, True), load_ed25519_key cr load_json fs config)
               (\<lambda>s signing_key.
                 case signing_key of (secret, public) \<Rightarrow>
                   (case add_to_chains add_consensus_key
                           (signer_new SoftSign (ConsensusKey (Ed25519 public))
                              (\<lambda>msg. Done (ed25519_sign_with cr secret msg)))
                           (ss_chain_ids config) registry of
                      (registry', r) \<Rightarrow> ((registry', True), r)))))"

definition softsign_init ::
  "crypto_crate \<Rightarrow> (path \<Rightarrow> private_key option) \<Rightarrow> file_system \<Rightarrow> softsign_config list
     \<Rightarrow> registry \<Rightarrow> (registry, error_kind, unit) run" where
  "softsign_init cr load_json fs configs registry =
     (case for_each (softsign_init_key cr load_json fs) configs (registry, False) of
        ((registry', _), r) \<Rightarrow> (registry', r))"

section \<open>The YubiHSM\<close>

text \<open>
  What the device says of a key slot: the public key and the signing function, absent when
  the slot holds no such key.  \<open>hsm_client\<close> is how getting the client ends, the same for every key
  (\<^verbatim>\<open>crate::yubihsm::client()\<close>, \<open>hsm_client_guard\<close> in the theory \<open>Global_State\<close>): it is there, the
  process exits because of the configuration or the device, or it panics.  An exit is an error here:
  loading stops, and the start command makes \<^verbatim>\<open>process::exit(1)\<close> of every error of loading.
\<close>

record yubihsm_device =
  hsm_client :: "(error_kind, unit) outcome"
  hsm_ecdsa :: "u16 \<Rightarrow> (bytes \<times> (bytes \<Rightarrow> (unit, bytes) outcome)) option"
  hsm_ed25519 :: "u16 \<Rightarrow> (bytes \<times> (bytes \<Rightarrow> (unit, bytes) outcome)) option"

definition yubihsm_add_account_key ::
  "crypto_crate \<Rightarrow> yubihsm_device \<Rightarrow> yubihsm_key_config \<Rightarrow> registry \<Rightarrow> (registry, error_kind, unit) run" where
  "yubihsm_add_account_key cr hsm config registry =
     rbind (registry, hsm_client hsm) (\<lambda>registry _.
     rbind (registry, ok_or InvalidKey (hsm_ecdsa hsm (yk_key config))) (\<lambda>registry obj.
     rbind (registry, unwrap_or_panic key_panic (from_raw_secp256k1 cr (fst obj))) (\<lambda>registry public_key.
       add_to_chains add_account_key (ecdsa_signer_new Yubihsm (AccountKey public_key) (snd obj))
         (yk_chain_ids config) registry)))"

definition yubihsm_add_consensus_key ::
  "crypto_crate \<Rightarrow> yubihsm_device \<Rightarrow> yubihsm_key_config \<Rightarrow> registry \<Rightarrow> (registry, error_kind, unit) run" where
  "yubihsm_add_consensus_key cr hsm config registry =
     rbind (registry, hsm_client hsm) (\<lambda>registry _.
     rbind (registry, ok_or InvalidKey (hsm_ed25519 hsm (yk_key config))) (\<lambda>registry obj.
     rbind (registry, unwrap_or_panic key_panic (from_raw_ed25519 cr (fst obj))) (\<lambda>registry public_key.
       add_to_chains add_consensus_key (signer_new Yubihsm (ConsensusKey public_key) (snd obj))
         (yk_chain_ids config) registry)))"

definition yubihsm_init ::
  "crypto_crate \<Rightarrow> yubihsm_device \<Rightarrow> yubihsm_config list \<Rightarrow> registry \<Rightarrow> (registry, error_kind, unit) run" where
  "yubihsm_init cr hsm configs registry =
     (case configs of
        [] \<Rightarrow> (registry, Done ())
      | [config] \<Rightarrow>
          for_each (\<lambda>key. case yk_key_type key of
                       Account \<Rightarrow> yubihsm_add_account_key cr hsm key
                     | Consensus \<Rightarrow> yubihsm_add_consensus_key cr hsm key)
            (yc_keys config) registry
      | _ \<Rightarrow> (registry, Failed ConfigError))"

section \<open>The Ledger\<close>

text \<open>\<open>connect\<close> is the device, absent when none can be opened.\<close>

definition ledgertm_init ::
  "crypto_crate \<Rightarrow> device option \<Rightarrow> ledgertm_config list \<Rightarrow> registry \<Rightarrow> (registry, error_kind, unit) run" where
  "ledgertm_init cr connect configs registry =
     (case configs of
        [] \<Rightarrow> (registry, Done ())
      | [config] \<Rightarrow>
          rbind (registry, ok_or SigningError connect) (\<lambda>registry dev.
          rbind (registry, map_err (\<lambda>_. SigningError) (ledger_public_key (ed25519_public_ok cr) dev)) (\<lambda>registry pk.
          rbind (registry, unwrap_or_panic key_panic (from_raw_ed25519 cr pk)) (\<lambda>registry public_key.
            add_to_chains add_consensus_key
              (signer_new LedgerTm (ConsensusKey public_key) (ledger_try_sign dev))
              (lc_chain_ids config) registry)))
      | _ \<Rightarrow> (registry, Failed ConfigError))"

section \<open>Fortanix DSM\<close>

record url =
  url_scheme :: string
  url_path :: string
  url_query :: "string option"
  url_fragment :: "string option"

datatype elliptic_curve = SecP256K1 | Ed25519_curve | Other_curve

datatype object_type = Ec | Other_object

record sobject =
  so_obj_type :: object_type
  so_elliptic_curve :: "elliptic_curve option"
  so_pub_key :: "bytes option"

datatype digest_algorithm = Sha256 | Sha512

record sign_request =
  sr_key :: sobject_descriptor
  sr_data :: bytes
  sr_hash_alg :: digest_algorithm

record spki =
  spki_oid :: string
  spki_parameters :: "bytes option"
  spki_subject_public_key :: bytes

text \<open>The service, the URL parser and the DER decoders are parameters.\<close>

record dsm_service =
  dsm_url_parse :: "string \<Rightarrow> url option"
  dsm_build :: "string \<Rightarrow> string \<Rightarrow> bool"
  dsm_get_sobject :: "sobject_descriptor \<Rightarrow> sobject option"
  dsm_sign :: "sign_request \<Rightarrow> bytes option"
  dsm_secp256k1_from_der :: "bytes \<Rightarrow> public_key option"
  dsm_spki_from_der :: "bytes \<Rightarrow> spki option"
  dsm_ecdsa_from_der :: "bytes \<Rightarrow> bytes option"
  dsm_ed25519_signature :: "bytes \<Rightarrow> bytes option"

definition make_sdkms_client :: "dsm_service \<Rightarrow> fortanix_config \<Rightarrow> (error_kind, unit) outcome" where
  "make_sdkms_client dsm config =
     obind (ok_or FortanixDsmError (dsm_url_parse dsm (fc_api_endpoint config))) (\<lambda>api_endpoint.
       if url_scheme api_endpoint \<noteq> ''https'' then Failed FortanixDsmError
       else if url_path api_endpoint \<noteq> ''/'' then Failed FortanixDsmError
       else if url_query api_endpoint \<noteq> None \<or> url_fragment api_endpoint \<noteq> None
       then Failed FortanixDsmError
       else if dsm_build dsm (fc_api_endpoint config) (fc_api_key config) then Done ()
       else Failed FortanixDsmError)"

definition ED_25519_OID :: string where
  "ED_25519_OID = ''1.3.101.112''"

definition ed25519_from_spki :: "crypto_crate \<Rightarrow> spki \<Rightarrow> bytes option" where
  "ed25519_from_spki cr k =
     (if spki_oid k \<noteq> ED_25519_OID then None
      else if spki_parameters k \<noteq> None then None
      else if ed25519_public_ok cr (spki_subject_public_key k) then Some (spki_subject_public_key k)
      else None)"

record fortanix_signing_key =
  fsk_descriptor :: sobject_descriptor
  fsk_elliptic_curve :: elliptic_curve

fun required_curve :: "key_type \<Rightarrow> elliptic_curve" where
  "required_curve Account = SecP256K1"
| "required_curve Consensus = Ed25519_curve"

definition fortanix_key_new ::
  "crypto_crate \<Rightarrow> dsm_service \<Rightarrow> key_descriptor \<Rightarrow> key_type
     \<Rightarrow> (error_kind, fortanix_signing_key \<times> tendermint_key) outcome" where
  "fortanix_key_new cr dsm descriptor key_type =
     obind (ok_or FortanixDsmError (dsm_get_sobject dsm (sobject_descriptor_from descriptor))) (\<lambda>key.
       if so_obj_type key \<noteq> Ec then Failed FortanixDsmError
       else if so_elliptic_curve key \<noteq> Some (required_curve key_type) then Failed FortanixDsmError
       else obind (ok_or FortanixDsmError (so_pub_key key)) (\<lambda>der.
            obind (case key_type of
                     Account \<Rightarrow> map_err (\<lambda>_. FortanixDsmError)
                       (obind (ok_or () (dsm_secp256k1_from_der dsm der)) (\<lambda>pk. Done (AccountKey pk)))
                   | Consensus \<Rightarrow> map_err (\<lambda>_. FortanixDsmError)
                       (obind (ok_or () (Option.bind (dsm_spki_from_der dsm der) (ed25519_from_spki cr)))
                          (\<lambda>pk. Done (ConsensusKey (Ed25519 pk))))) (\<lambda>public_key.
              Done (\<lparr>fsk_descriptor = sobject_descriptor_from descriptor,
                     fsk_elliptic_curve = required_curve key_type\<rparr>, public_key))))"

definition fortanix_sign ::
  "dsm_service \<Rightarrow> fortanix_signing_key \<Rightarrow> bytes \<Rightarrow> digest_algorithm \<Rightarrow> (unit, bytes) outcome" where
  "fortanix_sign dsm self msg hash_alg =
     ok_or () (dsm_sign dsm \<lparr>sr_key = fsk_descriptor self, sr_data = msg, sr_hash_alg = hash_alg\<rparr>)"

definition curve_panic :: panic_payload where
  "curve_panic = Payload_String ''assertion failed: `(left == right)`''"

definition fortanix_try_sign_ecdsa ::
  "dsm_service \<Rightarrow> fortanix_signing_key \<Rightarrow> bytes \<Rightarrow> (unit, bytes) outcome" where
  "fortanix_try_sign_ecdsa dsm self msg =
     (if fsk_elliptic_curve self \<noteq> SecP256K1 then Panicked curve_panic
      else obind (fortanix_sign dsm self msg Sha256) (\<lambda>sig. ok_or () (dsm_ecdsa_from_der dsm sig)))"

definition fortanix_try_sign_ed25519 ::
  "dsm_service \<Rightarrow> fortanix_signing_key \<Rightarrow> bytes \<Rightarrow> (unit, bytes) outcome" where
  "fortanix_try_sign_ed25519 dsm self msg =
     (if fsk_elliptic_curve self \<noteq> Ed25519_curve then Panicked curve_panic
      else obind (fortanix_sign dsm self msg Sha512) (\<lambda>sig. ok_or () (dsm_ed25519_signature dsm sig)))"

definition fortanix_add_key ::
  "crypto_crate \<Rightarrow> dsm_service \<Rightarrow> fortanix_key_config \<Rightarrow> registry \<Rightarrow> (registry, error_kind, unit) run" where
  "fortanix_add_key cr dsm config registry =
     rbind (registry, fortanix_key_new cr dsm (fk_key config) (fk_key_type config)) (\<lambda>registry key.
       case fk_key_type config of
         Account \<Rightarrow>
           add_to_chains add_account_key
             (ecdsa_signer_new FortanixDsm (snd key) (fortanix_try_sign_ecdsa dsm (fst key)))
             (fk_chain_ids config) registry
       | Consensus \<Rightarrow>
           add_to_chains add_consensus_key
             (signer_new FortanixDsm (snd key) (fortanix_try_sign_ed25519 dsm (fst key)))
             (fk_chain_ids config) registry)"

definition fortanixdsm_init ::
  "crypto_crate \<Rightarrow> dsm_service \<Rightarrow> fortanix_config list \<Rightarrow> registry \<Rightarrow> (registry, error_kind, unit) run" where
  "fortanixdsm_init cr dsm configs registry =
     for_each (\<lambda>config registry.
         rbind (registry, make_sdkms_client dsm config) (\<lambda>registry _.
           for_each (fortanix_add_key cr dsm) (fc_signing_keys config) registry))
       configs registry"

section \<open>Loading the configuration\<close>

text \<open>Everything outside the process that the providers talk to.\<close>

record key_sources =
  ks_crypto :: crypto_crate
  ks_files :: file_system
  ks_load_json :: "path \<Rightarrow> private_key option"
  ks_yubihsm :: yubihsm_device
  ks_ledger :: "device option"
  ks_dsm :: dsm_service

definition keyring_load_config ::
  "key_sources \<Rightarrow> provider_config \<Rightarrow> registry \<Rightarrow> (registry, error_kind, unit) run" where
  "keyring_load_config ks config registry =
     rbind (softsign_init (ks_crypto ks) (ks_load_json ks) (ks_files ks) (pc_softsign config) registry) (\<lambda>registry _.
     rbind (yubihsm_init (ks_crypto ks) (ks_yubihsm ks) (pc_yubihsm config) registry) (\<lambda>registry _.
     rbind (ledgertm_init (ks_crypto ks) (ks_ledger ks) (pc_ledgertm config) registry) (\<lambda>registry _.
       fortanixdsm_init (ks_crypto ks) (ks_dsm ks) (pc_fortanixdsm config) registry)))"

definition chain_load_config ::
  "tendermint_crate \<Rightarrow> state_json \<Rightarrow> (chain_config \<Rightarrow> chain_env) \<Rightarrow> key_sources \<Rightarrow> kms_config
     \<Rightarrow> registry \<times> disk \<Rightarrow> (registry \<times> disk, error_kind, unit) run" where
  "chain_load_config tm js env ks config s =
     rbind (load_chains tm js env (kc_chain config) s) (\<lambda>s _.
       case s of (registry, disk) \<Rightarrow>
         (case keyring_load_config ks (kc_providers config) registry of
            (registry', r) \<Rightarrow> ((registry', disk), r)))"

section \<open>Secrets survive a round trip\<close>

lemma trim_end_no_space: "(\<forall>c \<in> set s. \<not> is_space c) \<Longrightarrow> trim_end s = s"
  by (cases s rule: rev_cases) (simp_all add: trim_end_def)

text \<open>
  A secret written to a file is read back as it was; a write that fails reports an I/O
  error and touches no other file.
\<close>

theorem secret_roundtrip:
  assumes "base64_roundtrip cr" and "write_base64_secret cr os path data fs = (fs', r)"
  shows "(r = Done () \<longrightarrow> load_base64_secret cr fs' path = Done data) \<and>
    (r \<noteq> Done () \<longrightarrow> r = Failed IoError) \<and> (\<forall>q. q \<noteq> path \<longrightarrow> fs' q = fs q)"
  using assms trim_end_no_space [of "base64_encode cr data"]
  by (auto simp: write_base64_secret_def load_base64_secret_def base64_roundtrip_def Let_def
      split: secret_write.splits)

text \<open>A concrete text encoding of bytes, two letters for each, that satisfies the law.\<close>

definition nibble :: "nat \<Rightarrow> char" where
  "nibble k = char_of (97 + k)"

fun letters_encode :: "bytes \<Rightarrow> string" where
  "letters_encode [] = []"
| "letters_encode (b # bs) = nibble (unat b div 16) # nibble (unat b mod 16) # letters_encode bs"

fun letters_decode :: "string \<Rightarrow> bytes option" where
  "letters_decode [] = Some []"
| "letters_decode [c] = None"
| "letters_decode (c # d # cs) =
     map_option ((#) (word_of_nat (16 * (of_char c - 97) + (of_char d - 97)))) (letters_decode cs)"

definition sample_crypto :: crypto_crate where
  "sample_crypto =
     \<lparr>base64_encode = letters_encode, base64_decode = letters_decode,
      ed25519_secret = (\<lambda>b. True), ed25519_public = rev, ed25519_sign_with = (@),
      ecdsa_secret = (\<lambda>b. True), ecdsa_public = rev, ecdsa_sign_with = (@),
      from_raw_secp256k1 = (\<lambda>b. Some (Secp256k1 b)), from_raw_ed25519 = (\<lambda>b. Some (Ed25519 b)),
      ed25519_public_ok = (\<lambda>b. True)\<rparr>"

lemma nibble_value [simp]: "k < 16 \<Longrightarrow> of_char (nibble k) = 97 + k"
  by (simp add: nibble_def)

lemma byte_div_16: "unat (b :: u8) div 16 < 16"
proof -
  have "unat b < 256" by (rule order.strict_trans2 [OF unsigned_less]) simp
  then show ?thesis by (simp add: less_mult_imp_div_less)
qed

lemma letters_roundtrip: "letters_decode (letters_encode b) = Some b"
proof (induction b)
  case (Cons x b)
  have "16 * (unat x div 16) + unat x mod 16 = unat x" by simp
  then show ?case using Cons byte_div_16 [of x] by (simp del: of_nat_add of_nat_mult)
qed simp

lemma space_value: "is_space c \<Longrightarrow> of_char c \<le> (32 :: nat)"
  by (auto simp: is_space_def)

lemma nibble_no_space: "k < 16 \<Longrightarrow> \<not> is_space (nibble k)"
  using space_value [of "nibble k"] by auto

lemma letters_no_space: "c \<in> set (letters_encode b) \<Longrightarrow> \<not> is_space c"
  by (induction b) (auto simp: nibble_no_space byte_div_16)

lemma sample_base64: "base64_roundtrip sample_crypto"
  by (auto simp: base64_roundtrip_def sample_crypto_def letters_roundtrip letters_no_space)

definition key_path :: path where
  "key_path = \<lparr>path_absolute = True, path_components = [''k'']\<rparr>"

theorem secret_roundtrip_witness:
  "load_base64_secret sample_crypto (fst (write_base64_secret sample_crypto Secret_written key_path [7, 9] Map.empty))
     key_path = Done [7, 9]"
  using secret_roundtrip [OF sample_base64, of Secret_written key_path "[7, 9]" Map.empty]
  by (simp add: write_base64_secret_def Let_def)

section \<open>What loading keeps of every chain\<close>

text \<open>
  The contracts between loading the chains and adding keys to them.  \<open>registry_invariant\<close>: a
  property of the registry that is kept when the keyring of one chain gets another signer; it
  is kept by every provider, and by loading all of them.  \<open>chain_source\<close>: a property of chains
  that holds for each chain as it comes from its configuration; it holds for every chain of the
  registry once the chains are loaded.  \<open>chain_invariant\<close>: adding a signer to its keyring keeps
  the property as well; it then holds after the whole configuration was loaded, however that
  ended.
\<close>

lemma rbind_invariant:
  "(\<And>a. x = Done a \<Longrightarrow> I (fst (f s a))) \<Longrightarrow> I s \<Longrightarrow> I (fst (rbind (s, x) f))"
  by (cases x) auto

locale registry_invariant =
  fixes I :: "registry \<Rightarrow> bool"
  assumes keeps_ecdsa: "I reg \<Longrightarrow> reg c = Some chain \<Longrightarrow>
      I (reg(c \<mapsto> chain\<lparr>ch_keyring := fst (add_ecdsa s (ch_keyring chain))\<rparr>))"
    and keeps_ed25519: "I reg \<Longrightarrow> reg c = Some chain \<Longrightarrow>
      I (reg(c \<mapsto> chain\<lparr>ch_keyring := fst (add_ed25519 s (ch_keyring chain))\<rparr>))"
begin

lemma kept_add_account_key: "I reg \<Longrightarrow> I (fst (add_account_key c s reg))"
  by (simp add: add_account_key_def case_prod_unfold keeps_ecdsa split: option.splits)

lemma kept_add_consensus_key: "I reg \<Longrightarrow> I (fst (add_consensus_key c s reg))"
  by (simp add: add_consensus_key_def case_prod_unfold keeps_ed25519 split: option.splits)

lemmas kept_for_each = for_each_invariant [where I = I]
lemmas kept_rbind = rbind_invariant [where I = I]
lemmas kept_rbind_fst = rbind_invariant [where I = "\<lambda>s. I (fst s)"]

lemma kept_add_to_chains:
  "I reg \<Longrightarrow> I (fst (add_to_chains add_account_key s cs reg))"
  "I reg \<Longrightarrow> I (fst (add_to_chains add_consensus_key s cs reg))"
  unfolding add_to_chains_def
  by (rule kept_for_each; simp add: kept_add_account_key kept_add_consensus_key)+

lemma kept_softsign_key:
  assumes "I (fst s)"
  shows "I (fst (fst (softsign_init_key cr lj fs config s)))"
proof (cases s)
  case (Pair reg loaded)
  then have reg: "I reg" using assms by simp
  show ?thesis
    using reg Pair
    by (cases "ss_key_type config")
      (auto simp: softsign_init_key_def case_prod_unfold kept_add_to_chains intro!: kept_rbind_fst)
qed

lemma kept_softsign: "I reg \<Longrightarrow> I (fst (softsign_init cr lj fs cs reg))"
  using for_each_invariant [of cs "\<lambda>s. I (fst s)" "softsign_init_key cr lj fs" "(reg, False)"]
  by (simp add: softsign_init_def kept_softsign_key case_prod_unfold)

lemma kept_yubihsm: "I reg \<Longrightarrow> I (fst (yubihsm_init cr hsm cs reg))"
proof -
  have "I (fst (yubihsm_add_account_key cr hsm k r))"
    and "I (fst (yubihsm_add_consensus_key cr hsm k r))" if "I r" for k r
    using that unfolding yubihsm_add_account_key_def yubihsm_add_consensus_key_def
    by (auto intro!: kept_rbind kept_add_to_chains)
  then show "I reg \<Longrightarrow> I (fst (yubihsm_init cr hsm cs reg))"
    by (auto simp: yubihsm_init_def split: list.splits key_type.splits intro!: kept_for_each)
qed

lemma kept_ledgertm: "I reg \<Longrightarrow> I (fst (ledgertm_init cr dev cs reg))"
  by (auto simp: ledgertm_init_def split: list.splits intro!: kept_rbind kept_add_to_chains)

lemma kept_fortanix: "I reg \<Longrightarrow> I (fst (fortanixdsm_init cr dsm cs reg))"
  unfolding fortanixdsm_init_def
  by (rule kept_for_each, rule kept_rbind, rule kept_for_each)
    (auto simp: fortanix_add_key_def split: key_type.splits intro!: kept_rbind kept_add_to_chains)

lemma kept_keyring_load:
  assumes "I reg"
  shows "I (fst (keyring_load_config ks config reg))"
  unfolding keyring_load_config_def
  by (intro rbind_keeps [where I = I] kept_softsign kept_yubihsm kept_ledgertm kept_fortanix assms)

text \<open>What holds once the chains are loaded holds once the keys are loaded too.\<close>

lemma kept_loaded:
  assumes "I (fst (fst (load_chains tm js env (kc_chain config) s)))"
  shows "I (fst (fst (chain_load_config tm js env ks config s)))"
  using assms
  by (auto simp: chain_load_config_def rbind_split case_prod_unfold kept_keyring_load split: outcome.splits)

end

locale chain_source =
  fixes configs :: "chain_config list" and P :: "chain_id \<Rightarrow> chain \<Rightarrow> bool"
  assumes from_config: "config \<in> set configs \<Longrightarrow>
      chain_from_config tm js env config d = (d', Done chain) \<Longrightarrow> P (ch_id chain) chain"
begin

lemma all_load_chains:
  assumes "registry_all P (fst s)"
  shows "registry_all P (fst (fst (load_chains tm js env configs s)))"
proof -
  have "registry_all P (fst (fst (register_config tm js env c t)))"
    if "c \<in> set configs" "registry_all P (fst t)" for c t
  proof (cases "chain_from_config tm js (env c) c (snd t)")
    case (Pair d r)
    show ?thesis
      using that(2) Pair from_config [OF that(1), of tm js "env c" "snd t"]
      by (cases r) (auto simp: register_config_def register_chain_def registry_all_def case_prod_unfold)
  qed
  with assms show ?thesis
    unfolding load_chains_def by (intro for_each_invariant [of _ "\<lambda>s. registry_all P (fst s)"])
qed

end

locale chain_invariant = chain_source +
  assumes chain_keeps_ecdsa: "P c chain \<Longrightarrow> P c (chain\<lparr>ch_keyring := fst (add_ecdsa s (ch_keyring chain))\<rparr>)"
    and chain_keeps_ed25519: "P c chain \<Longrightarrow> P c (chain\<lparr>ch_keyring := fst (add_ed25519 s (ch_keyring chain))\<rparr>)"

sublocale chain_invariant \<subseteq> keyed: registry_invariant "registry_all P"
  by unfold_locales (simp_all add: registry_all_def chain_keeps_ecdsa chain_keeps_ed25519)

context chain_invariant
begin

lemma all_loaded:
  assumes "kc_chain config = configs"
  shows "registry_all P (fst (fst (chain_load_config tm js env ks config (Map.empty, d))))"
  using all_load_chains [of "(Map.empty, d)" tm js env] assms by (intro keyed.kept_loaded) simp

end

text \<open>Adding keys neither adds nor removes chains, and leaves their states alone.\<close>

interpretation kept_chains: registry_invariant "\<lambda>reg. map_option ch_state \<circ> reg = states" for states
  by unfold_locales (auto simp: fun_eq_iff, (metis option.map(2))+)

interpretation empty_keyrings: chain_source configs
  "\<lambda>c chain. kr_ed25519_keys (ch_keyring chain) = []" for configs
  by unfold_locales (auto dest: chain_from_config_DoneD simp: keyring_new_def)

text \<open>
  Three properties that fit: the well-formedness of the registry, locks that are not poisoned,
  and state files as configured.
\<close>

interpretation wf_chains: chain_invariant configs
  "\<lambda>c chain. ch_id chain = c \<and> keyring_wf (ch_keyring chain)" for configs
  by unfold_locales (auto dest: chain_from_config_DoneD)

interpretation unpoisoned_chains: chain_invariant configs "\<lambda>c chain. \<not> poisoned (ch_state chain)" for configs
  by unfold_locales (auto dest: chain_from_config_DoneD)

interpretation filed_chains: chain_invariant configs
  "\<lambda>c chain. \<exists>config \<in> set configs. cc_id config = c \<and> state_file_of chain = config_state_file config"
  for configs
  by unfold_locales
    (metis chain_from_config_DoneD(1) chain_from_config_path state_file_of_def, simp_all add: state_file_of_def)

text \<open>
  C27: however loading the configuration ends, and whatever the key stores answer, every chain
  of the registry is filed under its own ID, and in its keyring every signer is filed under
  its own public key, ECDSA keys are account keys and Ed25519 keys are consensus keys, and no
  key occurs twice.
\<close>

theorem loaded_registry_wf:
  "registry_wf (fst (fst (chain_load_config tm js env ks config (Map.empty, d))))"
  unfolding registry_wf_all by (rule wf_chains.all_loaded) (rule refl)

text \<open>Chains that are configured with different state files.\<close>

definition separate_config :: "kms_config \<Rightarrow> bool" where
  "separate_config config \<longleftrightarrow>
     (\<forall>a \<in> set (kc_chain config). \<forall>b \<in> set (kc_chain config).
        cc_id a \<noteq> cc_id b \<longrightarrow> config_state_file a \<noteq> config_state_file b)"

lemma loaded_separate:
  assumes "separate_config config"
  shows "separate_files (fst (fst (chain_load_config tm js env ks config (Map.empty, d))))"
proof -
  have "registry_all (\<lambda>c chain. \<exists>cfg \<in> set (kc_chain config).
      cc_id cfg = c \<and> state_file_of chain = config_state_file cfg)
      (fst (fst (chain_load_config tm js env ks config (Map.empty, d))))"
    by (rule filed_chains.all_loaded) (rule refl)
  then show ?thesis
    using assms unfolding registry_all_def separate_files_def separate_config_def by (metis (no_types, lifting))
qed

definition two_chains :: kms_config where
  "two_chains =
     \<lparr>kc_chain = [\<lparr>cc_id = ''a'', cc_key_format = Hex, cc_state_file = None, cc_state_hook = None\<rparr>,
                  \<lparr>cc_id = ''b'', cc_key_format = Hex, cc_state_file = None, cc_state_hook = None\<rparr>],
      kc_providers = \<lparr>pc_softsign = [], pc_yubihsm = [], pc_ledgertm = [], pc_fortanixdsm = []\<rparr>,
      kc_validator = [], kc_tx_signer = []\<rparr>"

lemma two_chains_separate: "separate_config two_chains"
  by (simp add: separate_config_def two_chains_def config_state_file_def default_state_file_def path_from_def
      keep_component_def Let_def)

section \<open>Consensus keys\<close>

lemma softsign_init_key_flag:
  assumes "softsign_init_key cr lj fs config (reg, loaded) = ((reg', loaded'), Done ())"
  shows "loaded' \<longleftrightarrow> loaded \<or> ss_key_type config = Consensus"
    and "ss_key_type config = Consensus \<Longrightarrow> \<not> loaded"
  using assms unfolding softsign_init_key_def
  by (auto split: key_type.splits if_splits prod.splits dest!: rbind_DoneD)

lemma softsign_at_most_one:
  "for_each (softsign_init_key cr lj fs) configs (reg, loaded) = (s, Done ()) \<Longrightarrow>
     length (filter (\<lambda>c. ss_key_type c = Consensus) configs) \<le> (if loaded then 0 else 1)"
proof (induction configs arbitrary: reg loaded)
  case Nil
  then show ?case by simp
next
  case (Cons c cs)
  obtain reg' loaded' where step: "softsign_init_key cr lj fs c (reg, loaded) = ((reg', loaded'), Done ())"
    and rest: "for_each (softsign_init_key cr lj fs) cs (reg', loaded') = (s, Done ())"
    using Cons.prems by (auto dest!: rbind_DoneD)
  show ?case using Cons.IH [OF rest] softsign_init_key_flag [OF step] by (auto split: if_splits)
qed

text \<open>
  The software signer starts only with at most one consensus key in its configuration.
\<close>

theorem softsign_single_consensus_key:
  assumes "snd (softsign_init cr lj fs configs reg) = Done ()"
  shows "length (filter (\<lambda>c. ss_key_type c = Consensus) configs) \<le> 1"
proof -
  obtain s where "for_each (softsign_init_key cr lj fs) configs (reg, False) = (s, Done ())"
    using assms by (auto simp: softsign_init_def case_prod_unfold prod_eq_iff)
  then show ?thesis using softsign_at_most_one by fastforce
qed

definition sample_softsign :: softsign_config where
  "sample_softsign = \<lparr>ss_chain_ids = [''c''], ss_key_type = Consensus, ss_key_format = None, ss_path = key_path\<rparr>"

definition sample_files :: file_system where
  "sample_files = [key_path \<mapsto> letters_encode [7, 9] @ [CHR 0x0A]]"

lemma sample_secret: "load_base64_secret sample_crypto sample_files key_path = Done [7, 9]"
proof -
  have "trim_end (letters_encode [7, 9] @ [CHR 0x0A]) = trim_end (letters_encode [7, 9])"
    by (simp add: trim_end_def is_space_def)
  also have "\<dots> = letters_encode [7, 9]"
    by (rule trim_end_no_space) (blast dest: letters_no_space)
  finally show ?thesis
    by (simp add: load_base64_secret_def sample_files_def sample_crypto_def letters_roundtrip
        del: letters_encode.simps)
qed

definition sample_registry :: registry where
  "sample_registry = [''c'' \<mapsto> \<lparr>ch_id = ''c'', ch_keyring = keyring_new Hex,
     ch_state = mutex_new \<lparr>st_consensus_state =
       \<lparr>cs_height = 0, cs_round = 0, cs_step = 0, cs_block_id = None\<rparr>, st_state_file_path = key_path\<rparr>\<rparr>]"

lemma sample_key: "load_ed25519_key sample_crypto lj sample_files sample_softsign = Done ([7, 9], [9, 7])"
  by (simp add: load_ed25519_key_def sample_softsign_def key_format_default_def
      load_base64_ed25519_key_def sample_secret) (simp add: sample_crypto_def)

theorem softsign_single_consensus_key_witness:
  "snd (softsign_init sample_crypto (\<lambda>_. None) sample_files [sample_softsign] sample_registry) = Done () \<and>
   length (filter (\<lambda>c. ss_key_type c = Consensus) [sample_softsign]) \<le> 1"
proof -
  have run: "snd (softsign_init sample_crypto (\<lambda>_. None) sample_files [sample_softsign] sample_registry) = Done ()"
    using sample_key
    by (simp add: softsign_init_def softsign_init_key_def sample_softsign_def add_to_chains_def
        add_consensus_key_def add_ed25519_def sample_registry_def keyring_new_def signer_new_def ecdsa_signer_new_def Let_def)
  from softsign_single_consensus_key [OF run] show ?thesis using run by simp
qed

lemma add_key_no_panic:
  "sg_public_key s = AccountKey pk \<Longrightarrow> \<not> is_panic (snd (add_account_key c s r))"
  "sg_public_key s = ConsensusKey pk \<Longrightarrow> \<not> is_panic (snd (add_consensus_key c s r))"
  by (auto simp: add_account_key_def add_consensus_key_def add_ecdsa_def add_ed25519_def Let_def
      split: option.splits)

lemma fortanix_key_new_DoneD:
  assumes "fortanix_key_new cr dsm descr t = Done (key, pk)"
  shows "fsk_elliptic_curve key = required_curve t"
    and "case t of Account \<Rightarrow> \<exists>k. pk = AccountKey k | Consensus \<Rightarrow> \<exists>k. pk = ConsensusKey k"
  using assms by (cases t; auto simp: fortanix_key_new_def obind_Done_iff split: if_splits)+

lemma fortanix_key_new_no_panic: "\<not> is_panic (fortanix_key_new cr dsm descr t)"
  by (auto simp: fortanix_key_new_def is_panic_obind split: key_type.splits)

lemma fortanix_add_key_no_panic: "\<not> is_panic (snd (fortanix_add_key cr dsm config reg))"
proof (cases "fortanix_key_new cr dsm (fk_key config) (fk_key_type config)")
  case (Done x)
  obtain key pk where x: "x = (key, pk)" by (cases x)
  have pk: "case fk_key_type config of Account \<Rightarrow> \<exists>k. pk = AccountKey k | Consensus \<Rightarrow> \<exists>k. pk = ConsensusKey k"
    by (rule fortanix_key_new_DoneD(2) [OF Done [unfolded x]])
  show ?thesis
  proof (cases "fk_key_type config")
    case Account
    then obtain k where "pk = AccountKey k" using pk by auto
    then show ?thesis
      using Account Done x add_key_no_panic(1)
      by (simp add: fortanix_add_key_def add_to_chains_def signer_new_def ecdsa_signer_new_def for_each_no_panic)
  next
    case Consensus
    then obtain k where "pk = ConsensusKey k" using pk by auto
    then show ?thesis
      using Consensus Done x add_key_no_panic(2)
      by (simp add: fortanix_add_key_def add_to_chains_def signer_new_def ecdsa_signer_new_def for_each_no_panic)
  qed
next
  case (Panicked p)
  then show ?thesis using fortanix_key_new_no_panic [of cr dsm "fk_key config" "fk_key_type config"] by simp
qed (simp add: fortanix_add_key_def)

text \<open>
  Whatever the DSM service answers, setting up its keys never panics, and a key it makes
  signs without hitting the curve assertion of the two signer implementations.
\<close>

theorem fortanix_setup_safe:
  "\<not> is_panic (snd (fortanixdsm_init cr dsm configs reg)) \<and>
   \<not> is_panic (obind (map_err (\<lambda>_. ()) (fortanix_key_new cr dsm descr t)) (\<lambda>(key, pk).
       case t of Account \<Rightarrow> fortanix_try_sign_ecdsa dsm key msg
               | Consensus \<Rightarrow> fortanix_try_sign_ed25519 dsm key msg))"
proof
  show "\<not> is_panic (snd (fortanixdsm_init cr dsm configs reg))"
    unfolding fortanixdsm_init_def
  proof (rule for_each_no_panic)
    fix config s
    show "\<not> is_panic (snd (rbind (s, make_sdkms_client dsm config)
        (\<lambda>registry _. for_each (fortanix_add_key cr dsm) (fc_signing_keys config) registry)))"
      using for_each_no_panic [of "fortanix_add_key cr dsm"]
      by (auto simp: is_panic_rbind make_sdkms_client_def is_panic_obind fortanix_add_key_no_panic)
  qed
  show "\<not> is_panic (obind (map_err (\<lambda>_. ()) (fortanix_key_new cr dsm descr t)) (\<lambda>(key, pk).
       case t of Account \<Rightarrow> fortanix_try_sign_ecdsa dsm key msg
               | Consensus \<Rightarrow> fortanix_try_sign_ed25519 dsm key msg))"
    using fortanix_key_new_no_panic [of cr dsm descr t]
    by (cases "fortanix_key_new cr dsm descr t")
      (auto simp: fortanix_try_sign_ecdsa_def fortanix_try_sign_ed25519_def fortanix_sign_def is_panic_obind
        dest: fortanix_key_new_DoneD(1) split: key_type.splits)
qed

section \<open>A key reaches the chains it is configured for\<close>

definition with_consensus_key :: "signer \<Rightarrow> chain \<Rightarrow> chain" where
  "with_consensus_key s chain = chain\<lparr>ch_keyring := fst (add_ed25519 s (ch_keyring chain))\<rparr>"

lemma add_consensus_key_DoneD:
  assumes "add_consensus_key c s reg = (reg', Done ())" and "sg_public_key s = ConsensusKey pk"
  obtains chain where "reg c = Some chain" "reg' = reg(c \<mapsto> with_consensus_key s chain)"
    "map_of (kr_ed25519_keys (ch_keyring chain)) (sg_public_key s) = None"
    "map_of (kr_ed25519_keys (ch_keyring (with_consensus_key s chain))) (sg_public_key s) \<noteq> None"
  using assms
  by (auto simp: add_consensus_key_def with_consensus_key_def add_ed25519_def Let_def
      split: option.splits prod.splits)

lemma add_to_chains_DoneD:
  assumes "add_to_chains add_consensus_key s cs reg = (reg', Done ())" and "sg_public_key s = ConsensusKey pk"
  shows "(\<forall>c \<in> set cs. \<exists>chain. reg c = Some chain \<and>
      map_of (kr_ed25519_keys (ch_keyring chain)) (sg_public_key s) = None \<and>
      reg' c = Some (with_consensus_key s chain)) \<and> (\<forall>c. c \<notin> set cs \<longrightarrow> reg' c = reg c)"
  using assms(1)
proof (induction cs arbitrary: reg)
  case Nil
  then show ?case by (simp add: add_to_chains_def)
next
  case (Cons c cs)
  obtain reg1 where one: "add_consensus_key c s reg = (reg1, Done ())"
    and rest: "add_to_chains add_consensus_key s cs reg1 = (reg', Done ())"
    using Cons.prems by (auto simp: add_to_chains_def dest!: rbind_DoneD)
  obtain chain where ch: "reg c = Some chain" "reg1 = reg(c \<mapsto> with_consensus_key s chain)"
    "map_of (kr_ed25519_keys (ch_keyring chain)) (sg_public_key s) = None"
    "map_of (kr_ed25519_keys (ch_keyring (with_consensus_key s chain))) (sg_public_key s) \<noteq> None"
    by (rule add_consensus_key_DoneD [OF one assms(2)])
  note IH = Cons.IH [OF rest]
  then have fresh: "c \<notin> set cs" using ch(2,4) by auto
  then have "reg1 x = reg x" if "x \<in> set cs" for x using that ch(2) by auto
  then show ?case using IH ch fresh by auto
qed

text \<open>
  With one software consensus key configured, every chain it names signs with exactly that
  key and reports its public key, once the configuration is loaded.
\<close>

theorem softsign_key_is_used:
  assumes "chain_load_config tm js env ks config (Map.empty, d) = ((reg, d'), Done ())"
    and "kc_providers config = \<lparr>pc_softsign = [s], pc_yubihsm = [], pc_ledgertm = [], pc_fortanixdsm = []\<rparr>"
    and "ss_key_type s = Consensus" and "c \<in> set (ss_chain_ids s)"
    and "load_ed25519_key (ks_crypto ks) (ks_load_json ks) (ks_files ks) s = Done (secret, public)"
  shows "\<exists>chain. reg c = Some chain \<and>
    sign_ed25519 None msg (ch_keyring chain) = Done (ed25519_sign_with (ks_crypto ks) secret msg) \<and>
    default_ed25519_pubkey (ch_keyring chain) = Done (ConsensusKey (Ed25519 public))"
proof -
  define signer where "signer = signer_new SoftSign (ConsensusKey (Ed25519 public))
    (\<lambda>m. Done (ed25519_sign_with (ks_crypto ks) secret m))"
  obtain reg0 where load: "load_chains tm js env (kc_chain config) (Map.empty, d) = ((reg0, d'), Done ())"
    and keys: "keyring_load_config ks (kc_providers config) reg0 = (reg, Done ())"
    using assms(1) unfolding chain_load_config_def
    by (auto dest!: rbind_DoneD split: prod.splits)
  have "add_to_chains add_consensus_key signer (ss_chain_ids s) reg0 = (reg, Done ())"
    using keys assms(2,3,5)
    by (auto simp: keyring_load_config_def softsign_init_def softsign_init_key_def signer_def
        yubihsm_init_def ledgertm_init_def fortanixdsm_init_def split: prod.splits dest!: rbind_DoneD)
  then obtain chain where ch: "reg0 c = Some chain" "reg c = Some (with_consensus_key signer chain)"
    using add_to_chains_DoneD [of signer "ss_chain_ids s" reg0 reg] assms(4)
    by (fastforce simp: signer_def signer_new_def ecdsa_signer_new_def)
  have "kr_ed25519_keys (ch_keyring chain) = []"
    using empty_keyrings.all_load_chains [of "(Map.empty, d)" tm js env "kc_chain config"] load ch(1)
    by (simp add: registry_all_def)
  then have "kr_ed25519_keys (ch_keyring (with_consensus_key signer chain)) =
      [(ConsensusKey (Ed25519 public), signer)]"
    by (simp add: with_consensus_key_def add_ed25519_def signer_def signer_new_def ecdsa_signer_new_def Let_def)
  then show ?thesis
    using ch(2) by (simp add: sign_ed25519_default default_ed25519_pubkey_def signer_sign_def)
      (simp add: signer_def signer_new_def ecdsa_signer_new_def)
qed

definition softsign_kms :: kms_config where
  "softsign_kms =
     \<lparr>kc_chain = [\<lparr>cc_id = ''c'', cc_key_format = Hex, cc_state_file = Some key_path, cc_state_hook = None\<rparr>],
      kc_providers = \<lparr>pc_softsign = [sample_softsign], pc_yubihsm = [], pc_ledgertm = [], pc_fortanixdsm = []\<rparr>,
      kc_validator = [], kc_tx_signer = []\<rparr>"

text \<open>The environment of the example: an empty disk that takes writes, and one key file.\<close>

definition plain_tm :: tendermint_crate where
  "plain_tm = \<lparr>height_try_from = Some, parts_header_new = \<lambda>t h. None,
     state_default = \<lparr>cs_height = 1, cs_round = 0, cs_step = 0, cs_block_id = None\<rparr>\<rparr>"

definition plain_json :: state_json where
  "plain_json = \<lparr>to_json = \<lambda>s. Some [], from_json = \<lambda>j. None\<rparr>"

definition plain_env :: chain_env where
  "plain_env = \<lparr>ce_read = Read_ok, ce_write = Write_ok,
     ce_hook = \<lparr>hp_spawn = (\<lambda>_. None), hp_wait = (\<lambda>_. None), hp_kill_ok = True, hp_reap_ok = True\<rparr>,
     ce_hook_parse = (\<lambda>_. None)\<rparr>"

definition plain_keys :: key_sources where
  "plain_keys = \<lparr>ks_crypto = sample_crypto, ks_files = sample_files, ks_load_json = \<lambda>_. None,
     ks_yubihsm = \<lparr>hsm_client = Done (), hsm_ecdsa = \<lambda>_. None, hsm_ed25519 = \<lambda>_. None\<rparr>, ks_ledger = None,
     ks_dsm = \<lparr>dsm_url_parse = \<lambda>_. None, dsm_build = \<lambda>_ _. False, dsm_get_sobject = \<lambda>_. None, dsm_sign = \<lambda>_. None,
       dsm_secp256k1_from_der = \<lambda>_. None, dsm_spki_from_der = \<lambda>_. None, dsm_ecdsa_from_der = \<lambda>_. None,
       dsm_ed25519_signature = \<lambda>_. None\<rparr>\<rparr>"

lemma softsign_loads:
  "\<exists>reg d'. chain_load_config plain_tm plain_json (\<lambda>_. plain_env) plain_keys softsign_kms (Map.empty, Map.empty) =
     ((reg, d'), Done ()) \<and> reg ''c'' \<noteq> None"
proof -
  have "load_chains plain_tm plain_json (\<lambda>_. plain_env) (kc_chain softsign_kms) (Map.empty, Map.empty) =
      ((sample_registry, [key_path \<mapsto> []]), Done ())"
    by (simp add: load_chains_def softsign_kms_def register_config_def chain_from_config_def Let_def
        config_state_file_def load_state_def write_initial_state_def sync_to_disk_def plain_env_def plain_json_def
        plain_tm_def path_parent_def apply_hook_def register_chain_def sample_registry_def)
      (simp add: key_path_def)
  then show ?thesis
    using sample_key
    by (simp add: chain_load_config_def keyring_load_config_def softsign_kms_def softsign_init_def softsign_init_key_def
        sample_softsign_def add_to_chains_def add_consensus_key_def add_ed25519_def sample_registry_def
        keyring_new_def signer_new_def ecdsa_signer_new_def Let_def plain_keys_def yubihsm_init_def ledgertm_init_def fortanixdsm_init_def)
qed

theorem softsign_key_is_used_witness:
  "\<exists>reg d' chain. chain_load_config plain_tm plain_json (\<lambda>_. plain_env) plain_keys softsign_kms (Map.empty, Map.empty) =
       ((reg, d'), Done ()) \<and>
     reg ''c'' = Some chain \<and> sign_ed25519 None [1] (ch_keyring chain) = Done [7, 9, 1]"
proof -
  obtain reg d' where run: "chain_load_config plain_tm plain_json (\<lambda>_. plain_env) plain_keys softsign_kms
      (Map.empty, Map.empty) = ((reg, d'), Done ())"
    using softsign_loads by blast
  have "\<exists>chain. reg ''c'' = Some chain \<and> sign_ed25519 None [1] (ch_keyring chain) =
      Done (ed25519_sign_with sample_crypto [7, 9] [1])"
    using softsign_key_is_used [OF run, of sample_softsign "''c''" "[7, 9]" "[9, 7]" "[1]"] sample_key
    by (auto simp: softsign_kms_def plain_keys_def sample_softsign_def)
  moreover have "ed25519_sign_with sample_crypto [7, 9] [1] = [7, 9, 1]"
    by (simp add: sample_crypto_def)
  ultimately show ?thesis using run by metis
qed

end
