(* ===== verification/Kms_Client.thy ===== *)
theory Kms_Client
  imports Sample_World Key_Providers
begin

text \<open>
  The life of a validator connection: opening a session (\<^verbatim>\<open>Session::open\<close> in
  \<^verbatim>\<open>src/session.rs\<close>, \<^verbatim>\<open>src/connection/tcp.rs\<close>), running it and reconnecting
  (\<^verbatim>\<open>src/client.rs\<close>), and the \<^verbatim>\<open>start\<close> command (\<^verbatim>\<open>src/commands/start.rs\<close>).

  What the network does during one session is an argument; a client that reconnects takes a
  list of them, and \<open>None\<close> stands for a client that is still running when the list is used
  up.
\<close>

section \<open>Opening a session\<close>

datatype handshake = Hs_connected bytes | Hs_crypto | Hs_protocol | Hs_invalid_key | Hs_other

text \<open>
  The answers of the operating system and of \<^verbatim>\<open>SecretConnection::new\<close>, which takes the identity
  key and the version; a handshake that succeeds yields the peer ID of the other side.
\<close>

record network =
  nw_tcp_connect :: "string \<Rightarrow> bool"
  nw_set_read_timeout :: bool
  nw_set_write_timeout :: bool
  nw_handshake :: "bytes \<times> bytes \<Rightarrow> secret_connection_version \<Rightarrow> handshake"
  nw_unix_connect :: "path \<Rightarrow> bool"

definition DEFAULT_TIMEOUT :: u16 where
  "DEFAULT_TIMEOUT = 10"

text \<open>\<^verbatim>\<open>TcpStream::set_read_timeout\<close> and its sibling refuse a zero duration.\<close>

definition set_timeout :: "bool \<Rightarrow> nat \<Rightarrow> (error_kind, unit) outcome" where
  "set_timeout answer secs = (if secs = 0 \<or> \<not> answer then Failed (error_from Io_error) else Done ())"

definition socket_addr :: "string \<Rightarrow> u16 \<Rightarrow> string" where
  "socket_addr host port = host @ '':'' @ show_nat (unat port)"

fun handshake_result :: "handshake \<Rightarrow> (error_kind, bytes) outcome" where
  "handshake_result (Hs_connected peer) = Done peer"
| "handshake_result Hs_crypto = Failed CryptoError"
| "handshake_result Hs_protocol = Failed ProtocolError"
| "handshake_result Hs_invalid_key = Failed InvalidKey"
| "handshake_result Hs_other = Failed ProtocolError"

definition open_secret_connection ::
  "crypto_crate \<Rightarrow> file_system \<Rightarrow> network \<Rightarrow> string \<Rightarrow> u16 \<Rightarrow> path option \<Rightarrow> bytes option \<Rightarrow> u16 option
     \<Rightarrow> secret_connection_version \<Rightarrow> (error_kind, bytes) outcome" where
  "open_secret_connection cr fs nw host port identity_key_path peer_id timeout version =
     obind (ok_or ConfigError identity_key_path) (\<lambda>identity_key_path.
     obind (load_base64_ed25519_key cr fs identity_key_path) (\<lambda>identity_key.
     obind (if nw_tcp_connect nw (socket_addr host port) then Done () else Failed (error_from Io_error)) (\<lambda>_.
     let timeout = unat (case timeout of None \<Rightarrow> DEFAULT_TIMEOUT | Some t \<Rightarrow> t)
     in obind (set_timeout (nw_set_read_timeout nw) timeout) (\<lambda>_.
        obind (set_timeout (nw_set_write_timeout nw) timeout) (\<lambda>_.
        obind (handshake_result (nw_handshake nw identity_key version)) (\<lambda>actual_peer_id.
          case peer_id of
            Some expected_peer_id \<Rightarrow>
              if expected_peer_id \<noteq> actual_peer_id then Failed VerificationError
              else Done actual_peer_id
          | None \<Rightarrow> Done actual_peer_id))))))"

definition session_open ::
  "crypto_crate \<Rightarrow> file_system \<Rightarrow> network \<Rightarrow> validator_config \<Rightarrow> (error_kind, unit) outcome" where
  "session_open cr fs nw config =
     (case vc_addr config of
        Tcp peer_id host port \<Rightarrow>
          obind (open_secret_connection cr fs nw host port (vc_secret_key config) peer_id (vc_timeout config)
              (secret_connection_version_from (vc_protocol_version config)))
            (\<lambda>_. Done ())
      | Unix path \<Rightarrow>
          if nw_unix_connect nw path then Done () else Failed (error_from Io_error))"

section \<open>Running and reconnecting\<close>

text \<open>Everything one session gets from the outside.\<close>

record session_io =
  so_network :: network
  so_turns :: "turn list"

text \<open>The crates a session calls, in one record.\<close>

record crates =
  cr_tm :: tendermint_crate
  cr_canonical :: canonical_codec
  cr_rpc :: rpc_codec
  cr_json :: state_json
  cr_crypto :: crypto_crate

definition run_client ::
  "crates \<Rightarrow> file_system \<Rightarrow> validator_config \<Rightarrow> session_io \<Rightarrow> world
     \<Rightarrow> world \<times> (error_kind, unit) outcome option" where
  "run_client cs fs config io w =
     (case session_open (cr_crypto cs) fs (so_network io) config of
        Done _ \<Rightarrow>
          (case request_loop (cr_tm cs) (cr_canonical cs) (cr_rpc cs) (cr_json cs) config (so_turns io) w of
             (w', r) \<Rightarrow> (w', map_option catch_unwind r))
      | Failed e \<Rightarrow> (w, Some (catch_unwind (Failed e)))
      | Panicked p \<Rightarrow> (w, Some (catch_unwind (Panicked p))))"

fun main_loop ::
  "crates \<Rightarrow> file_system \<Rightarrow> validator_config \<Rightarrow> session_io list \<Rightarrow> world
     \<Rightarrow> world \<times> (error_kind, unit) outcome option" where
  "main_loop cs fs config [] w = (w, None)"
| "main_loop cs fs config (io # ios) w =
     (case run_client cs fs config io w of
        (w', Some (Failed e)) \<Rightarrow>
          if e = PoisonError then (w', Some (Failed e))
          else if vc_reconnect config then main_loop cs fs config ios w'
          else (w', Some (Failed e))
      | (w', r) \<Rightarrow> (w', r))"

section \<open>Starting\<close>

text \<open>
  \<^verbatim>\<open>process::exit(1)\<close> is the error 1 of these operations.  A client's thread runs as soon as it is
  spawned, before the next validator is looked at: spawning gives the clients that run, in order,
  beside how it ended.  \<open>threads k\<close> says whether the operating system starts the \<open>k\<close>-th thread.  What
  the running clients sign meanwhile changes neither which chains are registered nor their keys.
\<close>

definition client_register_chain :: "registry \<Rightarrow> chain_id \<Rightarrow> (nat, unit) outcome" where
  "client_register_chain registry chain_id =
     (case get_chain registry chain_id of None \<Rightarrow> Failed 1 | Some _ \<Rightarrow> Done ())"

definition client_spawn :: "bool \<Rightarrow> registry \<Rightarrow> validator_config \<Rightarrow> (nat, validator_config) outcome" where
  "client_spawn thread registry config =
     obind (client_register_chain registry (vc_chain_id config)) (\<lambda>_.
       if thread then Done config else Failed 1)"

fun spawn_all ::
  "(nat \<Rightarrow> bool) \<Rightarrow> registry \<Rightarrow> validator_config list \<Rightarrow> (validator_config list, nat, unit) run" where
  "spawn_all threads registry [] = ([], Done ())"
| "spawn_all threads registry (config # configs) =
     (case client_spawn (threads 0) registry config of
        Done client \<Rightarrow>
          (case spawn_all (\<lambda>k. threads (Suc k)) registry configs of (clients, r) \<Rightarrow> (client # clients, r))
      | Failed e \<Rightarrow> ([], Failed e)
      | Panicked p \<Rightarrow> ([], Panicked p))"

text \<open>The name of a client; \<open>show_addr\<close> is how the address prints.\<close>

definition client_name :: "(net_address \<Rightarrow> string) \<Rightarrow> validator_config \<Rightarrow> string" where
  "client_name show_addr config = vc_chain_id config @ ''@'' @ show_addr (vc_addr config)"

text \<open>No client runs when the configuration cannot be loaded.\<close>

definition spawn_clients ::
  "(nat \<Rightarrow> bool) \<Rightarrow> tendermint_crate \<Rightarrow> state_json \<Rightarrow> (chain_config \<Rightarrow> chain_env) \<Rightarrow> key_sources \<Rightarrow> kms_config
     \<Rightarrow> disk \<Rightarrow> ((registry \<times> disk) \<times> validator_config list, nat, unit) run" where
  "spawn_clients threads tm js env ks config disk =
     (case chain_load_config tm js env ks config (Map.empty, disk) of
        (s, Done _) \<Rightarrow>
          (case spawn_all threads (fst s) (kc_validator config) of (clients, r) \<Rightarrow> ((s, clients), r))
      | (s, Failed e) \<Rightarrow> ((s, []), Failed 1)
      | (s, Panicked p) \<Rightarrow> ((s, []), Panicked p))"

definition join_panic :: panic_payload where
  "join_panic = Payload_String ''called `Result::unwrap()` on an `Err` value: Any''"

text \<open>\<^verbatim>\<open>Client::join\<close>: the result of the thread; a panic of the thread becomes one of the caller.\<close>

fun client_join :: "(error_kind, unit) outcome \<Rightarrow> (error_kind, unit) outcome" where
  "client_join (Panicked p) = Panicked join_panic"
| "client_join r = r"

text \<open>The results of the client threads, joined in order.\<close>

fun blocking_wait :: "bool \<Rightarrow> (error_kind, unit) outcome list \<Rightarrow> (nat, unit) outcome" where
  "blocking_wait success [] = (if success then Done () else Failed 1)"
| "blocking_wait success (r # rs) =
     (case client_join r of
        Done _ \<Rightarrow> blocking_wait success rs
      | Failed e \<Rightarrow> blocking_wait False rs
      | Panicked p \<Rightarrow> Panicked p)"

datatype app_mode = Run_tx_signer tx_signer_config | Wait_for_clients

definition one_signer_panic :: panic_payload where
  "one_signer_panic = Payload_String ''not implemented: only one TX signer supported for now!''"

definition run_app :: "kms_config \<Rightarrow> (nat, app_mode) outcome" where
  "run_app config =
     (case kc_tx_signer config of
        [] \<Rightarrow> Done Wait_for_clients
      | [cfg] \<Rightarrow> Done (Run_tx_signer cfg)
      | _ \<Rightarrow> Panicked one_signer_panic)"

section \<open>Properties of the client\<close>

lemma handle_request_result:
  assumes "handle_request tm cc rc js config io w = (w', Done b)"
  shows b
  using assms unfolding handle_request_def
  by (auto dest!: rbind_DoneD split: if_splits)

lemma request_loop_not_Done: "snd (request_loop tm cc rc js config ios w) \<noteq> Some (Done ())"
proof (induction ios arbitrary: w)
  case Nil
  then show ?case by simp
next
  case (Cons io ios)
  obtain v r where h: "handle_request tm cc rc js config io w = (v, r)" by (metis surj_pair)
  show ?case
  proof (cases r)
    case (Done b)
    then have b using h handle_request_result by simp
    then show ?thesis using Cons h Done by simp
  qed (use h in simp_all)
qed

lemma run_client_result:
  "snd (run_client cs fs config io w) = None \<or> (\<exists>e. snd (run_client cs fs config io w) = Some (Failed e))"
proof -
  obtain v r where loop: "request_loop (cr_tm cs) (cr_canonical cs) (cr_rpc cs) (cr_json cs) config (so_turns io) w = (v, r)"
    by (metis surj_pair)
  have "r \<noteq> Some (Done ())"
    using request_loop_not_Done [of "cr_tm cs" "cr_canonical cs" "cr_rpc cs" "cr_json cs" config "so_turns io" w]
      loop by simp
  then show ?thesis
    using loop by (cases r; cases "the r"; cases "session_open (cr_crypto cs) fs (so_network io) config")
      (auto simp: run_client_def)
qed

text \<open>
  C19: a client that reconnects stops for one reason only, a poisoned chain lock; it never ends
  with success and no panic of a session reaches its thread.
\<close>

theorem client_stops_only_when_poisoned:
  assumes "vc_reconnect config" and "main_loop cs fs config ios w = (w', Some r)"
  shows "r = Failed PoisonError"
  using assms(2)
proof (induction ios arbitrary: w)
  case Nil
  then show ?case by simp
next
  case (Cons io ios)
  obtain v s where run: "run_client cs fs config io w = (v, s)" by (metis surj_pair)
  then consider "s = None" | e where "s = Some (Failed e)"
    using run_client_result [of cs fs config io w] by auto
  then show ?case
    using Cons run assms(1) by cases (auto split: if_splits)
qed

text \<open>
  Once the lock of the chain is poisoned, the first valid vote request ends the client with
  \<^verbatim>\<open>PoisonError\<close>, whatever its \<^verbatim>\<open>reconnect\<close> setting and the sessions still to come; nothing is
  signed, sent or written.
\<close>

theorem poisoned_client_stops:
  assumes "session_open (cr_crypto cs) fs (so_network io) config = Done ()"
    and "so_turns io = t # ts"
    and "request_read (cr_rpc cs) (vc_protocol_version config) (io_read t) = Done (SignVote r)"
    and "vote_validate r = Done ()"
    and "check_max_height (vote_request (cr_tm cs) (cr_canonical cs)) config r = Done ()"
    and "w_registry w (vc_chain_id config) = Some chain" and "poisoned (ch_state chain)"
    and "height_conversion (cr_tm cs)"
  shows "main_loop cs fs config (io # ios) w = (w, Some (Failed PoisonError))"
proof -
  have "session_sign (cr_json cs) (io_state_file t) (vote_request (cr_tm cs) (cr_canonical cs)) config r w =
      (w, Panicked poison_payload)"
    using vote_rq.poisoned_panics [OF _ assms(5-8)] assms(4) by (simp add: vote_request_def)
  then have "handle_request (cr_tm cs) (cr_canonical cs) (cr_rpc cs) (cr_json cs) config t w =
      (w, Panicked poison_payload)"
    using assms(3) by (simp add: handle_request_def)
  then have "run_client cs fs config io w = (w, Some (Failed PoisonError))"
    using assms(1,2) by (simp add: run_client_def)
  then show ?thesis by simp
qed

text \<open>A Unix-socket client whose only request is a nil vote.\<close>

definition sample_rpc :: rpc_codec where
  "sample_rpc =
     \<lparr>data_max_size = 1024,
      pb_decode_message = (\<lambda>_. Some (Some (Pb_SignVoteRequest (Some
        \<lparr>pbv_type = 1, pbv_height = 5, pbv_round = 0, pbv_block_id = None, pbv_timestamp = None,
         pbv_validator_address = replicate 20 0, pbv_validator_index = 0, pbv_signature = []\<rparr>)))),
      pb_encode_message = (\<lambda>_. Some [1]), rpc_sha256 = id, decode_varint = Some,
      amino_decode_sign_vote = (\<lambda>_. None), amino_decode_sign_proposal = (\<lambda>_. None),
      amino_decode_pub_key_request = (\<lambda>_. None), amino_decode_ping_request = (\<lambda>_. None),
      amino_encode_signed_vote = (\<lambda>_. None), amino_encode_signed_proposal = (\<lambda>_. None),
      amino_encode_ping_response = None, amino_encode_pub_key = (\<lambda>_. None)\<rparr>"

definition sample_crates :: crates where
  "sample_crates = \<lparr>cr_tm = sample_tm, cr_canonical = sample_codec, cr_rpc = sample_rpc,
                    cr_json = sample_json, cr_crypto = sample_crypto\<rparr>"

definition sample_io :: session_io where
  "sample_io =
     \<lparr>so_network = \<lparr>nw_tcp_connect = (\<lambda>_. True), nw_set_read_timeout = True, nw_set_write_timeout = True,
                    nw_handshake = (\<lambda>_ _. Hs_connected [1]), nw_unix_connect = (\<lambda>_. True)\<rparr>,
      so_turns = [\<lparr>io_read = Some [], io_write_ok = True, io_state_file = Write_ok\<rparr>]\<rparr>"

definition poisoned_world :: world where
  "poisoned_world = \<lparr>w_registry = [''c'' \<mapsto> (chain_at genesis_state)\<lparr>ch_state :=
      \<lparr>guarded = \<lparr>st_consensus_state = genesis_state, st_state_file_path = sample_path\<rparr>, poisoned = True\<rparr>\<rparr>],
    w_disk = Map.empty, w_sent = []\<rparr>"

lemma sample_validator_simps [simp]:
  "vc_chain_id sample_validator = ''c''" "vc_reconnect sample_validator"
  "vc_protocol_version sample_validator = V0_34" "vc_addr sample_validator = Unix sample_path"
  by (simp_all add: sample_validator_def)

lemma vote_request_validate [simp]: "rq_validate (vote_request tm cc) = vote_validate"
  by (simp add: vote_request_def)

lemma poisoned_world_chain:
  "\<exists>chain. w_registry poisoned_world ''c'' = Some chain \<and> poisoned (ch_state chain)"
  by (simp add: poisoned_world_def)

lemma sample_read: "request_read sample_rpc V0_34 (Some []) = Done (SignVote (nil_request None))"
  by (simp add: request_read_def read_msg_def sample_rpc_def vote_from_pb_def request_for_def vote_for_def)

lemma sample_valid: "vote_validate (nil_request ts) = Done ()"
  by (simp add: vote_validate_def vote_validate_basic_def vote_msg_type_def VALIDATOR_ADDR_SIZE_def
      vote_for_def request_for_def)

lemma sample_max: "check_max_height (vote_request tm cc) sample_validator (nil_request ts) = Done ()"
  by (simp add: check_max_height_def vote_operation_defs vote_for_def request_for_def sample_validator_def)

theorem poisoned_client_stops_witness:
  "main_loop sample_crates Map.empty sample_validator [sample_io, sample_io] poisoned_world =
     (poisoned_world, Some (Failed PoisonError))"
proof -
  obtain chain where "w_registry poisoned_world ''c'' = Some chain" "poisoned (ch_state chain)"
    using poisoned_world_chain by blast
  then show ?thesis
    by (intro poisoned_client_stops [where r = "nil_request None" and chain = chain and ts = "[]"
          and t = "\<lparr>io_read = Some [], io_write_ok = True, io_state_file = Write_ok\<rparr>"])
      (simp_all add: sample_crates_def sample_height_conversion sample_valid sample_max sample_read
        session_open_def sample_io_def)
qed

lemma poisoned_client_ends:
  "main_loop sample_crates Map.empty sample_validator [sample_io, sample_io] poisoned_world =
     (poisoned_world, Some (Failed PoisonError))"
proof -
  obtain chain where chain: "w_registry poisoned_world ''c'' = Some chain" "poisoned (ch_state chain)"
    using poisoned_world_chain by blast
  have "session_sign sample_json Write_ok (vote_request sample_tm sample_codec) sample_validator (nil_request None)
      poisoned_world = (poisoned_world, Panicked poison_payload)"
    by (rule vote_rq.poisoned_panics [where chain = chain])
      (simp_all add: sample_valid sample_max sample_height_conversion chain)
  then show ?thesis
    by (simp add: run_client_def sample_crates_def handle_request_def sample_io_def sample_read session_open_def)
qed

theorem client_stops_only_when_poisoned_witness:
  "\<exists>r. main_loop sample_crates Map.empty sample_validator [sample_io, sample_io] poisoned_world =
     (poisoned_world, Some r) \<and> r = Failed PoisonError"
  using client_stops_only_when_poisoned [OF _ poisoned_client_ends] poisoned_client_ends by simp

text \<open>A failed read ends the session, and with it a client that does not reconnect.\<close>

lemma request_loop_ends:
  "\<exists>t \<in> set ts. io_read t = None \<Longrightarrow> snd (request_loop tm cc rc js config ts w) \<noteq> None"
proof (induction ts arbitrary: w)
  case (Cons t ts)
  obtain v r where h: "handle_request tm cc rc js config t w = (v, r)" by (metis surj_pair)
  show ?case
  proof (cases "io_read t")
    case None
    then have "handle_request tm cc rc js config t w = (w, Failed (error_from Io_error))"
      by (simp add: handle_request_def request_read_def read_msg_def)
    then show ?thesis by simp
  next
    case (Some b)
    then have "\<exists>t \<in> set ts. io_read t = None" using Cons.prems by auto
    then have rest: "snd (request_loop tm cc rc js config ts v) \<noteq> None" by (rule Cons.IH)
    show ?thesis
    proof (cases r)
      case (Done ok)
      then show ?thesis using h rest by (cases ok) simp_all
    qed (use h in simp_all)
  qed
qed simp

text \<open>
  C24: a client that does not reconnect terminates: when a read of its first session fails, or the
  session cannot be opened, the thread ends with an error after that session, whatever else the
  network would offer.
\<close>

theorem single_session_terminates:
  assumes "\<not> vc_reconnect config"
    and "session_open (cr_crypto cs) fs (so_network io) config = Done () \<Longrightarrow> \<exists>t \<in> set (so_turns io). io_read t = None"
  shows "\<exists>w' e. main_loop cs fs config (io # ios) w = (w', Some (Failed e))"
proof -
  obtain v s where run: "run_client cs fs config io w = (v, s)" by (metis surj_pair)
  have "s \<noteq> None"
    using run assms(2) request_loop_ends [of "so_turns io" "cr_tm cs" "cr_canonical cs" "cr_rpc cs" "cr_json cs" config w]
    by (cases "session_open (cr_crypto cs) fs (so_network io) config") (auto simp: run_client_def split: prod.splits)
  then obtain e where "s = Some (Failed e)" using run_client_result [of cs fs config io w] run by auto
  then show ?thesis using run assms(1) by simp
qed

theorem single_session_terminates_witness:
  "\<exists>w' e. main_loop sample_crates Map.empty (sample_validator\<lparr>vc_reconnect := False\<rparr>)
     [sample_io\<lparr>so_turns := so_turns sample_io @ [\<lparr>io_read = None, io_write_ok = True, io_state_file = Write_ok\<rparr>]\<rparr>,
      sample_io] (world_at genesis_state Map.empty) = (w', Some (Failed e))"
  by (rule single_session_terminates) simp_all

text \<open>
  C20: a TCP session with a configured peer ID opens only when the identity key was read from the
  configured file and the validator at the other end has that peer ID, shown in a handshake with
  this identity key and the configured version.
\<close>

theorem tcp_peer_verified:
  assumes "session_open cr fs nw config = Done ()" and "vc_addr config = Tcp (Some peer) host port"
  shows "\<exists>path key. vc_secret_key config = Some path \<and> load_base64_ed25519_key cr fs path = Done key \<and>
    nw_handshake nw key (secret_connection_version_from (vc_protocol_version config)) = Hs_connected peer"
proof -
  have "open_secret_connection cr fs nw host port (vc_secret_key config) (Some peer) (vc_timeout config)
      (secret_connection_version_from (vc_protocol_version config)) = Done peer"
    using assms by (auto simp: session_open_def obind_Done_iff open_secret_connection_def Let_def split: if_splits)
  then obtain path key where "vc_secret_key config = Some path" "load_base64_ed25519_key cr fs path = Done key"
    "handshake_result (nw_handshake nw key (secret_connection_version_from (vc_protocol_version config))) = Done peer"
    by (auto simp: open_secret_connection_def obind_Done_iff ok_or_Done_iff Let_def split: if_splits)
  then show ?thesis
    by (cases "nw_handshake nw key (secret_connection_version_from (vc_protocol_version config))"; cases key) auto
qed

definition tcp_validator :: validator_config where
  "tcp_validator = sample_validator\<lparr>vc_addr := Tcp (Some [1]) ''h'' 26658, vc_secret_key := Some key_path\<rparr>"

theorem tcp_peer_verified_witness:
  "session_open sample_crypto sample_files (so_network sample_io) tcp_validator = Done () \<and>
   (\<exists>key. load_base64_ed25519_key sample_crypto sample_files key_path = Done key \<and>
      nw_handshake (so_network sample_io) key Sc_V0_34 = Hs_connected [1])"
proof -
  have "load_base64_ed25519_key sample_crypto sample_files key_path = Done ([7, 9], [9, 7])"
    by (simp add: load_base64_ed25519_key_def sample_secret) (simp add: sample_crypto_def)
  then have run: "session_open sample_crypto sample_files (so_network sample_io) tcp_validator = Done ()"
    by (simp add: session_open_def open_secret_connection_def tcp_validator_def sample_validator_def sample_io_def
        set_timeout_def DEFAULT_TIMEOUT_def)
  from tcp_peer_verified [OF this, of "[1]" "''h''" 26658] run show ?thesis
    by (simp add: tcp_validator_def)
qed

section \<open>Starting\<close>

text \<open>Each client that runs is for a validator of the configuration, and its chain is registered.\<close>

lemma client_spawn_DoneD:
  "client_spawn thread registry config = Done client \<Longrightarrow> client = config \<and> registry (vc_chain_id config) \<noteq> None"
  by (simp add: client_spawn_def obind_Done_iff client_register_chain_def get_chain_def split: option.splits if_splits)

lemma spawn_all_running:
  "spawn_all threads registry configs = (clients, r) \<Longrightarrow>
     (\<exists>rest. configs = clients @ rest) \<and> (\<forall>c \<in> set clients. registry (vc_chain_id c) \<noteq> None) \<and>
     (r = Done () \<longrightarrow> clients = configs)"
proof (induction configs arbitrary: threads clients r)
  case (Cons config configs)
  show ?case
  proof (cases "client_spawn (threads 0) registry config")
    case (Done client)
    obtain more r' where rest: "spawn_all (\<lambda>k. threads (Suc k)) registry configs = (more, r')" by (metis surj_pair)
    show ?thesis
      using Cons.prems Cons.IH [OF rest] client_spawn_DoneD [OF Done] by (auto simp: Done rest)
  qed (use Cons.prems in auto)
qed simp

lemma spawn_clients_load:
  assumes "spawn_clients threads tm js env ks config d = (((reg, d'), clients), r)"
  obtains r' where "chain_load_config tm js env ks config (Map.empty, d) = ((reg, d'), r')"
    and "clients \<noteq> [] \<or> r = Done () \<Longrightarrow> r' = Done ()"
    and "clients = [] \<and> r \<noteq> Done () \<or> spawn_all threads reg (kc_validator config) = (clients, r)"
proof (cases "chain_load_config tm js env ks config (Map.empty, d)")
  case (Pair s r')
  then have s: "s = (reg, d')" using assms by (cases r') (simp_all add: spawn_clients_def split: prod.splits)
  show thesis
  proof (rule that [of r'])
    show "chain_load_config tm js env ks config (Map.empty, d) = ((reg, d'), r')" by (simp add: Pair s)
    show "r' = Done ()" if "clients \<noteq> [] \<or> r = Done ()"
      using assms that by (cases r') (auto simp: spawn_clients_def Pair)
    show "clients = [] \<and> r \<noteq> Done () \<or> spawn_all threads reg (kc_validator config) = (clients, r)"
      using assms by (cases r') (auto simp: spawn_clients_def Pair split: prod.splits)
  qed
qed

text \<open>
  However far the \<^verbatim>\<open>start\<close> command gets with its clients, they are the first of the configured
  validators (all of them when it does not exit), and the chain of each is registered under its own
  ID with a lock that is not poisoned and a well-formed keyring: the missing-chain panic of a session
  cannot happen.
\<close>

theorem started_clients_have_chains:
  assumes "spawn_clients threads tm js env ks config d = (((reg, d'), clients), r)"
  shows "(\<exists>rest. kc_validator config = clients @ rest) \<and> (r = Done () \<longrightarrow> clients = kc_validator config) \<and>
    (\<forall>c \<in> set clients. \<exists>chain. reg (vc_chain_id c) = Some chain \<and> ch_id chain = vc_chain_id c \<and>
       keyring_wf (ch_keyring chain) \<and> \<not> poisoned (ch_state chain))"
proof -
  obtain r' where load: "chain_load_config tm js env ks config (Map.empty, d) = ((reg, d'), r')"
    and spawn: "clients = [] \<and> r \<noteq> Done () \<or> spawn_all threads reg (kc_validator config) = (clients, r)"
    by (rule spawn_clients_load [OF assms])
  have "registry_all (\<lambda>c chain. ch_id chain = c \<and> keyring_wf (ch_keyring chain)) reg"
    and "registry_all (\<lambda>c chain. \<not> poisoned (ch_state chain)) reg"
    using wf_chains.all_loaded [of config "kc_chain config" tm js env ks d]
      unpoisoned_chains.all_loaded [of config "kc_chain config" tm js env ks d] load by simp_all
  moreover have "\<exists>rest. kc_validator config = clients @ rest" "r = Done () \<Longrightarrow> clients = kc_validator config"
    "\<forall>c \<in> set clients. reg (vc_chain_id c) \<noteq> None"
    using spawn spawn_all_running [of threads reg "kc_validator config" clients r] by auto
  ultimately show ?thesis unfolding registry_all_def by auto
qed

definition softsign_validator_kms :: kms_config where
  "softsign_validator_kms = softsign_kms\<lparr>kc_validator := [sample_validator]\<rparr>"

text \<open>The second validator of this start has no chain: the first client runs, then the process exits.\<close>

definition second_without_chain :: kms_config where
  "second_without_chain = softsign_kms\<lparr>kc_validator := [sample_validator, sample_validator\<lparr>vc_chain_id := ''x''\<rparr>]\<rparr>"

theorem started_clients_have_chains_witness:
  "\<exists>reg d'. spawn_clients (\<lambda>_. True) plain_tm plain_json (\<lambda>_. plain_env) plain_keys second_without_chain Map.empty =
     (((reg, d'), [sample_validator]), Failed 1) \<and> (\<exists>chain. reg ''c'' = Some chain \<and> keyring_wf (ch_keyring chain))"
proof -
  obtain reg d' where load: "chain_load_config plain_tm plain_json (\<lambda>_. plain_env) plain_keys softsign_kms
      (Map.empty, Map.empty) = ((reg, d'), Done ())" and "reg ''c'' \<noteq> None"
    using softsign_loads by blast
  moreover have "registry_all (\<lambda>c chain. c \<in> cc_id ` set (kc_chain softsign_kms)) reg"
    using filed_chains.all_loaded [of softsign_kms "kc_chain softsign_kms" plain_tm plain_json "\<lambda>_. plain_env" plain_keys Map.empty]
      load by (auto simp: registry_all_def)
  then have "reg ''x'' = None"
    by (cases "reg ''x''") (auto simp: registry_all_def softsign_kms_def)
  ultimately have run: "spawn_clients (\<lambda>_. True) plain_tm plain_json (\<lambda>_. plain_env) plain_keys second_without_chain Map.empty =
      (((reg, d'), [sample_validator]), Failed 1)"
    by (auto simp: spawn_clients_def chain_load_config_def client_spawn_def client_register_chain_def get_chain_def
        second_without_chain_def)
  have "\<exists>chain. reg ''c'' = Some chain \<and> keyring_wf (ch_keyring chain)"
    using started_clients_have_chains [OF run] by auto
  with run show ?thesis by blast
qed

end
