(* ===== verification/Init_Config.thy ===== *)
theory Init_Config
  imports Key_Providers
begin

text \<open>
  The configuration file that \<^verbatim>\<open>tmkms init\<close> writes: the known networks
  (\<^verbatim>\<open>src/commands/init/networks.rs\<close>), the templates (\<^verbatim>\<open>src/commands/init/templates\<close>) and the
  builder that fills and concatenates them (\<^verbatim>\<open>src/commands/init/config_builder.rs\<close>).  The
  Cargo features that select parts of the builder are a record of flags.  The sequential
  substitution of the builder is shown equivalent to a single pass over the template, every
  placeholder is filled, and every network gets a state file of its own.
\<close>

section \<open>Networks\<close>

datatype network = Columbus | CosmosHub | IrisHub | SentinelHub | Osmosis | Persistence

fun network_display :: "network \<Rightarrow> string" where
  "network_display Columbus = ''columbus''"
| "network_display CosmosHub = ''cosmoshub''"
| "network_display IrisHub = ''irishub''"
| "network_display SentinelHub = ''sentinelhub''"
| "network_display Osmosis = ''osmosis''"
| "network_display Persistence = ''core''"

definition network_all :: "network list" where
  "network_all = [Columbus, CosmosHub, IrisHub, SentinelHub, Osmosis, Persistence]"

text \<open>An unknown name ends the process with exit code 1.\<close>

definition network_parse :: "string \<Rightarrow> (nat, network) outcome" where
  "network_parse s =
     (if s = ''columbus'' then Done Columbus
      else if s = ''cosmoshub'' then Done CosmosHub
      else if s = ''irishub'' then Done IrisHub
      else if s = ''sentinelhub'' then Done SentinelHub
      else if s = ''osmosis'' then Done Osmosis
      else if s = ''core'' then Done Persistence
      else Failed 1)"

fun network_chain_id :: "network \<Rightarrow> string" where
  "network_chain_id Columbus = ''columbus-3''"
| "network_chain_id CosmosHub = ''cosmoshub-3''"
| "network_chain_id IrisHub = ''irishub''"
| "network_chain_id SentinelHub = ''sentinelhub-2''"
| "network_chain_id Osmosis = ''osmosis-1''"
| "network_chain_id Persistence = ''core-1''"

fun network_schema_file :: "network \<Rightarrow> string" where
  "network_schema_file Columbus = ''terra.toml''"
| "network_schema_file CosmosHub = ''cosmos-sdk.toml''"
| "network_schema_file IrisHub = ''iris.toml''"
| "network_schema_file SentinelHub = ''sentinelhub.toml''"
| "network_schema_file Osmosis = ''osmosis.toml''"
| "network_schema_file Persistence = ''persistence.toml''"

section \<open>Templates\<close>

definition unlines :: "string list \<Rightarrow> string" where
  "unlines ls = concat (map (\<lambda>l. l @ [CHR 0x0A]) ls)"

definition columbus_toml :: string where
  "columbus_toml = unlines
    [''### Terra Columbus Network'',
     '''',
     ''[[chain]]'',
     ''id = \"columbus-3\"'',
     ''key_format = { type = \"bech32\", account_key_prefix = \"terra\", consensus_key_prefix = \"terravalconspub\" }'',
     ''state_file = \"$KMS_HOME/state/columbus-3-consensus.json\"'']"

definition cosmoshub_toml :: string where
  "cosmoshub_toml = unlines
    [''### Cosmos Hub Network'',
     '''',
     ''[[chain]]'',
     ''id = \"cosmoshub-3\"'',
     ''key_format = { type = \"bech32\", account_key_prefix = \"cosmospub\", consensus_key_prefix = \"cosmosvalconspub\" }'',
     ''state_file = \"$KMS_HOME/state/cosmoshub-3-consensus.json\"'']"

definition irishub_toml :: string where
  "irishub_toml = unlines
    [''### Iris Hub Network'',
     '''',
     ''[[chain]]'',
     ''id = \"irishub\"'',
     ''key_format = { type = \"bech32\", account_key_prefix = \"iap\", consensus_key_prefix = \"icp\" }'',
     ''state_file = \"$KMS_HOME/state/irishub-consensus.json\"'']"

definition sentinelhub_toml :: string where
  "sentinelhub_toml = unlines
    [''### Sentinel Network'',
     '''',
     ''[[chain]]'',
     ''id = \"sentinelhub-2\"'',
     ''key_format = { type = \"bech32\", account_key_prefix = \"sentpub\", consensus_key_prefix = \"sentvalconspub\" }'',
     ''state_file = \"$KMS_HOME/state/sentinelhub-2-consensus.json\"'']"

definition osmosis_toml :: string where
  "osmosis_toml = unlines
    [''### Osmosis Network'',
     '''',
     ''[[chain]]'',
     ''id = \"osmosis-1\"'',
     ''key_format = { type = \"bech32\", account_key_prefix = \"osmopub\", consensus_key_prefix = \"osmovalconspub\" }''] @
    ''state_file = \"$KMS_HOME/state/osmosis-1-consensus.json\"''"

definition persistence_toml :: string where
  "persistence_toml = unlines
    [''### Persistence Network'',
     '''',
     ''[[chain]]'',
     ''id = \"core-1\"'',
     ''key_format = { type = \"bech32\", account_key_prefix = \"persistencepub\", consensus_key_prefix = \"persistencevalconspub\" }''] @
    ''state_file = \"$KMS_HOME/state/core-1-consensus.json\"''"

definition validator_toml :: string where
  "validator_toml = unlines
    [''[[validator]]'',
     ''chain_id = \"$CHAIN_ID\"'',
     ''addr = \"tcp://deadbeefdeadbeefdeadbeefdeadbeefdeadbeef@example1.example.com:26658\"'',
     ''secret_key = \"$KMS_HOME/secrets/kms-identity.key\"'',
     ''protocol_version = \"legacy\"'',
     ''reconnect = true'']"

definition tx_signer_toml :: string where
  "tx_signer_toml = unlines
    [''#[[tx_signer]]'',
     ''#chain_id = \"$CHAIN_ID\"'',
     ''#schema = \"$SCHEMA\"'',
     ''#account_number = 123456 # CHANGE ME!'',
     ''#account_address = \"cosmos1...\" # CHANGE ME!'',
     ''#acl = { msg_type = [\"sdk/Tx\"] } # CHANGE ME!'',
     ''#poll_interval = { blocks = 5 }'',
     ''#source = { protocol = \"jsonrpc\", uri = \"http://127.0.0.1:23456/\" } # CHANGE ME!'',
     ''#rpc = { addr =  \"tcp://127.0.0.1:26657\" } # CHANGE ME!'',
     ''#seq_file = \"$KMS_HOME/state/$CHAIN_ID-account-seq.json\"'']"

definition yubihsm_toml :: string where
  "yubihsm_toml = unlines
    [''[[providers.yubihsm]]'',
     ''adapter = { type = \"usb\" }'',
     ''auth = { key = 1, password_file = \"$KMS_HOME/secrets/yubihsm-password.txt\" }'',
     ''#serial_number = \"0123456789\" # serial number of a specific YubiHSM to connect to (optional)'']"

definition yubihsm_server_toml :: string where
  "yubihsm_server_toml = unlines
    [''#connector_server = { laddr = \"tcp://127.0.0.1:12345\", cli = { auth_key = 2 } }'']"

definition ledgertm_toml :: string where
  "ledgertm_toml = unlines
    [''[[providers.ledgertm]]'',
     ''chain_ids = [\"cosmoshub-1\"]'']"

definition softsign_consensus_toml :: string where
  "softsign_consensus_toml = unlines
    [''[[providers.softsign]]'',
     ''chain_ids = [\"$CHAIN_ID\"]'',
     ''key_type = \"consensus\"'',
     ''path = \"$KMS_HOME/secrets/$CHAIN_ID-consensus.key\"'']"

definition softsign_account_toml :: string where
  "softsign_account_toml = unlines
    [''[[providers.softsign]]'',
     ''chain_ids = [\"$CHAIN_ID\"]'',
     ''key_type = \"account\"'',
     ''path = \"$KMS_HOME/secrets/$CHAIN_ID-account.key\"'']"

definition fortanixdsm_toml :: string where
  "fortanixdsm_toml = unlines
    [''[[providers.fortanixdsm]]'',
     ''api_endpoint = \"https://sdkms.fortanix.com\"'',
     ''api_key = \"Nzk5MDQ3ZGUtN2Q2NS00OTRjLTgzMDMtNjQwMTlhYzdmOGUzOlF1SU93ZXJsOFU4VUdEWEdQMmx1dFJOVjlvMTRSd3lhNnVDNVNhVkpZOVhzYVgyc0pOVGRQVGJ0RjZJdmVLMy00X05iTEhxMkowamF3UGVPaXJEWEd3\"'',
     ''signing_keys = ['',
     ''    { chain_ids = [\"$CHAIN_ID\"], type = \"account\", key_id = \"72e9ed9e-9eb4-46bd-a135-e78ed9bfd611\" },'',
     ''    { chain_ids = [\"$CHAIN_ID\"], type = \"consensus\", key_name = \"My Key\" },'',
     '']'']"

fun network_template :: "network \<Rightarrow> string" where
  "network_template Columbus = columbus_toml"
| "network_template CosmosHub = cosmoshub_toml"
| "network_template IrisHub = irishub_toml"
| "network_template SentinelHub = sentinelhub_toml"
| "network_template Osmosis = osmosis_toml"
| "network_template Persistence = persistence_toml"

section \<open>Substitution\<close>

text \<open>
  \<^verbatim>\<open>str::replace\<close> for a pattern that is not empty: the matches do not overlap and are found
  from left to right.
\<close>

fun str_replace :: "string \<Rightarrow> string \<Rightarrow> string \<Rightarrow> string" where
  "str_replace name replacement [] = []"
| "str_replace name replacement (c # s) =
     (if name \<noteq> [] \<and> prefix name (c # s)
      then replacement @ str_replace name replacement (drop (length name - 1) s)
      else c # str_replace name replacement s)"

definition format_template :: "string \<Rightarrow> (string \<times> string) list \<Rightarrow> string" where
  "format_template template substitutions =
     fold (\<lambda>(name, replacement) s. str_replace name replacement s) substitutions (trim_end template)"

section \<open>The builder\<close>

record features =
  ft_yubihsm :: bool
  ft_yubihsm_server :: bool
  ft_ledger :: bool
  ft_softsign :: bool
  ft_fortanixdsm :: bool
  ft_tx_signer :: bool

record config_builder =
  cb_kms_home :: string
  cb_networks :: "network list"
  cb_contents :: string

definition newline :: string where
  "newline = [CHR 0x0A]"

definition blank_line :: string where
  "blank_line = [CHR 0x0A, CHR 0x0A]"

definition KMS_CONFIG_HEADER :: string where
  "KMS_CONFIG_HEADER = ''# Tendermint KMS configuration file''"

definition add_str :: "string \<Rightarrow> config_builder \<Rightarrow> config_builder" where
  "add_str s self = self\<lparr>cb_contents := cb_contents self @ s\<rparr>"

definition config_builder_new :: "string \<Rightarrow> network list \<Rightarrow> config_builder" where
  "config_builder_new kms_home networks =
     add_str blank_line (add_str KMS_CONFIG_HEADER
       \<lparr>cb_kms_home = kms_home, cb_networks = networks, cb_contents = []\<rparr>)"

definition add_section_comment :: "string \<Rightarrow> config_builder \<Rightarrow> config_builder" where
  "add_section_comment sect self = add_str (''## '' @ sect @ blank_line) self"

definition add_template :: "string \<Rightarrow> config_builder \<Rightarrow> config_builder" where
  "add_template template self =
     add_str blank_line (add_str (format_template template [(''$KMS_HOME'', cb_kms_home self)]) self)"

definition add_template_with_chain_id :: "string \<Rightarrow> config_builder \<Rightarrow> config_builder" where
  "add_template_with_chain_id template self =
     fold (\<lambda>network self.
         add_str blank_line (add_str (format_template template
           [(''$KMS_HOME'', cb_kms_home self), (''$CHAIN_ID'', network_chain_id network)]) self))
       (cb_networks self) self"

definition add_chain_config :: "config_builder \<Rightarrow> config_builder" where
  "add_chain_config self =
     (let self = add_section_comment ''Chain Configuration'' self
      in fold (\<lambda>network. add_template (network_template network)) (cb_networks self) self)"

text \<open>One entry of the \<open>keys\<close> list, and the counter of the key IDs.\<close>

definition yubihsm_key_line :: "nat \<Rightarrow> string \<Rightarrow> network \<Rightarrow> string" where
  "yubihsm_key_line key_id key_type network =
     ''    { key = '' @ show_nat key_id @ '', type = \"'' @ key_type @ ''\", chain_ids = [\"'' @
     network_chain_id network @ ''\"] }, '' @ newline"

definition add_key_line :: "network \<Rightarrow> string \<Rightarrow> config_builder \<times> nat \<Rightarrow> config_builder \<times> nat" where
  "add_key_line network key_type s =
     (case s of (self, key_id) \<Rightarrow> (add_str (yubihsm_key_line key_id key_type network) self, key_id + 1))"

definition key_types :: "features \<Rightarrow> string list" where
  "key_types ft = [''consensus''] @ (if ft_tx_signer ft then [''account''] else [])"

definition add_yubihsm_provider_config :: "features \<Rightarrow> config_builder \<Rightarrow> config_builder" where
  "add_yubihsm_provider_config ft self =
     (let self = add_str (''### YubiHSM2 Provider Configuration'' @ blank_line) self;
          self = add_str (format_template yubihsm_toml [(''$KMS_HOME'', cb_kms_home self)]) self;
          self = add_str (newline @ ''keys = ['' @ newline) self;
          self = fst (fold (\<lambda>network. fold (add_key_line network) (key_types ft)) (cb_networks self) (self, 1));
          self = add_str ('']'' @ newline) self;
          self = (if ft_yubihsm_server ft then add_str yubihsm_server_toml self else self)
      in add_str newline self)"

definition add_ledgertm_provider_config :: "config_builder \<Rightarrow> config_builder" where
  "add_ledgertm_provider_config self =
     add_template_with_chain_id ledgertm_toml (add_str (''### Ledger Provider Configuration'' @ blank_line) self)"

definition add_softsign_provider_config :: "features \<Rightarrow> config_builder \<Rightarrow> config_builder" where
  "add_softsign_provider_config ft self =
     (let self = add_str (''### Software-based Signer Configuration'' @ blank_line) self;
          self = add_template_with_chain_id softsign_consensus_toml self
      in if ft_tx_signer ft then add_template_with_chain_id softsign_account_toml self else self)"

definition add_fortanixdsm_provider_config :: "config_builder \<Rightarrow> config_builder" where
  "add_fortanixdsm_provider_config self =
     add_template_with_chain_id fortanixdsm_toml
       (add_str (''### Fortanix DSM Signer Configuration'' @ blank_line) self)"

definition add_provider_config :: "features \<Rightarrow> config_builder \<Rightarrow> config_builder" where
  "add_provider_config ft self =
     (let self = add_section_comment ''Signing Provider Configuration'' self;
          self = (if ft_yubihsm ft then add_yubihsm_provider_config ft self else self);
          self = (if ft_ledger ft then add_ledgertm_provider_config self else self);
          self = (if ft_softsign ft then add_softsign_provider_config ft self else self)
      in if ft_fortanixdsm ft then add_fortanixdsm_provider_config self else self)"

definition add_validator_config :: "config_builder \<Rightarrow> config_builder" where
  "add_validator_config self =
     add_template_with_chain_id validator_toml (add_section_comment ''Validator Configuration'' self)"

definition add_tx_signer_config :: "config_builder \<Rightarrow> config_builder" where
  "add_tx_signer_config self =
     (let self = add_section_comment ''Transaction Signer Configuration'' self
      in fold (\<lambda>network self.
             add_str blank_line (add_str (format_template tx_signer_toml
               [(''$KMS_HOME'', cb_kms_home self), (''$CHAIN_ID'', network_chain_id network),
                (''$SCHEMA'', network_schema_file network)]) self))
           (cb_networks self) self)"

definition generate_config :: "features \<Rightarrow> config_builder \<Rightarrow> string" where
  "generate_config ft self =
     (let self = add_chain_config self;
          self = add_provider_config ft self;
          self = add_validator_config self;
          self = (if ft_tx_signer ft then add_tx_signer_config self else self)
      in cb_contents self)"

section \<open>Networks: names and chain IDs\<close>

lemma network_all_complete: "n \<in> set network_all"
  by (cases n) (simp_all add: network_all_def)

text \<open>
  The names that are accepted are exactly the printed names of the known networks, and each
  is read as its network; anything else ends the process with exit code 1.
\<close>

theorem network_parse_display:
  "(network_parse s = Done n \<longleftrightarrow> s = network_display n) \<and> n \<in> set network_all \<and>
   (network_parse s = Failed 1 \<longleftrightarrow> s \<notin> network_display ` set network_all)"
  by (cases n) (auto simp: network_parse_def network_all_def)

lemma network_chain_id_inj: "network_chain_id m = network_chain_id n \<longleftrightarrow> m = n"
  by (cases m; cases n) simp_all

section \<open>Substitution in one pass\<close>

text \<open>
  The reference: one pass from left to right that replaces every placeholder where it stands
  and never looks at replaced text again.
\<close>

fun expand :: "(string \<times> string) list \<Rightarrow> string \<Rightarrow> string" where
  "expand subst [] = []"
| "expand subst (c # s) =
     (case find (\<lambda>(name, _). name \<noteq> [] \<and> prefix name (c # s)) subst of
        Some (name, replacement) \<Rightarrow> replacement @ expand subst (drop (length name - 1) s)
      | None \<Rightarrow> c # expand subst s)"

text \<open>Names that start with a dollar sign, have no other, and none is a prefix of another.\<close>

definition names_ok :: "string list \<Rightarrow> bool" where
  "names_ok names \<longleftrightarrow>
     (\<forall>v \<in> set names. v \<noteq> [] \<and> hd v = CHR ''$'' \<and> CHR ''$'' \<notin> set (tl v) \<and>
        (\<forall>w \<in> set names. prefix v w \<longrightarrow> v = w))"

text \<open>Texts in which every dollar sign starts one of the names.\<close>

inductive template_of :: "string list \<Rightarrow> string \<Rightarrow> bool" for names where
  empty: "template_of names []"
| plain: "c \<noteq> CHR ''$'' \<Longrightarrow> template_of names s \<Longrightarrow> template_of names (c # s)"
| name: "v \<in> set names \<Longrightarrow> template_of names s \<Longrightarrow> template_of names (v @ s)"

fun only_placeholders :: "string list \<Rightarrow> string \<Rightarrow> bool" where
  "only_placeholders names [] \<longleftrightarrow> True"
| "only_placeholders names (c # s) \<longleftrightarrow>
     (c = CHR ''$'' \<longrightarrow> (\<exists>v \<in> set names. prefix v (c # s))) \<and> only_placeholders names s"

lemma only_placeholders_drop: "only_placeholders names s \<Longrightarrow> only_placeholders names (drop k s)"
proof (induction s arbitrary: k)
  case (Cons c s)
  then show ?case by (cases k) auto
qed simp

lemma only_placeholders_template:
  assumes "names_ok names" and "only_placeholders names s"
  shows "template_of names s"
  using assms(2)
proof (induction s rule: length_induct)
  case (1 s)
  show ?case
  proof (cases s)
    case Nil
    then show ?thesis by (simp add: template_of.empty)
  next
    case (Cons c t)
    show ?thesis
    proof (cases "c = CHR ''$''")
      case True
      then obtain v x where v: "v \<in> set names" "s = v @ x"
        using "1.prems" Cons by (auto simp: prefix_def)
      moreover have "v \<noteq> []" using v(1) assms(1) by (auto simp: names_ok_def)
      moreover have "only_placeholders names x"
        using only_placeholders_drop [OF "1.prems", of "length v"] v(2) by simp
      ultimately show ?thesis using "1.IH" by (auto intro: template_of.name)
    next
      case False
      then show ?thesis using "1" Cons by (auto intro: template_of.plain)
    qed
  qed
qed

lemma template_of_plain: "CHR ''$'' \<notin> set u \<Longrightarrow> template_of names s \<Longrightarrow> template_of names (u @ s)"
  by (induction u) (auto intro: template_of.plain)

locale placeholder_names =
  fixes names :: "string list"
  assumes ok: "names_ok names"
begin

lemma name_Cons: "v \<in> set names \<Longrightarrow> \<exists>w. v = CHR ''$'' # w \<and> CHR ''$'' \<notin> set w"
  using ok by (cases v) (auto simp: names_ok_def)

lemma name_prefix: "v \<in> set names \<Longrightarrow> w \<in> set names \<Longrightarrow> prefix v (w @ s) \<longleftrightarrow> v = w"
  using ok prefix_same_cases [of v "w @ s" w] by (auto simp: names_ok_def)

lemma str_replace_plain:
  "v \<in> set names \<Longrightarrow> CHR ''$'' \<notin> set u \<Longrightarrow> str_replace v r (u @ s) = u @ str_replace v r s"
  by (induction u) (auto dest: name_Cons)

lemma str_replace_name:
  assumes "v \<in> set names" "w \<in> set names"
  shows "str_replace v r (w @ s) = (if v = w then r else w) @ str_replace v r s"
proof -
  obtain u where w: "w = CHR ''$'' # u" "CHR ''$'' \<notin> set u" using name_Cons [OF assms(2)] by blast
  show ?thesis
    using name_prefix [OF assms, of s] str_replace_plain [OF assms(1) w(2), of r s] w by auto
qed

lemma expand_plain:
  assumes "fst ` set subst \<subseteq> set names" "CHR ''$'' \<notin> set u"
  shows "expand subst (u @ s) = u @ expand subst s"
  using assms(2)
proof (induction u)
  case (Cons c u)
  have "find (\<lambda>(name, _). name \<noteq> [] \<and> prefix name (c # u @ s)) subst = None"
    using Cons.prems assms(1) name_Cons by (fastforce simp: find_None_iff)
  then show ?case using Cons by simp
qed simp

lemma find_name:
  assumes "fst ` set subst \<subseteq> set names" "w \<in> set names"
  shows "find (\<lambda>(name, _). name \<noteq> [] \<and> prefix name (w @ s)) subst =
    map_option (\<lambda>r. (w, r)) (map_of subst w)"
  using assms(1)
proof (induction subst)
  case (Cons p subst)
  then show ?case
    using name_prefix [of "fst p" w s] name_Cons [OF assms(2)] assms(2) by (cases p) auto
qed simp

lemma expand_name:
  assumes "fst ` set subst \<subseteq> set names" "w \<in> set names"
  shows "expand subst (w @ s) = (case map_of subst w of Some r \<Rightarrow> r | None \<Rightarrow> w) @ expand subst s"
proof -
  obtain u where w: "w = CHR ''$'' # u" "CHR ''$'' \<notin> set u" using name_Cons [OF assms(2)] by blast
  show ?thesis
    using find_name [OF assms, of s] expand_plain [OF assms(1) w(2), of s] w
    by (cases "map_of subst w") auto
qed

lemma str_replace_template:
  assumes "template_of names s" "v \<in> set names" "CHR ''$'' \<notin> set r"
  shows "template_of names (str_replace v r s)"
  using assms(1)
proof induction
  case (plain c s)
  then show ?case using str_replace_plain [OF assms(2), of "[c]" r s] by (auto intro: template_of.plain)
next
  case (name w s)
  then show ?case
    using str_replace_name [OF assms(2) name.hyps(1)] assms(3)
    by (auto intro: template_of.name template_of_plain)
qed (simp add: template_of.empty)

lemma expand_after_replace:
  assumes "template_of names s" "v \<in> set names" "CHR ''$'' \<notin> set r" "fst ` set subst \<subseteq> set names"
  shows "expand subst (str_replace v r s) = expand ((v, r) # subst) s"
proof -
  have sub: "fst ` set ((v, r) # subst) \<subseteq> set names" using assms(2,4) by simp
  show ?thesis
    using assms(1)
  proof induction
    case (plain c s)
    then show ?case
      using str_replace_plain [OF assms(2), of "[c]" r s] expand_plain [OF assms(4), of "[c]"]
        expand_plain [OF sub, of "[c]" s] by simp
  next
    case (name w s)
    then show ?case
      using str_replace_name [OF assms(2) name.hyps(1), of r s] expand_name [OF sub name.hyps(1), of s]
        expand_name [OF assms(4) name.hyps(1)] expand_plain [OF assms(4,3)] by simp
  qed simp
qed

lemma fold_replace_expand:
  assumes "template_of names s" "fst ` set subst \<subseteq> set names" "\<forall>r \<in> snd ` set subst. CHR ''$'' \<notin> set r"
  shows "fold (\<lambda>(name, replacement) s. str_replace name replacement s) subst s = expand subst s"
  using assms
proof (induction subst arbitrary: s)
  case Nil
  have "expand [] s = s" by (induction s) simp_all
  then show ?case by simp
next
  case (Cons p subst)
  then show ?case
    using str_replace_template [of s "fst p" "snd p"] expand_after_replace [of s "fst p" "snd p" subst]
    by (cases p) auto
qed

lemma expand_no_dollar:
  assumes "template_of names s" "fst ` set subst = set names" "\<forall>r \<in> snd ` set subst. CHR ''$'' \<notin> set r"
  shows "CHR ''$'' \<notin> set (expand subst s)"
  using assms(1)
proof induction
  case (plain c s)
  then show ?case using expand_plain [of subst "[c]" s] assms(2) by simp
next
  case (name w s)
  obtain r where "map_of subst w = Some r"
    using name.hyps(1) assms(2) by (metis map_of_eq_None_iff option.exhaust)
  moreover from this have "CHR ''$'' \<notin> set r" using assms(3) map_of_SomeD by force
  ultimately show ?case using expand_name [of subst w s] name assms(2) by simp
qed simp

lemma format_template_expand:
  assumes "only_placeholders names (trim_end template)" "fst ` set subst \<subseteq> set names"
    and "\<forall>r \<in> snd ` set subst. CHR ''$'' \<notin> set r"
  shows "format_template template subst = expand subst (trim_end template)"
  unfolding format_template_def
  by (rule fold_replace_expand [OF only_placeholders_template [OF ok assms(1)] assms(2,3)])

lemma format_template_filled:
  assumes "only_placeholders names (trim_end template)" "fst ` set subst = set names"
    and "\<forall>r \<in> snd ` set subst. CHR ''$'' \<notin> set r"
  shows "CHR ''$'' \<notin> set (format_template template subst)"
  using format_template_expand [OF assms(1) _ assms(3)] assms(2)
    expand_no_dollar [OF only_placeholders_template [OF ok assms(1)] assms(2,3)] by simp

end

text \<open>The placeholders of the source, of which each call uses the first one, two or three.\<close>

definition placeholders :: "string list" where
  "placeholders = [''$KMS_HOME'', ''$CHAIN_ID'', ''$SCHEMA'']"

definition substitutions :: "string \<Rightarrow> network \<Rightarrow> (string \<times> string) list" where
  "substitutions home n = [(''$KMS_HOME'', home), (''$CHAIN_ID'', network_chain_id n), (''$SCHEMA'', network_schema_file n)]"

lemma names_ok_take: "names_ok names \<Longrightarrow> names_ok (take k names)"
  unfolding names_ok_def by (meson in_set_takeD)

interpretation source_names: placeholder_names "take k placeholders" for k
  by unfold_locales (rule names_ok_take, code_simp)

lemma map_fst_substitutions: "map fst (take k (substitutions home n)) = take k placeholders"
  by (simp add: substitutions_def placeholders_def take_map flip: take_map)

lemma substitutions_names: "fst ` set (take k (substitutions home n)) = set (take k placeholders)"
  unfolding map_fst_substitutions [symmetric, of k home n] by simp

lemma substitutions_no_dollar:
  assumes "CHR ''$'' \<notin> set home"
  shows "\<forall>r \<in> snd ` set (take k (substitutions home n)). CHR ''$'' \<notin> set r"
proof -
  have "\<forall>r \<in> snd ` set (substitutions home n). CHR ''$'' \<notin> set r"
    using assms by (cases n) (simp_all add: substitutions_def)
  then show ?thesis by (auto dest!: in_set_takeD)
qed

text \<open>The templates with the number of placeholders that are filled in each.\<close>

definition templates :: "(string \<times> nat) list" where
  "templates = map (\<lambda>n. (network_template n, 1)) network_all @ [(yubihsm_toml, 1), (ledgertm_toml, 2),
     (softsign_consensus_toml, 2), (softsign_account_toml, 2), (fortanixdsm_toml, 2), (validator_toml, 2),
     (tx_signer_toml, 3)]"

lemma templates_placeholders:
  "\<forall>(t, k) \<in> set templates. only_placeholders (take k placeholders) (trim_end t)"
  by code_simp

lemma template_filled:
  assumes "(t, k) \<in> set templates" and "CHR ''$'' \<notin> set home"
  shows "format_template t (take k (substitutions home n)) = expand (take k (substitutions home n)) (trim_end t)"
    and "CHR ''$'' \<notin> set (format_template t (take k (substitutions home n)))"
proof -
  have t: "only_placeholders (take k placeholders) (trim_end t)" using assms(1) templates_placeholders by auto
  show "format_template t (take k (substitutions home n)) = expand (take k (substitutions home n)) (trim_end t)"
    by (rule source_names.format_template_expand [OF t eq_refl [OF substitutions_names]
          substitutions_no_dollar [OF assms(2)]])
  show "CHR ''$'' \<notin> set (format_template t (take k (substitutions home n)))"
    by (rule source_names.format_template_filled [OF t substitutions_names substitutions_no_dollar [OF assms(2)]])
qed

text \<open>For a home directory that spells a placeholder the two differ: what was inserted is replaced again.\<close>

lemma dollar_home_replaced:
  "format_template validator_toml (take 2 (substitutions ''$CHAIN_ID'' Osmosis)) \<noteq>
   expand (take 2 (substitutions ''$CHAIN_ID'' Osmosis)) (trim_end validator_toml)"
  by code_simp

text \<open>
  C36: on every template that is built into the program, and for a home directory without a dollar sign, the
  sequential replacement of the builder is the same as one pass over the template that never looks at
  inserted text, and no placeholder is left in the result.  A home directory that spells a placeholder is itself replaced
  (\<open>dollar_home_replaced\<close>).
\<close>

theorem templates_filled:
  assumes "(t, k) \<in> set templates" and "CHR ''$'' \<notin> set home"
  shows "format_template t (take k (substitutions home n)) = expand (take k (substitutions home n)) (trim_end t) \<and>
    CHR ''$'' \<notin> set (format_template t (take k (substitutions home n)))"
  using template_filled [OF assms] by (intro conjI)

theorem templates_filled_witness:
  "format_template validator_toml (take 2 (substitutions ''/kms'' Osmosis)) =
     expand (take 2 (substitutions ''/kms'' Osmosis)) (trim_end validator_toml) \<and>
   sublist ''secret_key = \"/kms/secrets/kms-identity.key\"''
     (format_template validator_toml (take 2 (substitutions ''/kms'' Osmosis)))"
proof -
  have "sublist ''secret_key = \"/kms/secrets/kms-identity.key\"''
     (expand (take 2 (substitutions ''/kms'' Osmosis)) (trim_end validator_toml))"
    by code_simp
  then show ?thesis
    using templates_filled [of validator_toml 2 "''/kms''" Osmosis] by (simp add: templates_def)
qed

section \<open>What the builder writes\<close>

text \<open>
  Every operation of the builder appends a text that depends on the home directory and the
  networks only.
\<close>

definition filled :: "string \<Rightarrow> string \<Rightarrow> nat \<Rightarrow> network \<Rightarrow> string" where
  "filled home t k n = format_template t (take k (substitutions home n))"

definition sections :: "string \<Rightarrow> string \<Rightarrow> nat \<Rightarrow> network list \<Rightarrow> string" where
  "sections home t k ns = concat (map (\<lambda>n. filled home t k n @ blank_line) ns)"

definition key_lines :: "nat \<Rightarrow> (network \<times> string) list \<Rightarrow> string" where
  "key_lines i ps = concat (map (\<lambda>(i, n, t). yubihsm_key_line i t n) (enumerate i ps))"

lemma add_str_simps [simp]:
  "cb_contents (add_str s self) = cb_contents self @ s"
  "cb_kms_home (add_str s self) = cb_kms_home self" "cb_networks (add_str s self) = cb_networks self"
  by (simp_all add: add_str_def)

lemma add_str_add_str [simp]: "add_str t (add_str s self) = add_str (s @ t) self"
  by (simp add: add_str_def)

lemma add_str_Nil [simp]: "add_str [] self = self"
  by (simp add: add_str_def)

lemma fold_add_str:
  assumes "\<And>n s. cb_kms_home s = cb_kms_home self \<Longrightarrow> f n s = add_str (g n) s"
  shows "fold f ns self = add_str (concat (map g ns)) self"
  using assms
proof (induction ns arbitrary: self)
  case (Cons n ns)
  then show ?case using Cons.IH [of "add_str (g n) self"] by simp
qed simp

lemma fold_add_key_line:
  "fold (add_key_line n) ts (self, i) = (add_str (key_lines i (map (Pair n) ts)) self, i + length ts)"
  by (induction ts arbitrary: self i) (simp_all add: add_key_line_def key_lines_def)

lemma key_lines_append: "key_lines i (ps @ qs) = key_lines i ps @ key_lines (i + length ps) qs"
  by (induction ps arbitrary: i) (simp_all add: key_lines_def)

lemma fold_key_lines:
  "fold (\<lambda>n. fold (add_key_line n) ts) ns (self, i) =
     (add_str (key_lines i (List.product ns ts)) self, i + length ns * length ts)"
  by (induction ns arbitrary: self i)
    (simp_all add: fold_add_key_line key_lines_append add.assoc, simp add: key_lines_def)

lemma add_template_with_chain_id_text:
  "add_template_with_chain_id t self = add_str (sections (cb_kms_home self) t 2 (cb_networks self)) self"
  unfolding add_template_with_chain_id_def sections_def
  by (rule fold_add_str) (simp add: filled_def substitutions_def)

text \<open>The sections of the file.\<close>

definition chain_text :: "string \<Rightarrow> network list \<Rightarrow> string" where
  "chain_text home ns = ''## Chain Configuration'' @ blank_line @
     concat (map (\<lambda>n. filled home (network_template n) 1 n @ blank_line) ns)"

definition yubihsm_text :: "features \<Rightarrow> string \<Rightarrow> network list \<Rightarrow> string" where
  "yubihsm_text ft home ns =
     ''### YubiHSM2 Provider Configuration'' @ blank_line @ filled home yubihsm_toml 1 Columbus @
     newline @ ''keys = ['' @ newline @ key_lines 1 (List.product ns (key_types ft)) @
     '']'' @ newline @ (if ft_yubihsm_server ft then yubihsm_server_toml else []) @ newline"

definition ledger_text :: "string \<Rightarrow> network list \<Rightarrow> string" where
  "ledger_text home ns = ''### Ledger Provider Configuration'' @ blank_line @ sections home ledgertm_toml 2 ns"

definition softsign_text :: "features \<Rightarrow> string \<Rightarrow> network list \<Rightarrow> string" where
  "softsign_text ft home ns =
     ''### Software-based Signer Configuration'' @ blank_line @ sections home softsign_consensus_toml 2 ns @
     (if ft_tx_signer ft then sections home softsign_account_toml 2 ns else [])"

definition fortanix_text :: "string \<Rightarrow> network list \<Rightarrow> string" where
  "fortanix_text home ns =
     ''### Fortanix DSM Signer Configuration'' @ blank_line @ sections home fortanixdsm_toml 2 ns"

definition validator_text :: "string \<Rightarrow> network list \<Rightarrow> string" where
  "validator_text home ns = ''## Validator Configuration'' @ blank_line @ sections home validator_toml 2 ns"

definition tx_signer_text :: "string \<Rightarrow> network list \<Rightarrow> string" where
  "tx_signer_text home ns =
     ''## Transaction Signer Configuration'' @ blank_line @ sections home tx_signer_toml 3 ns"

definition config_text :: "features \<Rightarrow> string \<Rightarrow> network list \<Rightarrow> string" where
  "config_text ft home ns =
     KMS_CONFIG_HEADER @ blank_line @ chain_text home ns @
     ''## Signing Provider Configuration'' @ blank_line @
     (if ft_yubihsm ft then yubihsm_text ft home ns else []) @
     (if ft_ledger ft then ledger_text home ns else []) @
     (if ft_softsign ft then softsign_text ft home ns else []) @
     (if ft_fortanixdsm ft then fortanix_text home ns else []) @
     validator_text home ns @
     (if ft_tx_signer ft then tx_signer_text home ns else [])"

lemma add_chain_config_text: "add_chain_config self = add_str (chain_text (cb_kms_home self) (cb_networks self)) self"
  unfolding add_chain_config_def Let_def chain_text_def
  by (subst fold_add_str [where g = "\<lambda>n. filled (cb_kms_home self) (network_template n) 1 n @ blank_line"])
    (auto simp: add_section_comment_def add_template_def filled_def substitutions_def)

lemma add_yubihsm_text:
  "add_yubihsm_provider_config ft self = add_str (yubihsm_text ft (cb_kms_home self) (cb_networks self)) self"
  unfolding add_yubihsm_provider_config_def yubihsm_text_def
  by (simp add: Let_def fold_key_lines) (simp add: filled_def substitutions_def)

lemma add_tx_signer_text:
  "add_tx_signer_config self = add_str (tx_signer_text (cb_kms_home self) (cb_networks self)) self"
  unfolding add_tx_signer_config_def Let_def sections_def tx_signer_text_def
  by (subst fold_add_str [where g = "\<lambda>n. filled (cb_kms_home self) tx_signer_toml 3 n @ blank_line"])
    (auto simp: add_section_comment_def filled_def substitutions_def)

lemma add_template_texts:
  "add_ledgertm_provider_config self = add_str (ledger_text (cb_kms_home self) (cb_networks self)) self"
  "add_softsign_provider_config ft self = add_str (softsign_text ft (cb_kms_home self) (cb_networks self)) self"
  "add_fortanixdsm_provider_config self = add_str (fortanix_text (cb_kms_home self) (cb_networks self)) self"
  "add_validator_config self = add_str (validator_text (cb_kms_home self) (cb_networks self)) self"
  by (simp_all add: add_template_with_chain_id_text add_ledgertm_provider_config_def ledger_text_def
      add_softsign_provider_config_def softsign_text_def Let_def add_fortanixdsm_provider_config_def
      fortanix_text_def add_validator_config_def validator_text_def add_section_comment_def)

lemmas builder_texts = add_chain_config_text add_yubihsm_text add_tx_signer_text add_template_texts

lemma if_add_str: "(if b then add_str s self else self) = add_str (if b then s else []) self"
  by simp

lemma generate_config_is_text: "generate_config ft (config_builder_new home ns) = config_text ft home ns"
  unfolding generate_config_def config_builder_new_def Let_def builder_texts if_add_str
    add_provider_config_def add_section_comment_def config_text_def
  by (simp only: add_str_simps config_builder.simps append.assoc append_Cons append_Nil)

lemma key_line_no_dollar: "CHR ''$'' \<notin> set t \<Longrightarrow> CHR ''$'' \<notin> set (yubihsm_key_line i t n)"
  using show_nat_digits [of "CHR ''$''" i]
  by (cases n) (auto simp: yubihsm_key_line_def newline_def)

lemma key_lines_no_dollar: "CHR ''$'' \<notin> set (key_lines i (List.product ns (key_types ft)))"
  by (auto simp: key_lines_def key_types_def dest!: set_zip_rightD simp: enumerate_eq_zip split: if_splits)
    (use key_line_no_dollar in fastforce)+

lemma sections_no_dollar:
  "(t, k) \<in> set templates \<Longrightarrow> CHR ''$'' \<notin> set home \<Longrightarrow> CHR ''$'' \<notin> set (sections home t k ns)"
  using template_filled(2) [of t k home] by (auto simp: sections_def filled_def blank_line_def)

text \<open>
  The generated configuration file is the header, the chain sections, the sections of the
  enabled providers, the validators and the transaction signers in this order, with the YubiHSM
  keys numbered from 1 through all networks and key types; and when the home directory has no
  dollar sign, no placeholder is left anywhere in it.
\<close>

theorem generated_config_text:
  assumes "CHR ''$'' \<notin> set home"
  shows "generate_config ft (config_builder_new home ns) = config_text ft home ns \<and>
    CHR ''$'' \<notin> set (generate_config ft (config_builder_new home ns))"
proof -
  have chains: "CHR ''$'' \<notin> set (filled home (network_template n) 1 n)" for n
    using template_filled(2) [of "network_template n" 1 home n] assms network_all_complete [of n]
    by (simp add: filled_def templates_def)
  have hsm: "CHR ''$'' \<notin> set (filled home yubihsm_toml 1 Columbus)"
    using template_filled(2) [of yubihsm_toml 1 home Columbus] assms by (simp add: filled_def templates_def)
  have "CHR ''$'' \<notin> set yubihsm_server_toml" by code_simp
  then have "CHR ''$'' \<notin> set (yubihsm_text ft home ns)"
    using hsm key_lines_no_dollar by (simp add: yubihsm_text_def blank_line_def newline_def)
  then have "CHR ''$'' \<notin> set (config_text ft home ns)"
    using chains sections_no_dollar [OF _ assms]
    by (simp add: config_text_def chain_text_def ledger_text_def softsign_text_def fortanix_text_def
        validator_text_def tx_signer_text_def KMS_CONFIG_HEADER_def blank_line_def templates_def)
  then show ?thesis by (simp add: generate_config_is_text)
qed

theorem generated_config_text_witness:
  "config_text \<lparr>ft_yubihsm = False, ft_yubihsm_server = False, ft_ledger = False, ft_softsign = True,
      ft_fortanixdsm = False, ft_tx_signer = False\<rparr> ''/kms'' [IrisHub] =
   generate_config \<lparr>ft_yubihsm = False, ft_yubihsm_server = False, ft_ledger = False, ft_softsign = True,
      ft_fortanixdsm = False, ft_tx_signer = False\<rparr> (config_builder_new ''/kms'' [IrisHub])"
  using generated_config_text [of "''/kms''"] by simp

section \<open>State files\<close>

definition state_file_line :: "string \<Rightarrow> network \<Rightarrow> string" where
  "state_file_line home n =
     ''state_file = \"'' @ home @ ''/state/'' @ network_chain_id n @ ''-consensus.json\"''"

text \<open>The chain templates end in the line for the state file.\<close>

definition state_tail :: "network \<Rightarrow> string" where
  "state_tail n = ''/state/'' @ network_chain_id n @ ''-consensus.json\"''"

definition state_head :: "network \<Rightarrow> string" where
  "state_head n = (let t = trim_end (network_template n) in take (length t - length (state_tail n) - 9) t)"

lemma network_template_parts:
  "\<forall>n \<in> set network_all. trim_end (network_template n) = state_head n @ ''$KMS_HOME'' @ state_tail n \<and>
     CHR ''$'' \<notin> set (state_head n) \<and> CHR ''$'' \<notin> set (state_tail n) \<and> suffix ''state_file = \"'' (state_head n)"
  by code_simp

lemma filled_network_template:
  assumes "CHR ''$'' \<notin> set home"
  shows "suffix (state_file_line home n) (filled home (network_template n) 1 n)"
proof -
  have parts: "trim_end (network_template n) = state_head n @ ''$KMS_HOME'' @ state_tail n"
      "CHR ''$'' \<notin> set (state_head n)" "CHR ''$'' \<notin> set (state_tail n)" "suffix ''state_file = \"'' (state_head n)"
    using network_template_parts network_all_complete [of n] by blast+
  have names: "fst ` set [(''$KMS_HOME'', home)] \<subseteq> set (take 1 placeholders)"
    and mem: "''$KMS_HOME'' \<in> set (take 1 placeholders)"
    by (simp_all add: placeholders_def)
  have "filled home (network_template n) 1 n =
      expand [(''$KMS_HOME'', home)] (state_head n @ ''$KMS_HOME'' @ state_tail n @ [])"
    using template_filled(1) [of "network_template n" 1 home n] assms network_all_complete [of n]
    by (simp add: filled_def templates_def substitutions_def parts(1))
  also have "\<dots> = state_head n @ home @ state_tail n"
    using source_names.expand_plain [OF names parts(2), of "''$KMS_HOME'' @ state_tail n @ []"]
      source_names.expand_name [OF names mem, of "state_tail n @ []"]
      source_names.expand_plain [OF names parts(3), of "[]"] by simp
  finally show ?thesis
    using parts(4) by (auto simp: suffix_def state_file_line_def state_tail_def)
qed

lemma sublist_within: "sublist x y \<Longrightarrow> sublist x (u @ y @ v)"
  by (meson sublist_appendI sublist_order.order_trans)

text \<open>
  For every network that was asked for, the generated configuration names a state file of
  its own: the line that sets it is in the file, and no two networks have the same one.
\<close>

theorem generated_state_files:
  assumes "n \<in> set ns" and "CHR ''$'' \<notin> set home"
  shows "sublist (state_file_line home n) (generate_config ft (config_builder_new home ns)) \<and>
    (\<forall>m. state_file_line home m = state_file_line home n \<longleftrightarrow> m = n)"
proof
  obtain ms ks where ns: "ns = ms @ n # ks" using assms(1) by (meson split_list)
  have "sublist (state_file_line home n) (filled home (network_template n) 1 n)"
    by (rule suffix_imp_sublist [OF filled_network_template [OF assms(2)]])
  then have "sublist (state_file_line home n) (concat (map (\<lambda>n. filled home (network_template n) 1 n @ blank_line) ns))"
    unfolding ns map_append concat_append list.map concat.simps append_assoc by (rule sublist_within)
  then have "sublist (state_file_line home n) (chain_text home ns)"
    unfolding chain_text_def using sublist_within [of _ _ "''## Chain Configuration'' @ blank_line" "[]"] by force
  then show "sublist (state_file_line home n) (generate_config ft (config_builder_new home ns))"
    unfolding generate_config_is_text config_text_def
    using sublist_within [of _ _ "KMS_CONFIG_HEADER @ blank_line"] by (simp only: append_assoc)
  show "\<forall>m. state_file_line home m = state_file_line home n \<longleftrightarrow> m = n"
    by (simp add: state_file_line_def network_chain_id_inj)
qed

theorem generated_state_files_witness:
  "sublist (state_file_line ''/kms'' Osmosis)
     (generate_config \<lparr>ft_yubihsm = True, ft_yubihsm_server = False, ft_ledger = False, ft_softsign = False,
        ft_fortanixdsm = False, ft_tx_signer = True\<rparr> (config_builder_new ''/kms'' [CosmosHub, Osmosis]))"
  using generated_state_files [of Osmosis "[CosmosHub, Osmosis]" "''/kms''"] by simp

end
