(* ===== verification/Init_Command.thy ===== *)
theory Init_Command
  imports Init_Config
begin

text \<open>
  The command \<^verbatim>\<open>tmkms init\<close> (\<^verbatim>\<open>src/commands/init.rs\<close>): it makes the home directory, writes the
  configuration file and generates the key of the secret connection.  What the operating system
  answers to each call, and its random bytes, are arguments; the directories, permissions and
  files it has made are the state.  \<^verbatim>\<open>process::exit(1)\<close> is the error 1.
\<close>

section \<open>Paths\<close>

definition path_join :: "path \<Rightarrow> string \<Rightarrow> path" where
  "path_join p name = p\<lparr>path_components := path_components p @ [name]\<rparr>"

fun join_with :: "string \<Rightarrow> string list \<Rightarrow> string" where
  "join_with sep [] = []"
| "join_with sep [s] = s"
| "join_with sep (s # ss) = s @ sep @ join_with sep ss"

definition path_display :: "path \<Rightarrow> string" where
  "path_display p = (if path_absolute p then ''/'' else []) @ join_with ''/'' (path_components p)"

definition ancestors :: "path \<Rightarrow> path set" where
  "ancestors p = (\<lambda>k. p\<lparr>path_components := take k (path_components p)\<rparr>) ` {0..length (path_components p)}"

section \<open>The command\<close>

definition SUBDIRECTORIES :: "string list" where
  "SUBDIRECTORIES = [''schema'', ''secrets'', ''state'']"

definition SECRETS_DIR_PERMISSIONS :: u32 where
  "SECRETS_DIR_PERMISSIONS = 448"

definition SECRET_CONNECTION_KEY :: string where
  "SECRET_CONNECTION_KEY = ''kms-identity.key''"

definition CONFIG_FILE_NAME :: string where
  "CONFIG_FILE_NAME = ''tmkms.toml''"

record init_command =
  ic_networks :: "string option"
  ic_output_paths :: "path list"

text \<open>
  The answers of the operating system; the path that \<^verbatim>\<open>canonicalize\<close> returns is absolute.
\<close>

record init_os =
  io_exists :: "path \<Rightarrow> bool"
  io_create_dir_all :: "path \<Rightarrow> bool"
  io_canonicalize :: "path \<Rightarrow> path option"
  io_set_permissions :: bool
  io_write_config :: secret_write
  io_write_key :: secret_write
  io_random :: bytes

record home_state =
  hs_dirs :: "path set"
  hs_modes :: "path \<rightharpoonup> u32"
  hs_files :: file_system

definition create_dir_all :: "init_os \<Rightarrow> path \<Rightarrow> home_state \<Rightarrow> (home_state, nat, unit) run" where
  "create_dir_all os p s =
     (if io_create_dir_all os p then (s\<lparr>hs_dirs := hs_dirs s \<union> ancestors p\<rparr>, Done ()) else (s, Failed 1))"

definition set_permissions :: "init_os \<Rightarrow> path \<Rightarrow> u32 \<Rightarrow> home_state \<Rightarrow> (home_state, nat, unit) run" where
  "set_permissions os p mode s =
     (if io_set_permissions os then (s\<lparr>hs_modes := (hs_modes s)(p \<mapsto> mode)\<rparr>, Done ()) else (s, Failed 1))"

text \<open>\<^verbatim>\<open>fs::write\<close>: truncates the file, then writes; it may stop after some prefix.\<close>

definition write_config :: "init_os \<Rightarrow> path \<Rightarrow> string \<Rightarrow> home_state \<Rightarrow> (home_state, nat, unit) run" where
  "write_config os p text s =
     (case io_write_config os of
        Open_fails \<Rightarrow> (s, Failed 1)
      | Write_stops n \<Rightarrow> (s\<lparr>hs_files := (hs_files s)(p \<mapsto> take n text)\<rparr>, Failed 1)
      | Secret_written \<Rightarrow> (s\<lparr>hs_files := (hs_files s)(p \<mapsto> text)\<rparr>, Done ()))"

definition write_identity_key :: "crypto_crate \<Rightarrow> init_os \<Rightarrow> path \<Rightarrow> home_state \<Rightarrow> (home_state, nat, unit) run" where
  "write_identity_key cr os p s =
     (case generate_key cr (io_write_key os) (io_random os) p (hs_files s) of
        (fs, r) \<Rightarrow> (s\<lparr>hs_files := fs\<rparr>, map_err (\<lambda>_. 1) r))"

fun parse_networks :: "string list \<Rightarrow> (nat, network list) outcome" where
  "parse_networks [] = Done []"
| "parse_networks (s # ss) =
     obind (network_parse s) (\<lambda>n. obind (parse_networks ss) (\<lambda>ns. Done (n # ns)))"

definition init_networks :: "string option \<Rightarrow> (nat, network list) outcome" where
  "init_networks networks =
     (case networks of
        Some chain_ids \<Rightarrow> parse_networks (split_on CHR '','' chain_ids)
      | None \<Rightarrow> Done [CosmosHub])"

definition init_kms_home :: "init_os \<Rightarrow> path \<Rightarrow> home_state \<Rightarrow> (home_state, nat, path) run" where
  "init_kms_home os output_path s =
     rbind (if io_exists os output_path then (s, Done ()) else create_dir_all os output_path s)
       (\<lambda>s _. (s, ok_or 1 (io_canonicalize os output_path)))"

text \<open>Everything before the first file is written: the home directory and its networks.\<close>

definition init_prepare :: "init_os \<Rightarrow> init_command \<Rightarrow> home_state \<Rightarrow> (home_state, nat, path \<times> network list) run" where
  "init_prepare os self s =
     (case ic_output_paths self of
        [output_path] \<Rightarrow>
          rbind (s, init_networks (ic_networks self)) (\<lambda>s networks.
          rbind (init_kms_home os output_path s) (\<lambda>s kms_home.
          rbind (for_each (\<lambda>subdir. create_dir_all os (path_join kms_home subdir)) SUBDIRECTORIES s) (\<lambda>s _.
          rbind (set_permissions os (path_join kms_home ''secrets'') SECRETS_DIR_PERMISSIONS s) (\<lambda>s _.
            (s, Done (kms_home, networks))))))
      | _ \<Rightarrow> (s, Failed 1))"

definition init_run ::
  "crypto_crate \<Rightarrow> features \<Rightarrow> init_os \<Rightarrow> init_command \<Rightarrow> home_state \<Rightarrow> (home_state, nat, unit) run" where
  "init_run cr ft os self s =
     rbind (init_prepare os self s) (\<lambda>s (kms_home, networks).
     rbind (write_config os (path_join kms_home CONFIG_FILE_NAME)
              (generate_config ft (config_builder_new (path_display kms_home) networks)) s) (\<lambda>s _.
       write_identity_key cr os (path_join (path_join kms_home ''secrets'') SECRET_CONNECTION_KEY) s))"

section \<open>What it leaves behind\<close>

lemma path_join_inj [simp]: "path_join p a = path_join q b \<longleftrightarrow> p = q \<and> a = b"
  by (cases p; cases q) (auto simp: path_join_def)

lemma path_join_neq [simp]:
  "path_join p a \<noteq> p" "p \<noteq> path_join p a"
  by (cases p; auto simp: path_join_def)+

lemma create_dir_all_simps [simp]:
  "hs_files (fst (create_dir_all os p s)) = hs_files s" "hs_modes (fst (create_dir_all os p s)) = hs_modes s"
  "\<not> is_panic (snd (create_dir_all os p s))" "hs_dirs s \<subseteq> hs_dirs (fst (create_dir_all os p s))"
  by (auto simp: create_dir_all_def)

lemma create_dir_all_DoneD: "create_dir_all os p s = (s', Done ()) \<Longrightarrow> p \<in> hs_dirs s'"
  by (auto simp: create_dir_all_def ancestors_def split: if_splits
      intro!: image_eqI [of _ _ "length (path_components p)"])

lemma subdirectories_frame:
  "hs_files (fst (for_each (\<lambda>d. create_dir_all os (f d)) ds s)) = hs_files s"
  "hs_modes (fst (for_each (\<lambda>d. create_dir_all os (f d)) ds s)) = hs_modes s"
  "hs_dirs s \<subseteq> hs_dirs (fst (for_each (\<lambda>d. create_dir_all os (f d)) ds s))"
  by (rule for_each_invariant [where I = "\<lambda>t. hs_files t = hs_files s"], simp_all)
    (rule for_each_invariant [where I = "\<lambda>t. hs_modes t = hs_modes s"], simp_all,
     rule for_each_invariant [where I = "\<lambda>t. hs_dirs s \<subseteq> hs_dirs t"],
     use create_dir_all_simps(4) in \<open>blast+\<close>)

lemma subdirectories_DoneD:
  "for_each (\<lambda>d. create_dir_all os (f d)) ds s = (s', Done ()) \<Longrightarrow> f ` set ds \<subseteq> hs_dirs s'"
proof (induction ds arbitrary: s)
  case (Cons d ds)
  obtain t where one: "create_dir_all os (f d) s = (t, Done ())"
    and rest: "for_each (\<lambda>d. create_dir_all os (f d)) ds t = (s', Done ())"
    using Cons.prems by (auto dest!: rbind_DoneD)
  show ?case
    using Cons.IH [OF rest] create_dir_all_DoneD [OF one] subdirectories_frame(3) [of t os f ds] rest by auto
qed simp

lemma init_kms_home_simps [simp]:
  "hs_files (fst (init_kms_home os p s)) = hs_files s" "hs_modes (fst (init_kms_home os p s)) = hs_modes s"
  "\<not> is_panic (snd (init_kms_home os p s))"
  by (auto simp: init_kms_home_def rbind_split is_panic_rbind split: outcome.splits)
    (metis create_dir_all_simps(3) is_panic.simps)

lemma init_kms_home_DoneD: "init_kms_home os p s = (s', Done home) \<Longrightarrow> io_canonicalize os p = Some home"
  by (auto simp: init_kms_home_def dest!: rbind_DoneD)

text \<open>The two files of the command.\<close>

abbreviation config_file_of :: "path \<Rightarrow> path" where
  "config_file_of home \<equiv> path_join home CONFIG_FILE_NAME"

abbreviation identity_file_of :: "path \<Rightarrow> path" where
  "identity_file_of home \<equiv> path_join (path_join home ''secrets'') SECRET_CONNECTION_KEY"

lemma init_prepare_files: "hs_files (fst (init_prepare os self s)) = hs_files s"
proof (cases "\<exists>p. ic_output_paths self = [p]")
  case True
  then show ?thesis
    by (auto simp: init_prepare_def subdirectories_frame(1) set_permissions_def
        intro!: rbind_keeps [where I = "\<lambda>t. hs_files t = hs_files s"])
next
  case False
  then show ?thesis by (auto simp: init_prepare_def split: list.splits)
qed

lemma init_prepare_DoneD:
  assumes "init_prepare os self s = (s1, Done (home, ns))"
  shows "\<exists>p. ic_output_paths self = [p] \<and> io_canonicalize os p = Some home"
    and "init_networks (ic_networks self) = Done ns"
    and "hs_modes s1 (path_join home ''secrets'') = Some SECRETS_DIR_PERMISSIONS"
    and "path_join home ` set SUBDIRECTORIES \<subseteq> hs_dirs s1"
  using assms
  by (auto simp: init_prepare_def set_permissions_def image_subset_iff
      dest!: rbind_DoneD subdirectories_DoneD init_kms_home_DoneD split: list.splits if_splits)

lemma write_config_frame:
  "write_config os p text s = (s', r) \<Longrightarrow> hs_modes s' = hs_modes s \<and> hs_dirs s' = hs_dirs s \<and>
     (\<forall>q. q \<noteq> p \<longrightarrow> hs_files s' q = hs_files s q) \<and> (r = Done () \<longrightarrow> hs_files s' p = Some text)"
  by (auto simp: write_config_def split: secret_write.splits)

lemma write_identity_key_frame:
  "write_identity_key cr os p s = (s', r) \<Longrightarrow> hs_modes s' = hs_modes s \<and> hs_dirs s' = hs_dirs s \<and>
     (\<forall>q. q \<noteq> p \<longrightarrow> hs_files s' q = hs_files s q) \<and>
     (r = Done () \<longrightarrow> hs_files s' p = Some (base64_encode cr (take SECRET_KEY_LENGTH (io_random os))))"
  by (auto simp: write_identity_key_def generate_key_def write_base64_secret_def Let_def split: secret_write.splits)

lemma load_base64_written:
  "base64_roundtrip cr \<Longrightarrow> fs p = Some (base64_encode cr data) \<Longrightarrow> load_base64_secret cr fs p = Done data"
  using trim_end_no_space [of "base64_encode cr data"] by (auto simp: load_base64_secret_def base64_roundtrip_def)

text \<open>
  When \<^verbatim>\<open>tmkms init\<close> succeeds, the home directory has its three subdirectories, only the
  owner may enter the one for secrets, the configuration file is the one for the networks that
  were asked for, and the identity key reads back as the 32 random bytes.
\<close>

theorem init_success:
  assumes "base64_roundtrip cr" and "init_run cr ft os self s = (s', Done ())"
  shows "\<exists>p home ns. ic_output_paths self = [p] \<and> io_canonicalize os p = Some home \<and>
    init_networks (ic_networks self) = Done ns \<and>
    {path_join home ''schema'', path_join home ''secrets'', path_join home ''state''} \<subseteq> hs_dirs s' \<and>
    hs_modes s' (path_join home ''secrets'') = Some SECRETS_DIR_PERMISSIONS \<and>
    hs_files s' (path_join home CONFIG_FILE_NAME) = Some (config_text ft (path_display home) ns) \<and>
    load_base64_secret cr (hs_files s') (path_join (path_join home ''secrets'') SECRET_CONNECTION_KEY) =
      Done (take 32 (io_random os))"
proof -
  obtain s1 s2 home ns where prep: "init_prepare os self s = (s1, Done (home, ns))"
    and conf: "write_config os (config_file_of home) (config_text ft (path_display home) ns) s1 = (s2, Done ())"
    and key: "write_identity_key cr os (identity_file_of home) s2 = (s', Done ())"
    using assms(2) by (auto simp: init_run_def generate_config_is_text dest!: rbind_DoneD)
  have "load_base64_secret cr (hs_files s') (identity_file_of home) = Done (take 32 (io_random os))"
    using write_identity_key_frame [OF key] load_base64_written [OF assms(1)] by (simp add: SECRET_KEY_LENGTH_def)
  then show ?thesis
    using init_prepare_DoneD [OF prep] write_config_frame [OF conf] write_identity_key_frame [OF key]
    by (auto simp: SUBDIRECTORIES_def)
qed

text \<open>
  However \<^verbatim>\<open>tmkms init\<close> ends, it changes at most two files, the configuration file and the
  identity key in its own home directory, and it touches them only after the directory for
  secrets was closed to everyone but the owner.
\<close>

theorem init_changes:
  assumes "init_run cr ft os self s = (s', r)" and "hs_files s' f \<noteq> hs_files s f"
  shows "\<exists>p home. ic_output_paths self = [p] \<and> io_canonicalize os p = Some home \<and>
    f \<in> {path_join home CONFIG_FILE_NAME, path_join (path_join home ''secrets'') SECRET_CONNECTION_KEY} \<and>
    hs_modes s' (path_join home ''secrets'') = Some SECRETS_DIR_PERMISSIONS"
proof (cases "init_prepare os self s")
  case (Pair s1 q)
  have files: "hs_files s1 = hs_files s" using init_prepare_files [of os self s] Pair by simp
  then obtain home ns where q: "q = Done (home, ns)"
    using assms Pair by (cases q) (auto simp: init_run_def)
  let ?text = "generate_config ft (config_builder_new (path_display home) ns)"
  obtain s2 q2 where conf: "write_config os (config_file_of home) ?text s1 = (s2, q2)" by (metis surj_pair)
  have rest: "(case q2 of Done _ \<Rightarrow> write_identity_key cr os (identity_file_of home) s2
      | Failed e \<Rightarrow> (s2, Failed e) | Panicked e \<Rightarrow> (s2, Panicked e)) = (s', r)"
    using assms(1) Pair q conf by (cases q2) (auto simp: init_run_def)
  show ?thesis
    using init_prepare_DoneD(1,3) [OF Pair [unfolded q]] write_config_frame [OF conf] rest assms(2) files
      write_identity_key_frame [of cr os "identity_file_of home" s2 s' r]
    by (cases q2) (auto, metis+)
qed

section \<open>An example\<close>

definition sample_home :: path where
  "sample_home = \<lparr>path_absolute = True, path_components = [''kms'']\<rparr>"

definition sample_init_os :: init_os where
  "sample_init_os = \<lparr>io_exists = \<lambda>_. False, io_create_dir_all = \<lambda>_. True, io_canonicalize = Some,
     io_set_permissions = True, io_write_config = Secret_written, io_write_key = Secret_written,
     io_random = replicate 32 7\<rparr>"

definition sample_init :: init_command where
  "sample_init = \<lparr>ic_networks = Some ''osmosis,core'', ic_output_paths = [sample_home]\<rparr>"

definition empty_home :: home_state where
  "empty_home = \<lparr>hs_dirs = {}, hs_modes = Map.empty, hs_files = Map.empty\<rparr>"

definition softsign_only :: features where
  "softsign_only = \<lparr>ft_yubihsm = False, ft_yubihsm_server = False, ft_ledger = False, ft_softsign = True,
     ft_fortanixdsm = False, ft_tx_signer = False\<rparr>"

lemma sample_networks: "init_networks (Some ''osmosis,core'') = Done [Osmosis, Persistence]"
  by code_simp

lemma sample_init_done:
  "\<exists>s'. init_run sample_crypto softsign_only sample_init_os sample_init empty_home = (s', Done ())"
  by (simp add: init_run_def init_prepare_def sample_init_def sample_networks init_kms_home_def
      sample_init_os_def create_dir_all_def SUBDIRECTORIES_def set_permissions_def write_config_def
      write_identity_key_def generate_key_def write_base64_secret_def Let_def)

theorem init_success_witness:
  "\<exists>s'. init_run sample_crypto softsign_only sample_init_os sample_init empty_home = (s', Done ()) \<and>
     hs_modes s' (path_join sample_home ''secrets'') = Some SECRETS_DIR_PERMISSIONS \<and>
     hs_files s' (path_join sample_home ''tmkms.toml'') =
       Some (config_text softsign_only ''/kms'' [Osmosis, Persistence])"
proof -
  obtain s' where run: "init_run sample_crypto softsign_only sample_init_os sample_init empty_home = (s', Done ())"
    using sample_init_done by blast
  have "path_display sample_home = ''/kms''" by (simp add: path_display_def sample_home_def)
  then show ?thesis
    using init_success [OF sample_base64 run] run
    by (auto simp: sample_init_def sample_init_os_def sample_networks CONFIG_FILE_NAME_def)
qed

theorem init_changes_witness:
  "\<exists>s'. init_run sample_crypto softsign_only sample_init_os sample_init empty_home = (s', Done ()) \<and>
     hs_files s' (path_join sample_home ''tmkms.toml'') \<noteq> None \<and>
     hs_modes s' (path_join sample_home ''secrets'') = Some SECRETS_DIR_PERMISSIONS"
proof -
  obtain s' where run: "init_run sample_crypto softsign_only sample_init_os sample_init empty_home = (s', Done ())"
    using sample_init_done by blast
  have changed: "hs_files s' (path_join sample_home ''tmkms.toml'') \<noteq> None"
    using run
    by (auto simp: init_run_def init_prepare_def sample_init_def sample_networks init_kms_home_def
        sample_init_os_def create_dir_all_def SUBDIRECTORIES_def set_permissions_def write_config_def
        write_identity_key_def generate_key_def write_base64_secret_def Let_def CONFIG_FILE_NAME_def)
  have "hs_files empty_home (path_join sample_home ''tmkms.toml'') = None" by (simp add: empty_home_def)
  then show ?thesis
    using init_changes [OF run, of "path_join sample_home ''tmkms.toml''"] changed run
    by (auto simp: sample_init_def sample_init_os_def)
qed

end
