(* ===== verification/Yubihsm_Client.thy ===== *)
theory Yubihsm_Client
  imports Kms_Client Init_Command
begin

text \<open>
  The connection to the YubiHSM (\<^verbatim>\<open>src/yubihsm.rs\<close>, and \<^verbatim>\<open>AuthConfig\<close> of
  \<^verbatim>\<open>src/config/provider/yubihsm.rs\<close>): the connector, the credentials, and the overrides for the
  \<^verbatim>\<open>tmkms yubihsm\<close> commands when a KMS is running with its own connector server.  The globals of
  the source (\<^verbatim>\<open>CLI_COMMAND\<close>, the configuration) are arguments, \<^verbatim>\<open>process::exit(n)\<close> is the error
  \<open>n\<close>.  The model is the build without the mock device.
\<close>

section \<open>Connector\<close>

text \<open>A connector and credentials are given by the arguments of their constructors.\<close>

datatype connector = Usb_connector "string option" u64 | Http_connector string u16

record credentials =
  crd_key_id :: u16
  crd_password :: bytes

text \<open>
  What the code sees of its environment: whether the server feature is built in, whether it runs
  a \<^verbatim>\<open>tmkms yubihsm\<close> command, how a serial number parses, and what is typed at the password prompt.
\<close>

record hsm_env =
  he_server :: bool
  he_cli_command :: bool
  he_parse_serial :: "string \<Rightarrow> string option"
  he_prompt_password :: "string \<Rightarrow> string option"
  he_files :: file_system

definition unix_socket_panic :: panic_payload where
  "unix_socket_panic = Payload_str ''yubihsm does not support Unix sockets''"

definition serial_panic :: panic_payload where
  "serial_panic = Payload_String ''called `Result::unwrap()` on an `Err` value''"

definition prompt_panic :: panic_payload where
  "prompt_panic = Payload_String ''error reading password''"

definition hsm_config :: "kms_config \<Rightarrow> (nat, yubihsm_config) outcome" where
  "hsm_config config =
     (case pc_yubihsm (kc_providers config) of [c] \<Rightarrow> Done c | _ \<Rightarrow> Failed 1)"

fun http_config_for_address :: "net_address \<Rightarrow> (nat, string \<times> u16) outcome" where
  "http_config_for_address (Tcp peer_id host port) = Done (host, port)"
| "http_config_for_address (Unix path) = Panicked unix_socket_panic"

definition connect_http :: "net_address \<Rightarrow> (nat, connector) outcome" where
  "connect_http addr = obind (http_config_for_address addr) (\<lambda>(host, port). Done (Http_connector host port))"

fun init_connector_adapter :: "adapter_config \<Rightarrow> string option \<Rightarrow> (nat, connector) outcome" where
  "init_connector_adapter (Http addr) serial = connect_http addr"
| "init_connector_adapter (Usb timeout_ms) serial = Done (Usb_connector serial timeout_ms)"

text \<open>The connector, and the address of the connector server that was started, if any.\<close>

definition init_connector :: "hsm_env \<Rightarrow> kms_config \<Rightarrow> (nat, connector \<times> (string \<times> u16) option) outcome" where
  "init_connector env config =
     obind (hsm_config config) (\<lambda>cfg.
     obind (case yc_serial_number cfg of
              None \<Rightarrow> Done None
            | Some serial \<Rightarrow> obind (unwrap_or_panic serial_panic (he_parse_serial env serial)) (\<lambda>n. Done (Some n)))
       (\<lambda>serial_number.
         case (if he_server env then yc_connector_server cfg else None) of
           Some server \<Rightarrow>
             if cs_cli server \<noteq> None \<and> he_cli_command env
             then obind (init_connector_adapter (Http (cs_laddr server)) serial_number) (\<lambda>c. Done (c, None))
             else obind (init_connector_adapter (yc_adapter cfg) serial_number) (\<lambda>c.
                  obind (http_config_for_address (cs_laddr server)) (\<lambda>addr. Done (c, Some addr)))
         | None \<Rightarrow> obind (init_connector_adapter (yc_adapter cfg) serial_number) (\<lambda>c. Done (c, None))))"

section \<open>Credentials\<close>

definition auth_credentials :: "file_system \<Rightarrow> auth_config \<Rightarrow> (nat, credentials) outcome" where
  "auth_credentials fs self =
     (case self of
        Auth_path key password_file \<Rightarrow>
          obind (ok_or 1 (fs password_file)) (\<lambda>password.
            Done \<lparr>crd_key_id = key, crd_password = str_bytes (trim_end password)\<rparr>)
      | Auth_string key password \<Rightarrow> Done \<lparr>crd_key_id = key, crd_password = str_bytes password\<rparr>)"

text \<open>The digits of \<^verbatim>\<open>{:04x}\<close>.\<close>

definition hex_digit :: "nat \<Rightarrow> char" where
  "hex_digit d = (if d < 10 then char_of (48 + d) else char_of (87 + d))"

definition show_hex4 :: "u16 \<Rightarrow> string" where
  "show_hex4 w = (let n = unat w
     in [hex_digit (n div 4096), hex_digit (n div 256 mod 16), hex_digit (n div 16 mod 16), hex_digit (n mod 16)])"

definition prompt_for_auth_key_password :: "hsm_env \<Rightarrow> u16 \<Rightarrow> (nat, credentials) outcome" where
  "prompt_for_auth_key_password env auth_key_id =
     obind (unwrap_or_panic prompt_panic
         (he_prompt_password env (''Enter password for YubiHSM2 auth key 0x'' @ show_hex4 auth_key_id @ '': '')))
       (\<lambda>password. Done \<lparr>crd_key_id = auth_key_id, crd_password = str_bytes password\<rparr>)"

definition client_config :: "hsm_env \<Rightarrow> kms_config \<Rightarrow> (nat, credentials \<times> bool) outcome" where
  "client_config env config =
     obind (hsm_config config) (\<lambda>cfg.
       case Option.bind (if he_server env then yc_connector_server cfg else None) (\<lambda>server.
              Option.bind (cs_cli server) (\<lambda>cli.
              Option.bind (cli_auth_key cli) (\<lambda>auth_key_id.
                if he_cli_command env then Some auth_key_id else None))) of
         Some auth_key_id \<Rightarrow> obind (prompt_for_auth_key_password env auth_key_id) (\<lambda>c. Done (c, False))
       | None \<Rightarrow> obind (auth_credentials (he_files env) (yc_auth cfg)) (\<lambda>c. Done (c, True)))"

text \<open>Opening the client: the device accepts the credentials over the connector, or the process ends.\<close>

definition init_client ::
  "(connector \<Rightarrow> credentials \<Rightarrow> bool \<Rightarrow> bool) \<Rightarrow> hsm_env \<Rightarrow> kms_config \<Rightarrow> (nat, connector \<times> credentials \<times> bool) outcome" where
  "init_client accepts env config =
     obind (client_config env config) (\<lambda>(credentials, reconnect).
     obind (init_connector env config) (\<lambda>(connector, _).
       if accepts connector credentials reconnect then Done (connector, credentials, reconnect) else Failed 1))"

section \<open>Properties\<close>

text \<open>
  A \<^verbatim>\<open>tmkms yubihsm\<close> command that is configured to go through the connector server of a running
  KMS does so: it talks to that server's address with the credentials for the overriding key that
  were typed in, without reconnecting, and starts no server of its own; the KMS itself always uses
  its own adapter with the configured credentials and reconnects.
\<close>

lemma client_follows_mode:
  assumes "init_client accepts env config = Done (connector, creds, reconnect)"
    and "pc_yubihsm (kc_providers config) = [cfg]" and "he_server env"
    and "yc_connector_server cfg = Some \<lparr>cs_laddr = Tcp peer host port, cs_cli = Some \<lparr>cli_auth_key = Some k\<rparr>\<rparr>"
  shows "(if he_cli_command env
          then connector = Http_connector host port \<and> crd_key_id creds = k \<and> \<not> reconnect \<and>
            init_connector env config = Done (connector, None)
          else auth_credentials (he_files env) (yc_auth cfg) = Done creds \<and> reconnect \<and>
            init_connector env config = Done (connector, Some (host, port)) \<and>
            (\<exists>serial. init_connector_adapter (yc_adapter cfg) serial = Done connector))"
  using assms
  by (auto simp: init_client_def obind_Done_iff client_config_def hsm_config_def init_connector_def
      prompt_for_auth_key_password_def connect_http_def split: if_splits option.splits)

text \<open>A configuration with a connector server, and a terminal at which a password is typed.\<close>

definition server_hsm :: yubihsm_config where
  "server_hsm = \<lparr>yc_adapter = Usb 1000, yc_auth = Auth_string 1 ''secret'', yc_keys = [], yc_serial_number = None,
     yc_connector_server = Some \<lparr>cs_laddr = Tcp None ''localhost'' 12345, cs_cli = Some \<lparr>cli_auth_key = Some 2\<rparr>\<rparr>\<rparr>"

definition server_kms :: kms_config where
  "server_kms = softsign_kms\<lparr>kc_providers :=
     \<lparr>pc_softsign = [], pc_yubihsm = [server_hsm], pc_ledgertm = [], pc_fortanixdsm = []\<rparr>\<rparr>"

definition terminal :: "bool \<Rightarrow> hsm_env" where
  "terminal cli = \<lparr>he_server = True, he_cli_command = cli, he_parse_serial = Some,
     he_prompt_password = (\<lambda>_. Some ''typed''), he_files = Map.empty\<rparr>"

end
