(* ===== verification/Signing_Properties.thy ===== *)
theory Signing_Properties
  imports Sample_World
begin

text \<open>
  What a validator operator relies on: no two conflicting votes or proposals are signed,
  across sessions, validators, crashes and restarts; what is signed is on disk first; and
  the limits of that protection.
\<close>

section \<open>The machine\<close>

text \<open>
  C4: in every reachable state of a node (any interleaving of sessions, crashes, failed and
  successful writes of the state file, failed and successful restarts), two signed consensus
  states with the same height, round and step have the same block ID.
\<close>

theorem no_double_sign:
  assumes "node_reachable tm js config n" and "json_roundtrip js"
    and "a \<in> nd_signed n" and "b \<in> nd_signed n"
    and "cs_height a = cs_height b" and "cs_round a = cs_round b" and "cs_step a = cs_step b"
  shows "cs_block_id a = cs_block_id b"
proof -
  have "agreeing state_position cs_block_id (nd_authorised n \<union> nd_signed n)"
    using node_reachable_inv [OF assms(1,2)] by (simp add: node_inv_def)
  then show ?thesis
    using assms(3-) by (auto simp: state_position_def elim: agreeingD)
qed

definition sample_node :: node where
  "sample_node = chain_node ''c'' sample_world_signed {sample_state} {sample_state}"

lemma sample_node_reachable: "node_reachable sample_tm sample_json sample_chain_config sample_node"
proof -
  let ?step = "node_step sample_tm sample_json sample_chain_config"
  let ?g = "mutex_new \<lparr>st_consensus_state = genesis_state, st_state_file_path = sample_path\<rparr>"
  let ?s = "mutex_new \<lparr>st_consensus_state = sample_state, st_state_file_path = sample_path\<rparr>"
  define env where "env = \<lparr>ce_read = Read_ok, ce_write = Write_ok,
    ce_hook = \<lparr>hp_spawn = (\<lambda>_. None), hp_wait = (\<lambda>_. None), hp_kill_ok = True, hp_reap_ok = True\<rparr>,
    ce_hook_parse = (\<lambda>_. None)\<rparr>"
  define n1 where "n1 = (node_down Map.empty)\<lparr>nd_lock := Some ?g, nd_disk := [sample_path \<mapsto> []]\<rparr>"
  define n2 where "n2 = n1\<lparr>nd_lock := Some ?s, nd_disk := [sample_path \<mapsto> ''x''],
    nd_authorised := {sample_state}\<rparr>"
  have load: "load_state sample_tm sample_json Read_ok Write_ok sample_path Map.empty =
      ([sample_path \<mapsto> []], Done \<lparr>st_consensus_state = genesis_state, st_state_file_path = sample_path\<rparr>)"
    by (simp add: load_state_def write_initial_state_def sync_to_disk_def path_parent_def Let_def sample_defs)
  have start: "chain_from_config sample_tm sample_json env sample_chain_config Map.empty =
      ([sample_path \<mapsto> []], Done \<lparr>ch_id = ''c'', ch_keyring = keyring_new Hex, ch_state = ?g\<rparr>)"
    by (simp add: chain_from_config_def config_state_file_def sample_chain_config_def env_def load
        apply_hook_def Let_def)
  have "?step (node_down Map.empty) n1"
    using node_step.start [of "node_down Map.empty" sample_tm sample_json env sample_chain_config]
      start by (simp add: node_down_def n1_def)
  moreover have "?step n1 n2"
    using node_step.update [of n1 ?g sample_json Write_ok sample_state ?s "[sample_path \<mapsto> ''x'']" "Done ()"]
      sample_update [of genesis_state "[sample_path \<mapsto> []]"]
    by (simp add: n1_def n2_def node_down_def chain_at_def)
  moreover have "?step n2 (n2\<lparr>nd_signed := insert sample_state (nd_signed n2)\<rparr>)"
    by (rule node_step.sign [of n2 ?s]) (simp_all add: n2_def)
  moreover have "n2\<lparr>nd_signed := insert sample_state (nd_signed n2)\<rparr> = sample_node"
    by (simp add: n2_def n1_def node_down_def sample_node_def chain_node_def world_at_def
        chain_at_def)
  ultimately show ?thesis by (metis node_reachable.intros)
qed

theorem no_double_sign_witness:
  "node_reachable sample_tm sample_json sample_chain_config sample_node \<and> sample_state \<in> nd_signed sample_node \<and>
   cs_block_id ` nd_signed sample_node = {cs_block_id sample_state}"
  using no_double_sign [OF sample_node_reachable sample_json_roundtrip, of sample_state sample_state]
    sample_node_reachable
  by (simp add: sample_node_def)



section \<open>Sessions\<close>

text \<open>
  Whatever requests the sessions of one process serve, in whatever order and with
  whatever results of writing the state file, two requests signed for the same chain at the
  same height, round and step are for the same block ID.
\<close>

theorem sessions_sign_one_block:
  assumes "json_roundtrip js" and "separate_files (w_registry w)" and "w_registry w c = Some ch"
    and "(c, r1, a) \<in> set (snd (serve tm cc js jobs w))"
    and "(c, r2, b) \<in> set (snd (serve tm cc js jobs w))"
    and "cs_height a = cs_height b" and "cs_round a = cs_round b" and "cs_step a = cs_step b"
  shows "cs_block_id a = cs_block_id b"
proof (rule agreeingD [OF serve_agreeing [OF assms(1-3)]])
  show "a \<in> states_of c (snd (serve tm cc js jobs w))" using assms(4) by (auto simp: states_of_def)
  show "b \<in> states_of c (snd (serve tm cc js jobs w))" using assms(5) by (auto simp: states_of_def)
  show "state_position a = state_position b" using assms(6-) by (simp add: state_position_def)
qed

lemma sample_serve_one:
  assumes "q \<in> {genesis_state, sample_state}" and "unseen_block bid"
  shows "serve_one sample_tm sample_codec sample_json (job_for bid ts) (world_at q d) =
     (world_at sample_state (d(sample_path \<mapsto> ''x'')), [(''c'', SignVote (request_for bid ts), sample_state)])"
  using sample_sign [OF assms] sample_parse
  by (simp add: serve_one_def serve_sign_def job_for_def sample_validator_def reply_for_def assms(2))

text \<open>Two votes that differ in their time stamps only, served one after the other.\<close>

abbreviation sample_jobs :: "job list" where
  "sample_jobs \<equiv> [nil_job None, nil_job (Some sample_time)]"

lemma sample_serve:
  "snd (serve sample_tm sample_codec sample_json sample_jobs sample_world) =
     [(''c'', SignVote (nil_request None), sample_state),
      (''c'', SignVote (nil_request (Some sample_time)), sample_state)]"
  by (simp add: sample_serve_one)

theorem sessions_sign_one_block_witness:
  "\<exists>a b. (''c'', SignVote (nil_request None), a) \<in>
       set (snd (serve sample_tm sample_codec sample_json sample_jobs sample_world)) \<and>
     (''c'', SignVote (nil_request (Some sample_time)), b) \<in>
       set (snd (serve sample_tm sample_codec sample_json sample_jobs sample_world)) \<and>
     cs_block_id a = cs_block_id b"
  using sessions_sign_one_block [OF sample_json_roundtrip, of sample_world "''c''" "chain_at genesis_state"
      "SignVote (nil_request None)" sample_state sample_tm sample_codec sample_jobs
      "SignVote (nil_request (Some sample_time))" sample_state]
  unfolding sample_serve by auto

text \<open>What one served request contributes.\<close>

lemma serve_sign_entry:
  assumes "serve_sign js R wrap j r w = (w', es)" and "(c, x, q) \<in> set es"
  shows "c = vc_chain_id (jb_config j)" "x = wrap r" "\<exists>t. parse_request R r = Done (t, q)"
    "\<exists>resp. session_sign js (jb_state_file j) R (jb_config j) r w = (w', Done resp) \<and> response_err resp = None"
    "es = [(c, x, q)]"
  using assms unfolding serve_sign_def by (auto split: prod.splits outcome.splits option.splits)

lemma serve_one_vote_entry:
  assumes "serve_one tm cc js j w = (w', es)" and "(c, SignVote r, q) \<in> set es"
  shows "\<exists>t. parse_request (vote_request tm cc) r = Done (t, q)"
  using assms by (auto simp: serve_one_def split: request.splits dest: serve_sign_entry)

lemma serve_vote_entry:
  "(c, SignVote r, q) \<in> set (snd (serve tm cc js jobs w)) \<Longrightarrow>
     \<exists>t. parse_request (vote_request tm cc) r = Done (t, q)"
proof (induction jobs arbitrary: w)
  case Nil
  then show ?case by simp
next
  case (Cons j jobs)
  obtain v es where one: "serve_one tm cc js j w = (v, es)" by (metis surj_pair)
  with Cons.prems consider "(c, SignVote r, q) \<in> set es"
    | "(c, SignVote r, q) \<in> set (snd (serve tm cc js jobs v))"
    by (auto split: prod.splits)
  then show ?case
    using serve_one_vote_entry [OF one] Cons.IH by cases blast+
qed

lemma parsed_vote:
  assumes "parse_request (vote_request tm cc) r = Done (t, q)"
  obtains v where "svr_vote r = Some v" "vote_msg_type v = Some t"
    "height_try_from tm (v_height v) = Some (cs_height q)"
    "cs_round q = ucast (trunc_u16 (v_round v))" "cs_step q = step_of t"
    "cs_block_id q = state_block_id tm (v_block_id v)"
  using parse_request_DoneD [OF assms]
  by (auto simp: vote_operation_defs bind_eq_Some_conv split: option.splits)

text \<open>
  A block ID the protection can tell apart from others: it is absent in the signed bytes, or
  it is present in the consensus state.
\<close>

definition comparable_block_id :: "tendermint_crate \<Rightarrow> amino_block_id option \<Rightarrow> bool" where
  "comparable_block_id tm b \<longleftrightarrow> pb_canonical_block_id b = None \<or> state_block_id tm b \<noteq> None"

lemma state_block_id_canonical:
  assumes "state_block_id tm b = Some i" and "parts_header_stores tm"
  shows "pb_canonical_block_id b = Some \<lparr>pb_hash = id_hash i, pb_part_set_header =
    Some \<lparr>pb_total = ph_total (id_part_set_header i), pb_psh_hash = ph_hash (id_part_set_header i)\<rparr>\<rparr>"
proof -
  obtain x where x: "b = Some x" "parse_block_id tm x = Some i"
    using assms(1) by (auto simp: state_block_id_def split: option.splits)
  show ?thesis
    using parse_block_id_SomeD [OF x(2) assms(2)] x(1) by (auto simp: pb_canonical_block_id_def)
qed

lemma comparable_same_state:
  assumes "comparable_block_id tm a" "comparable_block_id tm b" "parts_header_stores tm"
    and "state_block_id tm a = state_block_id tm b"
  shows "pb_canonical_block_id a = pb_canonical_block_id b"
proof (cases "state_block_id tm a")
  case None
  then show ?thesis using assms by (simp add: comparable_block_id_def)
next
  case (Some i)
  then show ?thesis using assms(3,4) by (simp add: state_block_id_canonical)
qed

text \<open>
  The amino encoding signs the whole 64-bit total of a parts header and tells an empty block ID
  from none, while the protection reads the total as 32 bits and takes what does not parse for
  none: for it a block ID can be compared when it is absent, or parses and has a total below
  \<open>2 ^ 32\<close>.
\<close>

definition legacy_comparable :: "tendermint_crate \<Rightarrow> amino_block_id option \<Rightarrow> bool" where
  "legacy_comparable tm b =
     (case b of
        None \<Rightarrow> True
      | Some x \<Rightarrow> parse_block_id tm x \<noteq> None \<and>
          (case bid_parts_header x of None \<Rightarrow> True | Some h \<Rightarrow> uint (psh_total h) < 2 ^ 32))"

definition comparable_for :: "protocol_version \<Rightarrow> tendermint_crate \<Rightarrow> amino_block_id option \<Rightarrow> bool" where
  "comparable_for version tm b =
     (if is_protobuf version then comparable_block_id tm b else legacy_comparable tm b)"

lemma trunc_32_small_inj:
  assumes "uint t < 2 ^ 32" and "uint u < 2 ^ 32" and "trunc_32 t = trunc_32 u"
  shows "t = u"
proof -
  have "zext_64 (trunc_32 x) = x" if "uint x < 2 ^ 32" for x
    using that by (intro word_uint_eqI) (simp add: unsigned_ucast_eq unsigned_take_bit_eq take_bit_int_eq_self)
  with assms show ?thesis by metis
qed

lemma legacy_comparable_same_state:
  assumes "legacy_comparable tm a" "legacy_comparable tm b" "parts_header_stores tm"
    and "state_block_id tm a = state_block_id tm b"
  shows "a = b"
proof (cases "state_block_id tm a")
  case None
  then show ?thesis
    using assms by (cases a; cases b) (simp_all add: legacy_comparable_def state_block_id_def)
next
  case (Some i)
  then obtain x where x: "a = Some x" "parse_block_id tm x = Some i"
    by (cases a) (simp_all add: state_block_id_def)
  obtain y where y: "b = Some y" "parse_block_id tm y = Some i"
    using Some assms(4) by (cases b) (simp_all add: state_block_id_def)
  obtain h where h: "bid_parts_header x = Some h" "id_hash i = bid_hash x"
    "id_part_set_header i = \<lparr>ph_total = trunc_32 (psh_total h), ph_hash = psh_hash h\<rparr>"
    using parse_block_id_SomeD [OF x(2) assms(3)] by blast
  obtain k where k: "bid_parts_header y = Some k" "id_hash i = bid_hash y"
    "id_part_set_header i = \<lparr>ph_total = trunc_32 (psh_total k), ph_hash = psh_hash k\<rparr>"
    using parse_block_id_SomeD [OF y(2) assms(3)] by blast
  have "psh_total h = psh_total k"
    using assms(1,2) x(1) y(1) h k by (intro trunc_32_small_inj) (simp_all add: legacy_comparable_def)
  moreover have "psh_hash h = psh_hash k" using h(3) k(3) by simp
  ultimately have "h = k" by simp
  then have "x = y" using h k by simp
  then show ?thesis by (simp add: x(1) y(1))
qed

text \<open>
  Two votes at one height, round and type whose states do not conflict: the states have the same
  block ID, and then what is signed is for the same block.
\<close>

lemma agreeing_votes_same_block:
  assumes "agreeing state_position cs_block_id S" and "a \<in> S" and "b \<in> S"
    and "parse_request (vote_request tm cc) \<lparr>svr_vote = Some u\<rparr> = Done (t, a)"
    and "parse_request (vote_request tm cc) \<lparr>svr_vote = Some v\<rparr> = Done (t', b)"
    and "v_height u = v_height v" and "v_round u = v_round v" and "v_vote_type u = v_vote_type v"
  shows "state_block_id tm (v_block_id u) = state_block_id tm (v_block_id v)"
proof -
  have "vote_msg_type u = Some t" "vote_msg_type v = Some t'"
    and h: "height_try_from tm (v_height u) = Some (cs_height a)"
      "height_try_from tm (v_height v) = Some (cs_height b)"
    and r: "cs_round a = ucast (trunc_u16 (v_round u))" "cs_round b = ucast (trunc_u16 (v_round v))"
    and st: "cs_step a = step_of t" "cs_step b = step_of t'"
    and bid: "cs_block_id a = state_block_id tm (v_block_id u)" "cs_block_id b = state_block_id tm (v_block_id v)"
    using assms(4,5) by (auto elim!: parsed_vote)
  then have "t = t'" using assms(8) by (simp add: vote_msg_type_def split: if_splits)
  then have "state_position a = state_position b"
    using h r st assms(6,7) by (simp add: state_position_def)
  then have "cs_block_id a = cs_block_id b" by (rule agreeingD [OF assms(1-3)])
  then show ?thesis using bid by simp
qed

lemma same_block_signed:
  assumes "parts_header_stores tm" and "state_block_id tm (v_block_id u) = state_block_id tm (v_block_id v)"
    and "v_height u = v_height v" and "v_round u = v_round v" and "v_vote_type u = v_vote_type v"
    and "comparable_for version tm (v_block_id u)" and "comparable_for version tm (v_block_id v)"
  shows "(if is_protobuf version
       then pcv_block_id (pb_canonical_vote_of u c) = pcv_block_id (pb_canonical_vote_of v c)
       else cv_block_id (canonical_vote_new u c) = cv_block_id (canonical_vote_new v c)) \<and>
    vote_sign_bytes cc c version \<lparr>svr_vote = Some (u\<lparr>v_timestamp := v_timestamp v\<rparr>)\<rparr> =
    vote_sign_bytes cc c version \<lparr>svr_vote = Some v\<rparr>"
proof (cases "is_protobuf version")
  case True
  then have "pb_canonical_block_id (v_block_id u) = pb_canonical_block_id (v_block_id v)"
    using comparable_same_state [OF _ _ assms(1,2)] assms(6,7) by (simp add: comparable_for_def)
  then show ?thesis
    using True assms(3-5) by (simp add: vote_sign_bytes_Some pb_canonical_vote_of_def)
next
  case False
  then have "v_block_id u = v_block_id v"
    using legacy_comparable_same_state [OF _ _ assms(1,2)] assms(6,7) by (simp add: comparable_for_def)
  then show ?thesis
    using False assms(3-5) by (simp add: vote_sign_bytes_Some canonical_vote_new_def)
qed

text \<open>
  C6: two votes signed for the same chain with the same height, round and type are for the same
  block in what is signed, under either protocol: their canonical block IDs agree (the protocol
  buffer one for the versions that use it, the amino one for the legacy version), and the bytes to
  sign are the same up to the time stamp.  The block IDs have to be ones that the protection can
  compare (\<open>comparable_for\<close>).
\<close>

theorem signed_votes_agree:
  assumes "json_roundtrip js" and "separate_files (w_registry w)" and "w_registry w c = Some ch"
    and "parts_header_stores tm"
    and "(c, SignVote \<lparr>svr_vote = Some u\<rparr>, a) \<in> set (snd (serve tm cc js jobs w))"
    and "(c, SignVote \<lparr>svr_vote = Some v\<rparr>, b) \<in> set (snd (serve tm cc js jobs w))"
    and "v_height u = v_height v" and "v_round u = v_round v" and "v_vote_type u = v_vote_type v"
    and "comparable_for version tm (v_block_id u)" and "comparable_for version tm (v_block_id v)"
  shows "(if is_protobuf version
       then pcv_block_id (pb_canonical_vote_of u c) = pcv_block_id (pb_canonical_vote_of v c)
       else cv_block_id (canonical_vote_new u c) = cv_block_id (canonical_vote_new v c)) \<and>
    vote_sign_bytes cc c version \<lparr>svr_vote = Some (u\<lparr>v_timestamp := v_timestamp v\<rparr>)\<rparr> =
    vote_sign_bytes cc c version \<lparr>svr_vote = Some v\<rparr>"
proof -
  obtain t t' where parsed: "parse_request (vote_request tm cc) \<lparr>svr_vote = Some u\<rparr> = Done (t, a)"
    "parse_request (vote_request tm cc) \<lparr>svr_vote = Some v\<rparr> = Done (t', b)"
    using serve_vote_entry [OF assms(5)] serve_vote_entry [OF assms(6)] by blast
  have "a \<in> states_of c (snd (serve tm cc js jobs w))" "b \<in> states_of c (snd (serve tm cc js jobs w))"
    using assms(5,6) by (auto simp: states_of_def)
  note same = agreeing_votes_same_block [OF serve_agreeing [OF assms(1-3)] this parsed assms(7-9)]
  show ?thesis by (rule same_block_signed [OF assms(4) same assms(7-)])
qed

text \<open>A chain that votes for a block, twice with different time stamps.\<close>

definition block_state :: consensus_state where
  "block_state = sample_state\<lparr>cs_block_id := Some
     \<lparr>id_hash = replicate 32 1, id_part_set_header = \<lparr>ph_total = 1, ph_hash = replicate 32 2\<rparr>\<rparr>\<rparr>"

definition voted_block :: amino_block_id where
  "voted_block = \<lparr>bid_hash = replicate 32 1, bid_parts_header = Some \<lparr>psh_total = 1, psh_hash = replicate 32 2\<rparr>\<rparr>"

definition block_json :: state_json where
  "block_json = table_json [genesis_state, block_state]"

lemma block_votes_served:
  "snd (serve sample_tm sample_codec block_json
       [job_for (Some voted_block) None, job_for (Some voted_block) (Some sample_time)] sample_world) =
     [(''c'', SignVote (request_for (Some voted_block) None), block_state),
      (''c'', SignVote (request_for (Some voted_block) (Some sample_time)), block_state)]"
  by code_simp

theorem signed_votes_agree_witness:
  "cs_block_id block_state \<noteq> None \<and>
   vote_sign_bytes sample_codec ''c'' Legacy
     \<lparr>svr_vote = Some ((vote_for (Some voted_block) None)\<lparr>v_timestamp := Some sample_time\<rparr>)\<rparr> =
   vote_sign_bytes sample_codec ''c'' Legacy \<lparr>svr_vote = Some (vote_for (Some voted_block) (Some sample_time))\<rparr> \<and>
   cv_block_id (canonical_vote_new (vote_for (Some voted_block) None) ''c'') =
   cv_block_id (canonical_vote_new (vote_for (Some voted_block) (Some sample_time)) ''c'')"
proof -
  have "json_roundtrip block_json" by (simp add: block_json_def)
  moreover have "comparable_for Legacy sample_tm (Some voted_block)" by code_simp
  moreover have "is_protobuf Legacy = False" by code_simp
  moreover have "v_timestamp (vote_for bid ts) = ts" "v_block_id (vote_for bid ts) = bid"
    "v_height (vote_for bid ts) = 5" "v_round (vote_for bid ts) = 0" "v_vote_type (vote_for bid ts) = 1" for bid ts
    by (simp_all add: vote_for_def)
  ultimately show ?thesis
    using signed_votes_agree [where js = block_json and w = sample_world and c = "''c''" and ch = "chain_at genesis_state"
        and tm = sample_tm and cc = sample_codec and u = "vote_for (Some voted_block) None"
        and v = "vote_for (Some voted_block) (Some sample_time)" and a = block_state and b = block_state
        and jobs = "[job_for (Some voted_block) None, job_for (Some voted_block) (Some sample_time)]"
        and version = Legacy] sample_parts_header_stores
    unfolding block_votes_served request_for_def by (simp add: block_state_def)
qed

context signable_request
begin

lemma serve_sign_stored:
  assumes js: "json_roundtrip js" and run: "serve_sign js R wrap j x w = (w', es)"
    and "(c, r, q) \<in> set es"
  shows "\<exists>chain. w_registry w' c = Some chain \<and> st_consensus_state (guarded (ch_state chain)) = q \<and>
    stored_state js (state_file_of chain) (w_disk w') = Some q"
proof -
  note e = serve_sign_entry [OF run assms(3)]
  obtain t resp where pr: "parse_request R x = Done (t, q)"
    and ss: "session_sign js (jb_state_file j) R (jb_config j) x w = (w', Done resp)" "response_err resp = None"
    using e(3,4) by blast
  from ss show ?thesis
  proof (rule signed_after_update)
    fix chain l t' q' b sig
    assume pr': "parse_request R x = Done (t', q')"
      and lk: "with_lock (ch_state chain) (w_disk w)
        (update_consensus_state js (jb_state_file j) q') = ((l, w_disk w'), Done ())"
      and reg: "w_registry w' = (w_registry w)(vc_chain_id (jb_config j) \<mapsto> chain\<lparr>ch_state := l\<rparr>)"
    note body = update_consensus_state_DoneD [OF with_lock_done(3) [OF lk]]
    have "st_consensus_state (guarded l) = q" using body(2) pr pr' by simp
    moreover have "stored_state js (st_state_file_path (guarded l)) (w_disk w') = Some (st_consensus_state (guarded l))"
      using state_file.put_done [OF js, of "jb_state_file j"] body(3)
      by (metis state.surjective old.unit.exhaust)
    ultimately show ?thesis using reg e(1) by (simp add: state_file_of_def)
  qed
qed

end

text \<open>
  C9: when a vote or proposal is signed, the chain state in memory is the request's state,
  and the state file already holds it.
\<close>

theorem signed_state_is_stored:
  assumes "json_roundtrip js" and "serve_one tm cc js j w = (w', es)" and "(c, r, q) \<in> set es"
  shows "\<exists>chain. w_registry w' c = Some chain \<and> st_consensus_state (guarded (ch_state chain)) = q \<and>
    stored_state js (state_file_of chain) (w_disk w') = Some q"
proof (cases "jb_request j")
  case (SignVote x)
  with assms(2) have "serve_sign js (vote_request tm cc) SignVote j x w = (w', es)"
    by (simp add: serve_one_def)
  then show ?thesis by (rule vote_rq.serve_sign_stored [OF assms(1) _ assms(3)])
next
  case (SignProposal x)
  with assms(2) have "serve_sign js (proposal_request tm cc) SignProposal j x w = (w', es)"
    by (simp add: serve_one_def)
  then show ?thesis by (rule proposal_rq.serve_sign_stored [OF assms(1) _ assms(3)])
qed (use assms in \<open>simp_all add: serve_one_def\<close>)

theorem signed_state_is_stored_witness:
  "\<exists>chain. w_registry sample_world_signed ''c'' = Some chain \<and>
    st_consensus_state (guarded (ch_state chain)) = sample_state \<and>
    stored_state sample_json (state_file_of chain) (w_disk sample_world_signed) = Some sample_state"
  using signed_state_is_stored [OF sample_json_roundtrip sample_serve_one, of genesis_state None] by simp

text \<open>
  C10: a vote that would contradict the last signed one (same height, round and step, another
  block ID) is answered with the double-sign error and no vote, and leaves the registry, the
  state file and the connection as they were.
\<close>

theorem conflicting_vote_refused:
  assumes "vote_validate r = Done ()"
    and "check_max_height (vote_request tm cc) config r = Done ()"
    and "w_registry w (vc_chain_id config) = Some chain" and "\<not> poisoned (ch_state chain)"
    and "parse_request (vote_request tm cc) r = Done (t, q)"
    and "cs_height q = cs_height prev" and "cs_round q = cs_round prev" and "cs_step q = cs_step prev"
    and "cs_block_id q \<noteq> cs_block_id prev" and "prev = st_consensus_state (guarded (ch_state chain))"
  shows "session_sign js os (vote_request tm cc) config r w =
    (w, Done (SignedVote \<lparr>sv_vote = None, sv_err = Some (remote_error_double_sign (cs_height q))\<rparr>))"
proof -
  have "consensus_check (st_consensus_state (guarded (ch_state chain))) q = Failed State_DoubleSign"
    using assms(6-10) by (simp add: consensus_check_def)
  moreover have "rq_validate (vote_request tm cc) r = Done ()"
    using assms(1) by (simp add: vote_request_def)
  ultimately show ?thesis
    using vote_rq.conflict_refused [OF _ assms(2-5)] by (simp add: vote_request_def vote_build_response_def)
qed

text \<open>A nil pre-vote against a chain that has already signed one for a block.\<close>

theorem conflicting_vote_refused_witness:
  "session_sign sample_json Write_ok (vote_request sample_tm sample_codec) sample_validator
     (nil_request None) (world_at block_state Map.empty) =
   (world_at block_state Map.empty,
    Done (SignedVote \<lparr>sv_vote = None, sv_err = Some (remote_error_double_sign 5)\<rparr>))"
proof -
  have "vote_validate (nil_request None) = Done ()"
    by (simp add: vote_validate_def vote_validate_basic_def vote_msg_type_def VALIDATOR_ADDR_SIZE_def
        vote_for_def request_for_def)
  moreover have "check_max_height (vote_request sample_tm sample_codec) sample_validator
      (nil_request None) = Done ()"
    by (simp add: check_max_height_def vote_operation_defs vote_for_def request_for_def
        sample_validator_def)
  moreover have "w_registry (world_at block_state Map.empty) (vc_chain_id sample_validator) =
      Some (chain_at block_state)"
    by (simp add: sample_validator_def)
  moreover have "ch_state (chain_at block_state) = mutex_new \<lparr>st_consensus_state = block_state,
      st_state_file_path = sample_path\<rparr>"
    by (simp add: chain_at_def)
  ultimately show ?thesis
    using conflicting_vote_refused [OF _ _ _ _ sample_parse [OF unseen_None],
        where ts1 = None and cc = sample_codec and config = sample_validator and prev = block_state
          and w = "world_at block_state Map.empty" and chain = "chain_at block_state"]
    by (simp add: mutex_new_def block_state_def) (simp add: sample_state_def)
qed

text \<open>
  C14: when a maximum height is configured for a validator, no vote and no proposal above it is
  signed for this validator: what is signed is a vote or a proposal whose height is at most the
  configured one.
\<close>

theorem nothing_signed_above_max_height:
  assumes "serve_one tm cc js j w = (w', es)" and "(c, r, q) \<in> set es"
    and "vc_max_height (jb_config j) = Some m"
  shows "(\<exists>v. r = SignVote \<lparr>svr_vote = Some v\<rparr> \<and> sint (v_height v) \<le> sint m) \<or>
    (\<exists>p. r = SignProposal \<lparr>spr_proposal = Some p\<rparr> \<and> sint (p_height p) \<le> sint m)"
proof (cases "jb_request j")
  case (SignVote x)
  with assms(1) have "serve_sign js (vote_request tm cc) SignVote j x w = (w', es)"
    by (simp add: serve_one_def)
  note e = serve_sign_entry [OF this assms(2)]
  obtain resp where "session_sign js (jb_state_file j) (vote_request tm cc) (jb_config j) x w = (w', Done resp)"
    using e(4) by blast
  from vote_rq.signed_below_max_height [OF this assms(3)] obtain h where
    "vote_validate x = Done ()" "vote_height x = Some h" "sint h \<le> sint m" by (auto simp: vote_request_def)
  then show ?thesis using e(2) by (cases x) (auto simp: vote_height_def)
next
  case (SignProposal x)
  with assms(1) have "serve_sign js (proposal_request tm cc) SignProposal j x w = (w', es)"
    by (simp add: serve_one_def)
  note e = serve_sign_entry [OF this assms(2)]
  obtain resp where "session_sign js (jb_state_file j) (proposal_request tm cc) (jb_config j) x w = (w', Done resp)"
    using e(4) by blast
  from proposal_rq.signed_below_max_height [OF this assms(3)] obtain h where
    "proposal_validate x = Done ()" "proposal_height x = Some h" "sint h \<le> sint m" by (auto simp: proposal_request_def)
  then show ?thesis using e(2) by (cases x) (auto simp: proposal_height_def)
qed (use assms in \<open>simp_all add: serve_one_def\<close>)

text \<open>A vote exactly at the maximum height.\<close>

theorem nothing_signed_above_max_height_witness:
  "\<exists>w' v. serve_one sample_tm sample_codec sample_json
      ((nil_job None)\<lparr>jb_config := sample_validator\<lparr>vc_max_height := Some 5\<rparr>\<rparr>) sample_world =
      (w', [(''c'', SignVote \<lparr>svr_vote = Some v\<rparr>, sample_state)]) \<and> sint (v_height v) \<le> 5"
proof -
  let ?j = "(nil_job None)\<lparr>jb_config := sample_validator\<lparr>vc_max_height := Some 5\<rparr>\<rparr>"
  have "snd (serve_one sample_tm sample_codec sample_json ?j sample_world) =
      [(''c'', SignVote \<lparr>svr_vote = Some (nil_vote None)\<rparr>, sample_state)]"
    by code_simp
  then obtain w' where run: "serve_one sample_tm sample_codec sample_json ?j sample_world =
      (w', [(''c'', SignVote \<lparr>svr_vote = Some (nil_vote None)\<rparr>, sample_state)])"
    by (metis prod.collapse)
  have "sint (v_height (nil_vote None)) \<le> 5"
    using nothing_signed_above_max_height [OF run, of "''c''" "SignVote \<lparr>svr_vote = Some (nil_vote None)\<rparr>" sample_state 5]
    by simp
  with run show ?thesis by blast
qed

text \<open>
  C13: serving a vote request never panics, whatever bytes it holds and however the write of
  the state file ends, as long as the chain is registered, its lock is not poisoned, its
  state file has a parent directory and its key does not panic.
\<close>

theorem vote_session_no_panic:
  assumes "height_conversion tm" and "encoders_total cc"
    and "w_registry w (vc_chain_id config) = Some chain" and "\<not> poisoned (ch_state chain)"
    and "path_parent (state_file_of chain) \<noteq> None"
    and "\<And>m. \<not> is_panic (sign_ed25519 None m (ch_keyring chain))"
  shows "\<not> is_panic (snd (session_sign js os (vote_request tm cc) config r w))"
  by (rule vote_rq.session_sign_no_panic [OF assms(1-4) _ assms(6)])
    (use assms(5) in \<open>simp add: state_file_of_def\<close>)

theorem vote_session_no_panic_witness:
  "\<not> is_panic (snd (session_sign sample_json Persist_fails (vote_request sample_tm sample_codec)
     sample_validator (nil_request None) sample_world))"
proof (rule vote_session_no_panic [OF sample_height_conversion sample_encoders_total])
  show "w_registry sample_world (vc_chain_id sample_validator) = Some (chain_at genesis_state)"
    by (simp add: sample_validator_def)
qed (simp_all add: chain_at_def mutex_new_def state_file_of_def path_parent_def sample_path_def
    sign_ed25519_def signer_sign_def sample_signer_def)

text \<open>
  C11: a valid vote below the maximum height whose state the chain accepts is signed: the reply
  is the vote with the signature that the chain's only key makes of the canonical bytes, as long
  as the state can be written.
\<close>

theorem acceptable_vote_is_signed:
  assumes "vote_validate \<lparr>svr_vote = Some v\<rparr> = Done ()"
    and "check_max_height (vote_request tm cc) config \<lparr>svr_vote = Some v\<rparr> = Done ()"
    and "w_registry w (vc_chain_id config) = Some chain" and "\<not> poisoned (ch_state chain)"
    and "parse_request (vote_request tm cc) \<lparr>svr_vote = Some v\<rparr> = Done (t, q)"
    and "consensus_check (st_consensus_state (guarded (ch_state chain))) q = Done ()"
    and "to_json js q = Some j" and "path_parent (state_file_of chain) \<noteq> None"
    and "vote_sign_bytes cc (vc_chain_id config) (vc_protocol_version config) \<lparr>svr_vote = Some v\<rparr> = Done b"
    and "kr_ed25519_keys (ch_keyring chain) = [(k, s)]" and "sg_try_sign s b = Done sig"
  shows "snd (session_sign js Write_ok (vote_request tm cc) config \<lparr>svr_vote = Some v\<rparr> w) =
    Done (SignedVote \<lparr>sv_vote = Some (v\<lparr>v_signature := sig\<rparr>), sv_err = None\<rparr>)"
proof -
  have "sign_ed25519 None b (ch_keyring chain) = Done sig"
    using assms(10,11) by (simp add: sign_ed25519_default signer_sign_def)
  then show ?thesis
    using vote_rq.acceptable_signed [OF _ assms(2-7), where b = b and sig = sig] assms(1,8,9)
    by (simp add: state_file_of_def vote_request_def vote_build_response_def vote_set_signature_def)
qed

theorem acceptable_vote_is_signed_witness:
  "snd (session_sign sample_json Write_ok (vote_request sample_tm sample_codec) sample_validator
     \<lparr>svr_vote = Some (nil_vote None)\<rparr> sample_world) =
   Done (SignedVote \<lparr>sv_vote = Some ((nil_vote None)\<lparr>v_signature := [0, 1, 5]\<rparr>), sv_err = None\<rparr>)"
proof (rule acceptable_vote_is_signed [where chain = "chain_at genesis_state" and q = sample_state and t = PreVote
      and j = "''x''" and b = "[1, 5]" and s = sample_signer])
  show "parse_request (vote_request sample_tm sample_codec) \<lparr>svr_vote = Some (nil_vote None)\<rparr> = Done (PreVote, sample_state)"
    using sample_parse [OF unseen_None, of sample_codec None] by (simp add: request_for_def)
  show "w_registry sample_world (vc_chain_id sample_validator) = Some (chain_at genesis_state)"
    by (simp add: sample_validator_def)
  show "path_parent (state_file_of (chain_at genesis_state)) \<noteq> None"
    by (simp add: config_state_file_def sample_chain_config_def path_parent_def sample_path_def)
  show "consensus_check (st_consensus_state (guarded (ch_state (chain_at genesis_state)))) sample_state = Done ()"
    by (simp add: chain_at_def mutex_new_def consensus_check_def genesis_state_def sample_state_def)
  show "to_json sample_json sample_state = Some ''x''"
    by (simp add: sample_json_def table_json_def genesis_state_def sample_state_def)
  show "vote_sign_bytes sample_codec (vc_chain_id sample_validator) (vc_protocol_version sample_validator)
      \<lparr>svr_vote = Some (nil_vote None)\<rparr> = Done [1, 5]"
    by (simp add: vote_sign_bytes_Some sample_validator_def sample_codec_def pb_canonical_vote_of_def vote_for_def)
  show "check_max_height (vote_request sample_tm sample_codec) sample_validator \<lparr>svr_vote = Some (nil_vote None)\<rparr> = Done ()"
    by (simp add: check_max_height_def vote_operation_defs vote_for_def sample_validator_def)
  show "vote_validate \<lparr>svr_vote = Some (nil_vote None)\<rparr> = Done ()"
    by (simp add: vote_validate_def vote_validate_basic_def vote_msg_type_def VALIDATOR_ADDR_SIZE_def vote_for_def)
qed (simp_all add: chain_at_def mutex_new_def sample_signer_def)

section \<open>Limits of the protection\<close>

text \<open>
  The round enters the consensus state as its low 16 bits, so a vote 65536 rounds later
  has the same consensus state.
\<close>

theorem vote_round_wraps:
  "vote_consensus_state tm \<lparr>svr_vote = Some (v\<lparr>v_round := v_round v + 65536\<rparr>)\<rparr> =
   vote_consensus_state tm \<lparr>svr_vote = Some v\<rparr>"
  by (simp add: vote_consensus_state_def trunc_u16_wraps split: option.splits)

definition headless :: "u8 \<Rightarrow> amino_block_id option" where
  "headless b = Some \<lparr>bid_hash = replicate 32 b, bid_parts_header = None\<rparr>"

lemma headless_unseen: "unseen_block (headless b)"
  by (simp add: unseen_block_def headless_def state_block_id_def parse_block_id_def
      block_id_validate_basic_def SHA256_HASH_SIZE_def split: option.splits)

lemma consensus_check_same: "consensus_check q q = Done ()"
  by (simp add: consensus_check_def)

text \<open>
  C38: a block ID that does not parse (a block hash without parts header passes validation) leaves
  no block ID in the consensus state, so that two votes with such block IDs at one height, round and
  type are both signed, one after the other, whatever the hashes: when the chain accepts the state
  of the first one, the state can be written, and the chain's only key signs, both replies carry
  the signature of the vote asked for.
\<close>

theorem headless_votes_both_signed:
  assumes "vote_validate \<lparr>svr_vote = Some u\<rparr> = Done ()" and "vote_validate \<lparr>svr_vote = Some v\<rparr> = Done ()"
    and "check_max_height (vote_request tm cc) config \<lparr>svr_vote = Some u\<rparr> = Done ()"
    and "v_height u = v_height v" and "v_round u = v_round v" and "v_vote_type u = v_vote_type v"
    and "state_block_id tm (v_block_id u) = None" and "state_block_id tm (v_block_id v) = None"
    and "w_registry w (vc_chain_id config) = Some chain" and "\<not> poisoned (ch_state chain)"
    and "parse_request (vote_request tm cc) \<lparr>svr_vote = Some u\<rparr> = Done (t, q)"
    and "consensus_check (st_consensus_state (guarded (ch_state chain))) q = Done ()"
    and "to_json js q = Some j" and "path_parent (state_file_of chain) \<noteq> None"
    and "vote_sign_bytes cc (vc_chain_id config) (vc_protocol_version config) \<lparr>svr_vote = Some u\<rparr> = Done b"
    and "vote_sign_bytes cc (vc_chain_id config) (vc_protocol_version config) \<lparr>svr_vote = Some v\<rparr> = Done b'"
    and "kr_ed25519_keys (ch_keyring chain) = [(k, s)]" and "sg_try_sign s b = Done sig" and "sg_try_sign s b' = Done sig'"
  shows "\<exists>w1 w2.
    session_sign js Write_ok (vote_request tm cc) config \<lparr>svr_vote = Some u\<rparr> w =
      (w1, Done (SignedVote \<lparr>sv_vote = Some (u\<lparr>v_signature := sig\<rparr>), sv_err = None\<rparr>)) \<and>
    session_sign js Write_ok (vote_request tm cc) config \<lparr>svr_vote = Some v\<rparr> w1 =
      (w2, Done (SignedVote \<lparr>sv_vote = Some (v\<lparr>v_signature := sig'\<rparr>), sv_err = None\<rparr>))"
proof -
  let ?c = "vc_chain_id config"
  let ?chain = "chain\<lparr>ch_state := \<lparr>guarded = (guarded (ch_state chain))\<lparr>st_consensus_state := q\<rparr>, poisoned = False\<rparr>\<rparr>"
  let ?w1 = "w\<lparr>w_registry := (w_registry w)(?c \<mapsto> ?chain),
    w_disk := (w_disk w)(st_state_file_path (guarded (ch_state chain)) \<mapsto> j)\<rparr>"
  have parse: "parse_request (vote_request tm cc) \<lparr>svr_vote = Some v\<rparr> = Done (t, q)"
  proof -
    have "rq_msg_type (vote_request tm cc) \<lparr>svr_vote = Some v\<rparr> = rq_msg_type (vote_request tm cc) \<lparr>svr_vote = Some u\<rparr>"
      using assms(6) by (simp add: vote_request_def vote_request_msg_type_def vote_msg_type_def)
    moreover have "rq_consensus_state (vote_request tm cc) \<lparr>svr_vote = Some v\<rparr> =
        rq_consensus_state (vote_request tm cc) \<lparr>svr_vote = Some u\<rparr>"
      using assms(4,5,7,8) by (simp add: vote_request_def vote_consensus_state_def split: option.split)
    ultimately show ?thesis using assms(11) by (simp add: parse_request_def)
  qed
  have height: "check_max_height (vote_request tm cc) config \<lparr>svr_vote = Some v\<rparr> = Done ()"
  proof -
    have height: "rq_height (vote_request tm cc) \<lparr>svr_vote = Some v\<rparr> = rq_height (vote_request tm cc) \<lparr>svr_vote = Some u\<rparr>"
      using assms(4) by (simp add: vote_request_def vote_height_def)
    show ?thesis using assms(3) unfolding check_max_height_def height .
  qed
  have sign: "sign_ed25519 None b (ch_keyring chain) = Done sig" "sign_ed25519 None b' (ch_keyring ?chain) = Done sig'"
    using assms(17-) by (simp_all add: sign_ed25519_default signer_sign_def)
  have path: "path_parent (st_state_file_path (guarded (ch_state chain))) \<noteq> None"
    using assms(14) by (simp add: state_file_of_def)
  have 1: "session_sign js Write_ok (vote_request tm cc) config \<lparr>svr_vote = Some u\<rparr> w =
      (?w1, Done (SignedVote \<lparr>sv_vote = Some (u\<lparr>v_signature := sig\<rparr>), sv_err = None\<rparr>))"
    using vote_rq.acceptable_signed [OF _ assms(3,9-13) path _ sign(1)] assms(1,15)
    by (simp add: vote_request_def vote_build_response_def vote_set_signature_def)
  have "\<exists>w2. session_sign js Write_ok (vote_request tm cc) config \<lparr>svr_vote = Some v\<rparr> ?w1 =
      (w2, Done (SignedVote \<lparr>sv_vote = Some (v\<lparr>v_signature := sig'\<rparr>), sv_err = None\<rparr>))"
    using vote_rq.acceptable_signed [OF _ height _ _ parse _ assms(13) _ _ sign(2), of ?w1] assms(2,16) path
    by (simp add: vote_request_def vote_build_response_def vote_set_signature_def consensus_check_same)
  with 1 show ?thesis by blast
qed

text \<open>Two votes for different block hashes: what is signed differs, in the canonical vote too.\<close>

theorem headless_votes_both_signed_witness:
  "pcv_block_id (pb_canonical_vote_of (vote_for (headless 1) None) ''c'') \<noteq>
   pcv_block_id (pb_canonical_vote_of (vote_for (headless 2) None) ''c'') \<and>
   (\<exists>w1 w2.
      session_sign sample_json Write_ok (vote_request sample_tm sample_codec) sample_validator
        \<lparr>svr_vote = Some (vote_for (headless 1) None)\<rparr> sample_world =
        (w1, Done (SignedVote \<lparr>sv_vote = Some ((vote_for (headless 1) None)\<lparr>v_signature := [0, 1, 5]\<rparr>), sv_err = None\<rparr>)) \<and>
      session_sign sample_json Write_ok (vote_request sample_tm sample_codec) sample_validator
        \<lparr>svr_vote = Some (vote_for (headless 2) None)\<rparr> w1 =
        (w2, Done (SignedVote \<lparr>sv_vote = Some ((vote_for (headless 2) None)\<lparr>v_signature := [0, 1, 5]\<rparr>), sv_err = None\<rparr>)))"
proof (rule conjI)
  show "pcv_block_id (pb_canonical_vote_of (vote_for (headless 1) None) ''c'') \<noteq>
      pcv_block_id (pb_canonical_vote_of (vote_for (headless 2) None) ''c'')"
    by code_simp
  show "\<exists>w1 w2.
      session_sign sample_json Write_ok (vote_request sample_tm sample_codec) sample_validator
        \<lparr>svr_vote = Some (vote_for (headless 1) None)\<rparr> sample_world =
        (w1, Done (SignedVote \<lparr>sv_vote = Some ((vote_for (headless 1) None)\<lparr>v_signature := [0, 1, 5]\<rparr>), sv_err = None\<rparr>)) \<and>
      session_sign sample_json Write_ok (vote_request sample_tm sample_codec) sample_validator
        \<lparr>svr_vote = Some (vote_for (headless 2) None)\<rparr> w1 =
        (w2, Done (SignedVote \<lparr>sv_vote = Some ((vote_for (headless 2) None)\<lparr>v_signature := [0, 1, 5]\<rparr>), sv_err = None\<rparr>))"
  proof (rule headless_votes_both_signed [where chain = "chain_at genesis_state" and q = sample_state and t = PreVote
        and j = "''x''" and b = "[1, 5]" and b' = "[1, 5]" and s = sample_signer])
    show "parse_request (vote_request sample_tm sample_codec) \<lparr>svr_vote = Some (vote_for (headless 1) None)\<rparr> =
        Done (PreVote, sample_state)"
      using sample_parse [OF headless_unseen, of sample_codec 1 None] by (simp add: request_for_def)
    show "w_registry sample_world (vc_chain_id sample_validator) = Some (chain_at genesis_state)"
      by (simp add: sample_validator_def)
    show "path_parent (state_file_of (chain_at genesis_state)) \<noteq> None"
      by (simp add: config_state_file_def sample_chain_config_def path_parent_def sample_path_def)
    show "\<not> poisoned (ch_state (chain_at genesis_state))" "kr_ed25519_keys (ch_keyring (chain_at genesis_state)) =
        [(ConsensusKey (Ed25519 [7]), sample_signer)]"
      by (simp_all add: chain_at_def mutex_new_def)
  qed (code_simp)+
qed

end
