(* ===== verification/Kms_Lives.thy ===== *)
theory Kms_Lives
  imports Signing_Properties Kms_Client
begin

text \<open>
  The KMS over several lives of its process.  Each life starts from the configuration and the
  state files that the earlier lives left, with its own answers of the operating system and the
  key stores, and serves the requests of the clients that it got running, also when starting a
  later client makes the process exit; it may end after any of them.  What was signed in all lives
  together is compared.
\<close>

record life =
  lf_threads :: "nat \<Rightarrow> bool"
  lf_env :: "chain_config \<Rightarrow> chain_env"
  lf_keys :: key_sources
  lf_jobs :: "job list"

fun kms_lives ::
  "tendermint_crate \<Rightarrow> canonical_codec \<Rightarrow> state_json \<Rightarrow> kms_config \<Rightarrow> life list \<Rightarrow> disk \<Rightarrow> disk \<times> signed_entry list" where
  "kms_lives tm cc js config [] d = (d, [])"
| "kms_lives tm cc js config (l # ls) d =
     (case spawn_clients (lf_threads l) tm js (lf_env l) (lf_keys l) config d of
        (((reg, d'), clients), _) \<Rightarrow>
          (case serve tm cc js (filter (\<lambda>j. jb_config j \<in> set clients) (lf_jobs l))
                  \<lparr>w_registry = reg, w_disk = d', w_sent = []\<rparr> of
             (w, es) \<Rightarrow>
               (case kms_lives tm cc js config ls (w_disk w) of (d'', es') \<Rightarrow> (d'', es @ es'))))"

section \<open>Loading the chains\<close>

text \<open>
  Loading never changes a state file that is there, and what it registers is at or after the
  states in the files.
\<close>

lemma chain_from_config_frame:
  assumes "chain_from_config tm js env config d = (d', r)" and "d p \<noteq> None"
  shows "d' p = d p"
proof (cases "d (config_state_file config) = None")
  case True
  then have "p \<noteq> config_state_file config" using assms(2) by auto
  then have "fst (load_state tm js (ce_read env) (ce_write env) (config_state_file config) d) p = d p"
    by (auto simp: load_state_def write_initial_state_def sync_to_disk_def Let_def rbind_split
        split: read_answer.splits option.splits write_answer.splits)
  then show ?thesis
    using assms(1) by (auto simp: chain_from_config_def Let_def rbind_split split: outcome.splits)
next
  case False
  then show ?thesis using chain_from_config_disk [OF assms(1)] by simp
qed

text \<open>Every chain of a registry is at or after its state in the files of a disk.\<close>

definition resumed :: "state_json \<Rightarrow> disk \<Rightarrow> registry \<Rightarrow> bool" where
  "resumed js d = registry_all (\<lambda>c ch. \<forall>q. stored_state js (state_file_of ch) d = Some q \<longrightarrow>
     covered state_position cs_block_id q (st_consensus_state (guarded (ch_state ch))))"

definition files_kept :: "disk \<Rightarrow> disk \<Rightarrow> bool" where
  "files_kept d d' \<longleftrightarrow> (\<forall>p. d p \<noteq> None \<longrightarrow> d' p = d p)"

lemma nothing_loaded [simp]: "files_kept d d" "resumed js d Map.empty"
  by (simp_all add: files_kept_def resumed_def)

lemma stored_kept: "files_kept d d' \<Longrightarrow> stored_state js p d = Some q \<Longrightarrow> stored_state js p d' = Some q"
  unfolding files_kept_def stored_state_def by (cases "d p") (auto dest: spec [of _ p])

lemma register_config_resumed:
  assumes "files_kept d (snd s) \<and> resumed js d (fst s)"
  shows "files_kept d (snd (fst (register_config tm js env config s))) \<and>
    resumed js d (fst (fst (register_config tm js env config s)))"
proof (cases "chain_from_config tm js (env config) config (snd s)")
  case (Pair d' r)
  have "files_kept d d'"
    using assms chain_from_config_frame [OF Pair] unfolding files_kept_def by metis
  moreover have "covered state_position cs_block_id q (st_consensus_state (guarded (ch_state ch)))"
    if "r = Done ch" "stored_state js (state_file_of ch) d = Some q" for ch q
    using chain_from_config_covers [OF Pair [unfolded that(1)]]
      chain_from_config_path [OF Pair [unfolded that(1)]] that(2) assms stored_kept
    by (metis state_file_of_def)
  ultimately show ?thesis
    using assms Pair
    by (cases r) (auto simp: register_config_def register_chain_def resumed_def registry_all_def
        case_prod_unfold)
qed

lemma load_chains_resumed:
  "files_kept d (snd (fst (load_chains tm js env configs (Map.empty, d)))) \<and>
   resumed js d (fst (fst (load_chains tm js env configs (Map.empty, d))))"
  unfolding load_chains_def
  by (rule for_each_invariant [of _ "\<lambda>s. files_kept d (snd s) \<and> resumed js d (fst s)"])
    (simp_all add: register_config_resumed)

text \<open>Once all chains are loaded, each is registered with the state file of its configuration.\<close>

lemma register_config_DoneD:
  assumes "register_config tm js env config s = (s', Done ())"
  shows "fst s \<subseteq>\<^sub>m fst s'"
    and "\<exists>ch. fst s' (cc_id config) = Some ch \<and> state_file_of ch = config_state_file config"
  using assms chain_from_config_DoneD(1) [of tm js "env config" config]
    chain_from_config_path [of tm js "env config" config]
  by (auto simp: register_config_def register_chain_def map_le_def state_file_of_def
      split: prod.splits outcome.splits option.splits)

lemma load_chains_DoneD:
  assumes "load_chains tm js env configs s = (s', Done ())"
  shows "fst s \<subseteq>\<^sub>m fst s' \<and> (\<forall>config \<in> set configs. \<exists>ch.
    fst s' (cc_id config) = Some ch \<and> state_file_of ch = config_state_file config)"
  using assms
proof (induction configs arbitrary: s)
  case Nil
  then show ?case by (simp add: load_chains_def)
next
  case (Cons config configs)
  obtain t where one: "register_config tm js env config s = (t, Done ())"
    and rest: "load_chains tm js env configs t = (s', Done ())"
    using Cons.prems by (auto simp: load_chains_def dest!: rbind_DoneD)
  note IH = Cons.IH [OF rest]
  obtain ch where "fst t (cc_id config) = Some ch" "state_file_of ch = config_state_file config"
    using register_config_DoneD(2) [OF one] by blast
  moreover from this(1) IH have "fst s' (cc_id config) = Some ch"
    unfolding map_le_def by (metis domI)
  ultimately show ?case
    using IH register_config_DoneD(1) [OF one] map_le_trans by auto
qed

section \<open>The whole start\<close>

text \<open>What the key stores add does not matter for the chain states.\<close>

lemma chain_load_config_states:
  "map_option ch_state \<circ> fst (fst (chain_load_config tm js env ks config s)) =
   map_option ch_state \<circ> fst (fst (load_chains tm js env (kc_chain config) s))"
  by (rule kept_chains.kept_loaded) (rule refl)

lemma loaded_state:
  assumes "chain_load_config tm js env ks config s = ((reg, d'), r)"
    and "load_chains tm js env (kc_chain config) s = ((reg0, d0), r0)"
  shows "map_option ch_state (reg c) = map_option ch_state (reg0 c)" and "d' = d0"
    and "r = Done () \<Longrightarrow> r0 = Done ()"
  using fun_cong [OF chain_load_config_states [of tm js env ks config s], of c] assms
  by (auto simp: chain_load_config_def rbind_split split: outcome.splits prod.splits)

lemma resumed_states:
  assumes "resumed js d reg0" and "map_option ch_state (reg c) = map_option ch_state (reg0 c)"
    and "reg c = Some ch" and "stored_state js (state_file_of ch) d = Some q"
  shows "covered state_position cs_block_id q (st_consensus_state (guarded (ch_state ch)))"
  using assms unfolding resumed_def registry_all_def state_file_of_def by (cases "reg0 c") auto

section \<open>One chain over all lives\<close>

text \<open>The node of the machine while the process is down.\<close>

abbreviation down_with :: "disk \<Rightarrow> consensus_state set \<Rightarrow> node" where
  "down_with d S \<equiv> \<lparr>nd_lock = None, nd_disk = d, nd_authorised = {}, nd_signed = S\<rparr>"

lemma down_kept:
  assumes "node_inv js p (down_with d S)" and "files_kept d d'"
  shows "node_inv js p (down_with d' S)"
  using assms(1) stored_kept [OF assms(2)] unfolding node_inv_def by simp metis

lemma started_node:
  assumes inv: "node_inv js p (down_with d S)" and kept: "files_kept d d'"
    and ch: "reg c = Some ch" "state_file_of ch = p"
    and cov: "\<And>q. stored_state js p d = Some q \<Longrightarrow>
      covered state_position cs_block_id q (st_consensus_state (guarded (ch_state ch)))"
  shows "node_inv js p (chain_node c \<lparr>w_registry = reg, w_disk = d', w_sent = []\<rparr> {} S)"
proof -
  have mem: "covered state_position cs_block_id e (st_consensus_state (guarded (ch_state ch)))" if "e \<in> S" for e
    using inv that cov covered_trans unfolding node_inv_def by fastforce
  have "\<exists>q. stored_state js p d' = Some q \<and> covered state_position cs_block_id e q" if "e \<in> S" for e
    using inv that stored_kept [OF kept] unfolding node_inv_def by fastforce
  with mem show ?thesis using inv ch by (simp add: node_inv_def state_file_of_def)
qed

lemma stopped_node:
  assumes "node_ok js cfg c w S"
  shows "node_inv js (config_state_file cfg) (down_with (w_disk w) S)"
  using assms unfolding node_ok_def node_inv_def by (auto intro: agreeing_mono)

lemma one_life:
  assumes js: "json_roundtrip js" and sep: "separate_config config"
    and cfg: "cfg \<in> set (kc_chain config)"
    and inv: "node_inv js (config_state_file cfg) (down_with d S)"
    and run: "kms_lives tm cc js config [l] d = (d', es)"
  shows "node_inv js (config_state_file cfg) (down_with d' (S \<union> states_of (cc_id cfg) es))"
proof -
  obtain reg d1 clients r where start:
    "spawn_clients (lf_threads l) tm js (lf_env l) (lf_keys l) config d = (((reg, d1), clients), r)"
    by (metis surj_pair)
  obtain r1 where load: "chain_load_config tm js (lf_env l) (lf_keys l) config (Map.empty, d) = ((reg, d1), r1)"
    and r1: "clients \<noteq> [] \<or> r = Done () \<Longrightarrow> r1 = Done ()"
    using spawn_clients_load [OF start] by blast
  obtain reg0 d0 r0 where chains: "load_chains tm js (lf_env l) (kc_chain config) (Map.empty, d) = ((reg0, d0), r0)"
    by (metis surj_pair)
  note loaded = loaded_state [OF load chains]
  have kept: "files_kept d d1" and res: "resumed js d reg0"
    using load_chains_resumed [of d tm js "lf_env l" "kc_chain config"] chains loaded(2) by simp_all
  show ?thesis
  proof (cases clients)
    case (Cons client more)
    have "r0 = Done ()" using loaded(3) r1 Cons by simp
    then obtain ch0 where "reg0 (cc_id cfg) = Some ch0" "state_file_of ch0 = config_state_file cfg"
      using load_chains_DoneD [OF chains [unfolded \<open>r0 = Done ()\<close>]] cfg by auto
    then obtain ch where ch: "reg (cc_id cfg) = Some ch" "state_file_of ch = config_state_file cfg"
      using loaded(1) [of "cc_id cfg"] by (cases "reg (cc_id cfg)") (auto simp: state_file_of_def)
    let ?w = "\<lparr>w_registry = reg, w_disk = d1, w_sent = []\<rparr>"
    have "separate_files reg" using loaded_separate [OF sep, of tm js "lf_env l" "lf_keys l" d] load by simp
    moreover have "node_inv js (config_state_file cfg) (chain_node (cc_id cfg) ?w {} S)"
      using resumed_states [where reg = reg and c = "cc_id cfg", OF res loaded(1) ch(1)] ch(2)
      by (intro started_node [where reg = reg and ch = ch, OF inv kept ch(1)]) simp_all
    ultimately have "node_ok js cfg (cc_id cfg) ?w S"
      using ch unfolding node_ok_def by auto
    from stopped_node [OF serve_ok [OF js this, of tm cc "filter (\<lambda>j. jb_config j \<in> set clients) (lf_jobs l)"]] show ?thesis
      using run start by (auto split: prod.splits)
  qed (use run start down_kept [OF inv kept] in auto)
qed

lemma lives_inv:
  assumes "json_roundtrip js" and "separate_config config" and "cfg \<in> set (kc_chain config)"
    and "node_inv js (config_state_file cfg) (down_with d S)"
  shows "node_inv js (config_state_file cfg)
    (down_with (fst (kms_lives tm cc js config ls d)) (S \<union> states_of (cc_id cfg) (snd (kms_lives tm cc js config ls d))))"
  using assms(4)
proof (induction ls arbitrary: d S)
  case Nil
  then show ?case by simp
next
  case (Cons l ls)
  obtain d1 es where one: "kms_lives tm cc js config [l] d = (d1, es)" by (metis surj_pair)
  have split: "kms_lives tm cc js config (l # ls) d =
      (fst (kms_lives tm cc js config ls d1), es @ snd (kms_lives tm cc js config ls d1))"
    using one by (auto split: prod.splits outcome.splits)
  show ?case
    using Cons.IH [OF one_life [OF assms(1-3) Cons.prems one]] by (simp only: split fst_conv snd_conv states_of_simps Un_assoc)
qed

text \<open>Nothing is ever signed for a chain that is not registered.\<close>

lemma serve_sign_ids:
  assumes "serve_sign js R wrap j x w = (w', es)"
  shows "fst ` set es \<subseteq> {vc_chain_id (jb_config j)}"
proof -
  have "fst ` set (snd (serve_sign js R wrap j x w)) \<subseteq> {vc_chain_id (jb_config j)}"
    unfolding serve_sign_def by (auto split: prod.split outcome.split option.split)
  then show ?thesis by (simp add: assms)
qed

lemma serve_sign_entries:
  assumes "serve_sign js R wrap j x w = (w', es)"
  shows "dom (w_registry w') = dom (w_registry w) \<and> fst ` set es \<subseteq> dom (w_registry w)"
proof -
  obtain v res where ss: "session_sign js (jb_state_file j) R (jb_config j) x w = (v, res)"
    by (metis surj_pair)
  then have v: "v = w'" using assms by (auto simp: serve_sign_def split: outcome.splits)
  show ?thesis
    using ss
  proof (cases rule: session_sign_cases)
    case early
    then show ?thesis using assms ss v by (cases res) (auto simp: serve_sign_def)
  next
    case (critical chain t q l d' u)
    have mem: "vc_chain_id (jb_config j) \<in> dom (w_registry w)" using critical(1) by (rule domI)
    have "dom (w_registry v) = dom (w_registry w)"
      using insert_absorb [OF mem] by (simp add: critical(4))
    moreover have "fst ` set es \<subseteq> dom (w_registry w)"
      by (rule subset_trans [OF serve_sign_ids [OF assms]]) (simp only: mem insert_subset empty_subsetI simp_thms)
    ultimately show ?thesis unfolding v by (rule conjI)
  qed
qed

lemma serve_one_entries:
  assumes "serve_one tm cc js j w = (w', es)"
  shows "dom (w_registry w') = dom (w_registry w) \<and> fst ` set es \<subseteq> dom (w_registry w)"
proof (cases "jb_request j")
  case (SignProposal x)
  show ?thesis
    by (rule serve_sign_entries [of js "proposal_request tm cc" SignProposal j x])
      (use assms SignProposal in \<open>simp add: serve_one_def\<close>)
next
  case (SignVote x)
  show ?thesis
    by (rule serve_sign_entries [of js "vote_request tm cc" SignVote j x])
      (use assms SignVote in \<open>simp add: serve_one_def\<close>)
qed (use assms in \<open>simp_all add: serve_one_def\<close>)

lemma serve_entries: "fst ` set (snd (serve tm cc js jobs w)) \<subseteq> dom (w_registry w)"
proof (induction jobs arbitrary: w)
  case (Cons j jobs)
  obtain w1 es1 where one: "serve_one tm cc js j w = (w1, es1)" by (metis surj_pair)
  then have "snd (serve tm cc js (j # jobs) w) = es1 @ snd (serve tm cc js jobs w1)"
    by (simp add: case_prod_unfold)
  then show ?case using serve_one_entries [OF one] Cons.IH [of w1] by (simp only: set_append image_Un) blast
qed simp

lemma lives_entries: "fst ` set (snd (kms_lives tm cc js config ls d)) \<subseteq> cc_id ` set (kc_chain config)"
proof (induction ls arbitrary: d)
  case (Cons l ls)
  obtain reg d1 clients r where start:
    "spawn_clients (lf_threads l) tm js (lf_env l) (lf_keys l) config d = (((reg, d1), clients), r)"
    by (metis surj_pair)
  then obtain r1 where load: "chain_load_config tm js (lf_env l) (lf_keys l) config (Map.empty, d) = ((reg, d1), r1)"
    by (rule spawn_clients_load)
  let ?jobs = "filter (\<lambda>j. jb_config j \<in> set clients) (lf_jobs l)"
  have "dom reg \<subseteq> cc_id ` set (kc_chain config)"
    using filed_chains.all_loaded [of config "kc_chain config" tm js "lf_env l" "lf_keys l" d] load
    by (auto simp: registry_all_def)
  then have served: "fst ` set (snd (serve tm cc js ?jobs \<lparr>w_registry = reg, w_disk = d1, w_sent = []\<rparr>)) \<subseteq>
      cc_id ` set (kc_chain config)"
    using serve_entries [of tm cc js ?jobs "\<lparr>w_registry = reg, w_disk = d1, w_sent = []\<rparr>"] by simp
  then show ?case using Cons.IH by (simp add: start case_prod_unfold image_Un)
qed simp

text \<open>Each vote that was signed in some life is recorded under the state of its request.\<close>

lemma lives_vote_entry:
  "(c, SignVote r, q) \<in> set (snd (kms_lives tm cc js config ls d)) \<Longrightarrow>
     \<exists>t. parse_request (vote_request tm cc) r = Done (t, q)"
proof (induction ls arbitrary: d)
  case (Cons l ls)
  obtain reg d1 clients res where start:
    "spawn_clients (lf_threads l) tm js (lf_env l) (lf_keys l) config d = (((reg, d1), clients), res)"
    by (metis surj_pair)
  let ?run = "serve tm cc js (filter (\<lambda>j. jb_config j \<in> set clients) (lf_jobs l))
    \<lparr>w_registry = reg, w_disk = d1, w_sent = []\<rparr>"
  have "(c, SignVote r, q) \<in> set (snd ?run) \<or>
      (c, SignVote r, q) \<in> set (snd (kms_lives tm cc js config ls (w_disk (fst ?run))))"
    using Cons.prems by (simp add: start case_prod_unfold)
  then show ?case using Cons.IH serve_vote_entry by blast
qed simp

lemma lives_agreeing:
  assumes "json_roundtrip js" and "separate_config config"
  shows "agreeing state_position cs_block_id (states_of c (snd (kms_lives tm cc js config ls d)))"
proof (cases "\<exists>cfg \<in> set (kc_chain config). cc_id cfg = c")
  case True
  then obtain cfg where cfg: "cfg \<in> set (kc_chain config)" "cc_id cfg = c" by blast
  have "node_inv js (config_state_file cfg) (down_with d {})" by (simp add: node_inv_def)
  from lives_inv [OF assms cfg(1) this, of tm cc ls] show ?thesis
    by (simp add: node_inv_def cfg(2))
next
  case False
  then have "states_of c (snd (kms_lives tm cc js config ls d)) = {}"
    using lives_entries [of tm cc js config ls d] unfolding states_of_def by force
  then show ?thesis by simp
qed

end
