(* ===== verification/Concurrent_Sessions.thy ===== *)
theory Concurrent_Sessions
  imports Kms_Lives
begin

text \<open>
  The sessions as concurrent threads.  \<^verbatim>\<open>src/commands/start.rs\<close> spawns one client thread per
  validator; the threads share the registry of chains (\<^verbatim>\<open>src/chain/registry.rs\<close>), and the
  state of a chain is behind a mutex (\<^verbatim>\<open>src/chain.rs\<close>).  Here \<^verbatim>\<open>Session::sign\<close> is cut into the
  steps that other threads can see between: the checks before the lock, taking the lock,
  comparing the request with the state in memory, overwriting that state, writing the state
  file and releasing the lock, and signing the reply.  The steps of different threads
  interleave in any order.  An error, a panic or a lost connection outside the lock is the step
  \<open>abandon\<close>; writing the file replaces it as a whole, so that it is one step.

  Shown: the state lock excludes (\<open>reachable_exclusive\<close>); every interleaving has the disk, the
  chain states and the signatures of the same requests served one after the other, and
  conversely; on every run the holder of the lock gives it back after at most three steps of its
  own; and the threads of all lives of the process do what serial lives do (\<open>kms_threads_serial\<close>).
\<close>

section \<open>The phases of sign\<close>

text \<open>What is checked before the chain is looked up.\<close>

definition sign_admitted ::
  "'r tendermint_request \<Rightarrow> validator_config \<Rightarrow> 'r \<Rightarrow> (error_kind, unit) outcome" where
  "sign_admitted R config request =
     obind (map_err (\<lambda>_. SigningError) (rq_validate R request)) (\<lambda>_. check_max_height R config request)"

definition request_admitted ::
  "tendermint_crate \<Rightarrow> canonical_codec \<Rightarrow> validator_config \<Rightarrow> request \<Rightarrow> bool" where
  "request_admitted tm cc config rq =
     (case rq of
        SignVote r \<Rightarrow> is_done (sign_admitted (vote_request tm cc) config r)
      | SignProposal r \<Rightarrow> is_done (sign_admitted (proposal_request tm cc) config r)
      | _ \<Rightarrow> False)"

text \<open>The consensus state of a request, when it can be parsed.\<close>

fun done_value :: "('e, 'a) outcome \<Rightarrow> 'a option" where
  "done_value (Done a) = Some a"
| "done_value _ = None"

definition request_state :: "tendermint_crate \<Rightarrow> canonical_codec \<Rightarrow> request \<Rightarrow> consensus_state option" where
  "request_state tm cc rq =
     (case rq of
        SignVote r \<Rightarrow> map_option snd (done_value (parse_request (vote_request tm cc) r))
      | SignProposal r \<Rightarrow> map_option snd (done_value (parse_request (proposal_request tm cc) r))
      | _ \<Rightarrow> None)"

text \<open>Whether signing, after the state lock is released, gives a reply.\<close>

definition request_signed ::
  "tendermint_crate \<Rightarrow> canonical_codec \<Rightarrow> validator_config \<Rightarrow> keyring \<Rightarrow> request \<Rightarrow> bool" where
  "request_signed tm cc config keyring rq =
     (case rq of
        SignVote r \<Rightarrow> is_done (sign_and_reply (vote_request tm cc) config keyring r)
      | SignProposal r \<Rightarrow> is_done (sign_and_reply (proposal_request tm cc) config keyring r)
      | _ \<Rightarrow> False)"

text \<open>The assignment to the state behind the lock, seen in the registry.\<close>

definition record_state :: "consensus_state \<Rightarrow> chain \<Rightarrow> chain" where
  "record_state q chain =
     chain\<lparr>ch_state := (ch_state chain)\<lparr>guarded := (guarded (ch_state chain))\<lparr>st_consensus_state := q\<rparr>\<rparr>\<rparr>"

abbreviation chain_memory :: "chain \<Rightarrow> consensus_state" where
  "chain_memory chain \<equiv> st_consensus_state (guarded (ch_state chain))"

section \<open>The threads\<close>

datatype phase =
    Idle
  | Admitted request
  | Locked request consensus_state
  | Checked request consensus_state
  | Recorded request consensus_state
  | Stored request consensus_state

record thread =
  th_config :: validator_config
  th_phase :: phase

record pool =
  pl_world :: world
  pl_threads :: "thread list"
  pl_signed :: "signed_entry list"

abbreviation th_chain :: "thread \<Rightarrow> chain_id" where
  "th_chain t \<equiv> vc_chain_id (th_config t)"

fun in_section :: "phase \<Rightarrow> bool" where
  "in_section (Locked rq q) = True"
| "in_section (Checked rq q) = True"
| "in_section (Recorded rq q) = True"
| "in_section _ = False"

text \<open>A thread that holds the state lock of a chain.\<close>

definition holds :: "chain_id \<Rightarrow> thread \<Rightarrow> bool" where
  "holds c t \<longleftrightarrow> th_chain t = c \<and> in_section (th_phase t)"

definition set_phase :: "thread list \<Rightarrow> nat \<Rightarrow> phase \<Rightarrow> thread list" where
  "set_phase ts i ph = ts[i := (ts ! i)\<lparr>th_phase := ph\<rparr>]"

text \<open>One thread at its next step: its number, its configuration and its phase.\<close>

definition runs :: "pool \<Rightarrow> nat \<Rightarrow> validator_config \<Rightarrow> phase \<Rightarrow> bool" where
  "runs p i config ph \<longleftrightarrow> i < length (pl_threads p) \<and> pl_threads p ! i = \<lparr>th_config = config, th_phase = ph\<rparr>"

text \<open>The pool when a thread goes to another phase, and when it changes the world too.\<close>

definition to_phase :: "nat \<Rightarrow> phase \<Rightarrow> pool \<Rightarrow> pool" where
  "to_phase i ph p = p\<lparr>pl_threads := set_phase (pl_threads p) i ph\<rparr>"

definition set_chain :: "chain_id \<Rightarrow> chain \<Rightarrow> disk \<Rightarrow> pool \<Rightarrow> pool" where
  "set_chain c chain d p =
     p\<lparr>pl_world := (pl_world p)\<lparr>w_registry := (w_registry (pl_world p))(c \<mapsto> chain), w_disk := d\<rparr>\<rparr>"

abbreviation registered :: "pool \<Rightarrow> validator_config \<Rightarrow> chain \<Rightarrow> bool" where
  "registered p config chain \<equiv> w_registry (pl_world p) (vc_chain_id config) = Some chain"

text \<open>A step of the thread with number \<open>i\<close>.\<close>

inductive thread_step :: "tendermint_crate \<Rightarrow> canonical_codec \<Rightarrow> state_json \<Rightarrow> nat \<Rightarrow> pool \<Rightarrow> pool \<Rightarrow> bool"
  for tm :: tendermint_crate and cc :: canonical_codec and js :: state_json where
  admit: "runs p i config Idle \<Longrightarrow> request_admitted tm cc config rq \<Longrightarrow>
     thread_step tm cc js i p (to_phase i (Admitted rq) p)"
| lock: "runs p i config (Admitted rq) \<Longrightarrow> registered p config chain \<Longrightarrow>
     request_state tm cc rq = Some q \<Longrightarrow> list_all (\<lambda>t. \<not> holds (vc_chain_id config) t) (pl_threads p) \<Longrightarrow>
     \<not> poisoned (ch_state chain) \<Longrightarrow>
     thread_step tm cc js i p (to_phase i (Locked rq q) p)"
| refuse: "runs p i config (Locked rq q) \<Longrightarrow> registered p config chain \<Longrightarrow>
     consensus_check (chain_memory chain) q \<noteq> Done () \<Longrightarrow>
     thread_step tm cc js i p (to_phase i Idle p)"
| accept: "runs p i config (Locked rq q) \<Longrightarrow> registered p config chain \<Longrightarrow>
     consensus_check (chain_memory chain) q = Done () \<Longrightarrow>
     thread_step tm cc js i p (to_phase i (Checked rq q) p)"
| overwrite: "runs p i config (Checked rq q) \<Longrightarrow> registered p config chain \<Longrightarrow>
     thread_step tm cc js i p
       (to_phase i (Recorded rq q)
          (set_chain (vc_chain_id config) (record_state q chain) (w_disk (pl_world p)) p))"
| persist: "runs p i config (Recorded rq q) \<Longrightarrow> registered p config chain \<Longrightarrow>
     sync_to_disk js os (guarded (ch_state chain)) (w_disk (pl_world p)) = (d', r) \<Longrightarrow>
     thread_step tm cc js i p
       (to_phase i (if r = Done () then Stored rq q else Idle)
          (set_chain (vc_chain_id config) (chain\<lparr>ch_state := (ch_state chain)\<lparr>poisoned := is_panic r\<rparr>\<rparr>) d' p))"
| reply: "runs p i config (Stored rq q) \<Longrightarrow> registered p config chain \<Longrightarrow>
     request_signed tm cc config (ch_keyring chain) rq \<Longrightarrow>
     thread_step tm cc js i p (to_phase i Idle (p\<lparr>pl_signed := pl_signed p @ [(vc_chain_id config, rq, q)]\<rparr>))"
| abandon: "runs p i config ph \<Longrightarrow> \<not> in_section ph \<Longrightarrow>
     thread_step tm cc js i p (to_phase i Idle p)"

text \<open>A step of some thread, and a run of steps, each with the thread that makes it and the pool after it.\<close>

definition pool_step :: "tendermint_crate \<Rightarrow> canonical_codec \<Rightarrow> state_json \<Rightarrow> pool \<Rightarrow> pool \<Rightarrow> bool" where
  "pool_step tm cc js p p' \<longleftrightarrow> (\<exists>i. thread_step tm cc js i p p')"

fun thread_path ::
  "tendermint_crate \<Rightarrow> canonical_codec \<Rightarrow> state_json \<Rightarrow> pool \<Rightarrow> (nat \<times> pool) list \<Rightarrow> bool" where
  "thread_path tm cc js p [] \<longleftrightarrow> True"
| "thread_path tm cc js p ((i, p') # steps) \<longleftrightarrow> thread_step tm cc js i p p' \<and> thread_path tm cc js p' steps"

lemma pool_stepI: "thread_step tm cc js i p p' \<Longrightarrow> pool_step tm cc js p p'"
  unfolding pool_step_def by blast

lemma pool_stepE:
  assumes "pool_step tm cc js p p'"
  obtains i where "thread_step tm cc js i p p'"
  using assms unfolding pool_step_def by blast

lemmas pool_admit = thread_step.admit [THEN pool_stepI]
  and pool_lock = thread_step.lock [THEN pool_stepI]
  and pool_accept = thread_step.accept [THEN pool_stepI]
  and pool_overwrite = thread_step.overwrite [THEN pool_stepI]
  and pool_persist = thread_step.persist [THEN pool_stepI]
  and pool_reply = thread_step.reply [THEN pool_stepI]
  and pool_abandon = thread_step.abandon [THEN pool_stepI]

definition start_threads :: "validator_config list \<Rightarrow> world \<Rightarrow> pool" where
  "start_threads configs w =
     \<lparr>pl_world = w, pl_threads = map (\<lambda>config. \<lparr>th_config = config, th_phase = Idle\<rparr>) configs, pl_signed = []\<rparr>"

section \<open>Serving a request in phases\<close>

lemma done_value_Some [simp]: "done_value x = Some a \<longleftrightarrow> x = Done a"
  by (cases x) auto

lemma sign_admitted_iff:
  "is_done (sign_admitted R config r) \<longleftrightarrow> rq_validate R r = Done () \<and> check_max_height R config r = Done ()"
  by (cases "rq_validate R r"; cases "check_max_height R config r") (auto simp: sign_admitted_def)

text \<open>What serving a request does when it may start.\<close>

definition served :: "tendermint_crate \<Rightarrow> canonical_codec \<Rightarrow> state_json \<Rightarrow> job \<Rightarrow> consensus_state \<Rightarrow> chain \<Rightarrow> world
    \<Rightarrow> world \<times> signed_entry list" where
  "served tm cc js j q chain w =
     (case with_lock (ch_state chain) (w_disk w) (update_consensus_state js (jb_state_file j) q) of
        ((l, d'), u) \<Rightarrow>
          (w\<lparr>w_registry := (w_registry w)(vc_chain_id (jb_config j) \<mapsto> chain\<lparr>ch_state := l\<rparr>), w_disk := d'\<rparr>,
           if u = Done () \<and> request_signed tm cc (jb_config j) (ch_keyring chain) (jb_request j)
           then [(vc_chain_id (jb_config j), jb_request j, q)] else []))"

context signable_request
begin

lemma serve_sign_refused:
  assumes "\<not> is_done (sign_admitted R (jb_config j) r) \<or> w_registry w (vc_chain_id (jb_config j)) = None \<or>
    done_value (parse_request R r) = None"
  shows "serve_sign js R wrap j r w = (w, [])"
proof -
  have "parse_request R r \<noteq> Done (t, q)" if "done_value (parse_request R r) = None" for t q
    using that by auto
  then show ?thesis
    using assms unfolding sign_admitted_iff serve_sign_def session_sign_def get_chain_def
    by (cases "rq_validate R r"; cases "check_max_height R (jb_config j) r";
        cases "w_registry w (vc_chain_id (jb_config j))"; cases "parse_request R r")
      (auto simp: session_update_consensus_state_def fun_upd_idem)
qed

lemma serve_sign_phases:
  assumes "is_done (sign_admitted R (jb_config j) r)" and "w_registry w (vc_chain_id (jb_config j)) = Some chain"
    and pr: "parse_request R r = Done (t, q)"
    and lk: "with_lock (ch_state chain) (w_disk w) (update_consensus_state js (jb_state_file j) q) = ((l, d'), u)"
  shows "serve_sign js R wrap j r w =
    (w\<lparr>w_registry := (w_registry w)(vc_chain_id (jb_config j) \<mapsto> chain\<lparr>ch_state := l\<rparr>), w_disk := d'\<rparr>,
     if u = Done () \<and> is_done (sign_and_reply R (jb_config j) (ch_keyring chain) r)
     then [(vc_chain_id (jb_config j), wrap r, q)] else [])"
proof -
  have reply: "response_err resp = None"
    if "sign_and_reply R (jb_config j) (ch_keyring chain) r = Done resp" for resp
    using that ok_reply by (auto elim: sign_and_reply_DoneD)
  show ?thesis
    using assms(1,2) pr lk reply unfolding sign_admitted_iff
    by (auto simp: serve_sign_def session_sign_def get_chain_def session_update_consensus_state_def
        rbind_split error_reply is_done_iff split: outcome.splits state_error_kind.splits)
qed

end

lemma serve_one_refused:
  assumes "\<not> request_admitted tm cc (jb_config j) (jb_request j) \<or>
    w_registry w (vc_chain_id (jb_config j)) = None \<or> request_state tm cc (jb_request j) = None"
  shows "serve_one tm cc js j w = (w, [])"
  using assms
  by (cases "jb_request j")
    (auto simp: serve_one_def request_admitted_def request_state_def vote_rq.serve_sign_refused
      proposal_rq.serve_sign_refused)

lemma serve_one_phases:
  assumes "request_admitted tm cc (jb_config j) (jb_request j)"
    and "w_registry w (vc_chain_id (jb_config j)) = Some chain"
    and "request_state tm cc (jb_request j) = Some q"
  shows "serve_one tm cc js j w = served tm cc js j q chain w"
proof -
  obtain l d' u where lk:
    "with_lock (ch_state chain) (w_disk w) (update_consensus_state js (jb_state_file j) q) = ((l, d'), u)"
    by (metis surj_pair)
  show ?thesis
    using assms(1,3) vote_rq.serve_sign_phases [OF _ assms(2) _ lk]
      proposal_rq.serve_sign_phases [OF _ assms(2) _ lk]
    by (cases "jb_request j")
      (auto simp: serve_one_def request_admitted_def request_state_def request_signed_def served_def lk)
qed

text \<open>The three ways through the critical section.\<close>

lemma served_poisoned: "poisoned (ch_state chain) \<Longrightarrow> w_registry w (vc_chain_id (jb_config j)) = Some chain \<Longrightarrow>
    served tm cc js j q chain w = (w, [])"
  by (simp add: served_def fun_upd_idem)

lemma served_refused:
  assumes "\<not> poisoned (ch_state chain)" and "w_registry w (vc_chain_id (jb_config j)) = Some chain"
    and "consensus_check (chain_memory chain) q \<noteq> Done ()"
  shows "served tm cc js j q chain w = (w, [])"
proof -
  obtain e where e: "consensus_check (chain_memory chain) q = Failed e"
    using assms(3) consensus_check_cases by blast
  have "ch_state chain = \<lparr>guarded = guarded (ch_state chain), poisoned = False\<rparr>"
    using assms(1) by (cases "ch_state chain") simp
  then have "chain\<lparr>ch_state := \<lparr>guarded = guarded (ch_state chain), poisoned = False\<rparr>\<rparr> = chain" by simp
  then show ?thesis
    using assms(1,2) by (simp add: served_def with_lock_def update_consensus_state_rejected [OF e] fun_upd_idem)
qed

lemma served_persisted:
  assumes "\<not> poisoned (ch_state chain)" and "consensus_check (chain_memory chain) q = Done ()"
    and "sync_to_disk js (jb_state_file j) (guarded (ch_state (record_state q chain))) (w_disk w) = (d', r)"
  shows "served tm cc js j q chain w =
    (w\<lparr>w_registry := (w_registry w)(vc_chain_id (jb_config j) \<mapsto>
         (record_state q chain)\<lparr>ch_state := (ch_state (record_state q chain))\<lparr>poisoned := is_panic r\<rparr>\<rparr>),
       w_disk := d'\<rparr>,
     if r = Done () \<and> request_signed tm cc (jb_config j) (ch_keyring chain) (jb_request j)
     then [(vc_chain_id (jb_config j), jb_request j, q)] else [])"
  using assms
  by (cases "ch_state chain"; cases r)
    (auto simp: served_def with_lock_def update_consensus_state_def record_state_def Let_def)

lemma serve_append:
  "serve tm cc js (jobs @ jobs') w =
     (case serve tm cc js jobs w of (w', es) \<Rightarrow> case serve tm cc js jobs' w' of (w'', es') \<Rightarrow> (w'', es @ es'))"
  by (induction jobs arbitrary: w) (auto split: prod.splits)

section \<open>Mutual exclusion\<close>

lemma set_phase_simps [simp]:
  "length (set_phase ts i ph) = length ts"
  "j < length ts \<Longrightarrow> set_phase ts i ph ! j = (if j = i then (ts ! i)\<lparr>th_phase := ph\<rparr> else ts ! j)"
  by (simp_all add: set_phase_def nth_list_update)

lemma set_phase_configs [simp]:
  "i < length ts \<Longrightarrow> map th_config (set_phase ts i ph) = map th_config ts"
  by (rule nth_equalityI) simp_all

lemma to_phase_simps [simp]:
  "pl_world (to_phase i ph p) = pl_world p" "pl_signed (to_phase i ph p) = pl_signed p"
  "pl_threads (to_phase i ph p) = set_phase (pl_threads p) i ph"
  by (simp_all add: to_phase_def)

lemma set_chain_simps [simp]:
  "pl_world (set_chain c chain d p) =
     (pl_world p)\<lparr>w_registry := (w_registry (pl_world p))(c \<mapsto> chain), w_disk := d\<rparr>"
  "pl_signed (set_chain c chain d p) = pl_signed p" "pl_threads (set_chain c chain d p) = pl_threads p"
  by (simp_all add: set_chain_def)

lemma record_state_simps [simp]:
  "ch_keyring (record_state q chain) = ch_keyring chain"
  "poisoned (ch_state (record_state q chain)) = poisoned (ch_state chain)"
  "chain_memory (record_state q chain) = q"
  by (simp_all add: record_state_def)

text \<open>At most one thread is in the critical section of a chain.\<close>

definition exclusive :: "thread list \<Rightarrow> bool" where
  "exclusive ts \<longleftrightarrow>
     (\<forall>c. \<forall>i < length ts. \<forall>j < length ts. holds c (ts ! i) \<and> holds c (ts ! j) \<longrightarrow> i = j)"

lemma exclusiveD:
  "exclusive ts \<Longrightarrow> holds c (ts ! i) \<Longrightarrow> holds c (ts ! j) \<Longrightarrow> i < length ts \<Longrightarrow> j < length ts \<Longrightarrow> j = i"
  unfolding exclusive_def by metis

text \<open>The lock is kept or given back, or taken when nobody holds it.\<close>

lemma holds_set_phase [simp]:
  "holds c (t\<lparr>th_phase := ph\<rparr>) \<longleftrightarrow> th_chain t = c \<and> in_section ph"
  by (simp add: holds_def)

lemma exclusive_set_phase:
  assumes "exclusive ts"
    and "\<not> in_section ph \<or> in_section (th_phase (ts ! i)) \<or> list_all (\<lambda>t. \<not> holds (th_chain (ts ! i)) t) ts"
  shows "exclusive (set_phase ts i ph)"
proof -
  have other: "j = i"
    if "in_section ph" "j < length ts" "i < length ts" "holds (th_chain (ts ! i)) (ts ! j)" for j
    using that assms exclusiveD [OF assms(1), of "th_chain (ts ! i)" i j]
    by (auto simp: holds_def list_all_length)
  have "a = b" if "a < length ts" "b < length ts" "holds c (set_phase ts i ph ! a)" "holds c (set_phase ts i ph ! b)"
    for a b c
  proof (cases "a = i \<or> b = i")
    case True
    then show ?thesis using that other by (auto split: if_splits)
  next
    case False
    then show ?thesis using that exclusiveD [OF assms(1), of c a b] by simp
  qed
  then show ?thesis unfolding exclusive_def set_phase_simps(1) by blast
qed

lemma runsD:
  "runs p i config ph \<Longrightarrow>
     i < length (pl_threads p) \<and> th_config (pl_threads p ! i) = config \<and> th_phase (pl_threads p ! i) = ph"
  by (simp add: runs_def)

lemma pool_step_exclusive:
  assumes "pool_step tm cc js p p'" and "exclusive (pl_threads p)"
  shows "exclusive (pl_threads p')"
proof -
  obtain i where "thread_step tm cc js i p p'" using assms(1) by (rule pool_stepE)
  then show ?thesis
    using assms(2) by cases (auto simp del: list_all_iff intro!: exclusive_set_phase dest!: runsD)
qed

lemma start_threads_simps [simp]:
  "pl_world (start_threads configs w) = w" "pl_signed (start_threads configs w) = []"
  "i < length configs \<Longrightarrow> pl_threads (start_threads configs w) ! i = \<lparr>th_config = configs ! i, th_phase = Idle\<rparr>"
  "length (pl_threads (start_threads configs w)) = length configs"
  by (simp_all add: start_threads_def)

lemma reachable_exclusive:
  assumes "(pool_step tm cc js)\<^sup>*\<^sup>* (start_threads configs w) p"
  shows "exclusive (pl_threads p)"
  using assms
proof (induction rule: rtranclp_induct)
  case base
  show ?case by (simp add: exclusive_def holds_def)
next
  case (step p p')
  show ?case by (rule pool_step_exclusive [OF step.hyps(2) step.IH])
qed

section \<open>The serial run behind an interleaving\<close>

text \<open>
  The serial world lags behind the threads only in the memory of a chain whose state was
  overwritten and not yet written to its file.
\<close>

definition overwrites :: "chain_id \<Rightarrow> consensus_state \<Rightarrow> thread \<Rightarrow> bool" where
  "overwrites c q t \<longleftrightarrow> th_chain t = c \<and> (\<exists>rq. th_phase t = Recorded rq q)"

definition overwritten :: "thread list \<Rightarrow> chain_id \<Rightarrow> consensus_state \<Rightarrow> bool" where
  "overwritten ts c q \<longleftrightarrow> (\<exists>i < length ts. overwrites c q (ts ! i))"

definition ahead :: "thread list \<Rightarrow> registry \<Rightarrow> registry \<Rightarrow> bool" where
  "ahead ts reg reg' \<longleftrightarrow>
     (\<forall>c. (\<forall>q. overwritten ts c q \<longrightarrow> reg' c = map_option (record_state q) (reg c)) \<and>
          ((\<forall>q. \<not> overwritten ts c q) \<longrightarrow> reg' c = reg c))"

text \<open>What each thread knows of the serial run.\<close>

fun thread_ok :: "tendermint_crate \<Rightarrow> canonical_codec \<Rightarrow> registry \<Rightarrow> signed_entry set \<Rightarrow> validator_config \<Rightarrow> phase \<Rightarrow> bool" where
  "thread_ok tm cc reg E config Idle = True"
| "thread_ok tm cc reg E config (Admitted rq) = request_admitted tm cc config rq"
| "thread_ok tm cc reg E config (Locked rq q) =
     (request_admitted tm cc config rq \<and> request_state tm cc rq = Some q \<and>
      (\<exists>ch. reg (vc_chain_id config) = Some ch \<and> \<not> poisoned (ch_state ch)))"
| "thread_ok tm cc reg E config (Checked rq q) =
     (request_admitted tm cc config rq \<and> request_state tm cc rq = Some q \<and>
      (\<exists>ch. reg (vc_chain_id config) = Some ch \<and> \<not> poisoned (ch_state ch) \<and>
        consensus_check (chain_memory ch) q = Done ()))"
| "thread_ok tm cc reg E config (Recorded rq q) =
     (request_admitted tm cc config rq \<and> request_state tm cc rq = Some q \<and>
      (\<exists>ch. reg (vc_chain_id config) = Some ch \<and> \<not> poisoned (ch_state ch) \<and>
        consensus_check (chain_memory ch) q = Done ()))"
| "thread_ok tm cc reg E config (Stored rq q) =
     (\<forall>ch. reg (vc_chain_id config) = Some ch \<longrightarrow> request_signed tm cc config (ch_keyring ch) rq \<longrightarrow>
        (vc_chain_id config, rq, q) \<in> E)"

definition follows :: "tendermint_crate \<Rightarrow> canonical_codec \<Rightarrow> pool \<Rightarrow> world \<Rightarrow> signed_entry set \<Rightarrow> bool" where
  "follows tm cc p w E \<longleftrightarrow>
     w_disk (pl_world p) = w_disk w \<and> w_sent (pl_world p) = w_sent w \<and> set (pl_signed p) \<subseteq> E \<and>
     ahead (pl_threads p) (w_registry w) (w_registry (pl_world p)) \<and>
     (\<forall>i < length (pl_threads p).
        thread_ok tm cc (w_registry w) E (th_config (pl_threads p ! i)) (th_phase (pl_threads p ! i)))"

fun is_recorded :: "phase \<Rightarrow> bool" where
  "is_recorded (Recorded rq q) = True"
| "is_recorded _ = False"

lemma overwritten_set_phase:
  assumes "i < length ts"
  shows "overwritten (set_phase ts i ph) c q \<longleftrightarrow>
    overwrites c q ((ts ! i)\<lparr>th_phase := ph\<rparr>) \<or> (\<exists>j < length ts. j \<noteq> i \<and> overwrites c q (ts ! j))"
proof -
  have "(\<exists>j < length ts. overwrites c q (set_phase ts i ph ! j)) \<longleftrightarrow>
      overwrites c q (set_phase ts i ph ! i) \<or> (\<exists>j < length ts. j \<noteq> i \<and> overwrites c q (set_phase ts i ph ! j))"
    using assms by blast
  then show ?thesis using assms by (simp add: overwritten_def cong: conj_cong)
qed

lemma overwrites_recorded: "overwrites c q t \<Longrightarrow> is_recorded (th_phase t)"
  by (auto simp: overwrites_def)

lemma overwritten_kept:
  assumes "i < length ts" and "\<not> is_recorded (th_phase (ts ! i))" and "\<not> is_recorded ph"
  shows "overwritten (set_phase ts i ph) = overwritten ts"
proof (intro ext)
  fix c q
  have "\<not> overwrites c q ((ts ! i)\<lparr>th_phase := ph\<rparr>)" "\<not> overwrites c q (ts ! i)"
    using assms(2,3) overwrites_recorded by fastforce+
  then show "overwritten (set_phase ts i ph) c q = overwritten ts c q"
    unfolding overwritten_set_phase [OF assms(1)] unfolding overwritten_def by blast
qed

text \<open>In the section of a chain nobody else has overwritten its state.\<close>

lemma overwritten_by_holder:
  assumes "exclusive ts" and "i < length ts" and "in_section (th_phase (ts ! i))"
    and "overwrites (th_chain (ts ! i)) q (ts ! j)" and "j < length ts"
  shows "j = i"
  using assms(4) by (intro exclusiveD [OF assms(1) _ _ assms(2,5), of "th_chain (ts ! i)"])
    (auto simp: holds_def overwrites_def assms(3))

lemma ahead_keyring:
  assumes "ahead ts reg reg'" and "reg' c = Some chain"
  obtains ch where "reg c = Some ch" and "ch_keyring ch = ch_keyring chain"
proof (cases "\<exists>q. overwritten ts c q")
  case True
  then obtain q where "reg' c = map_option (record_state q) (reg c)"
    using assms(1) unfolding ahead_def by blast
  then show thesis using assms(2) that by (cases "reg c") auto
next
  case False
  then have "reg' c = reg c" using assms(1) unfolding ahead_def by blast
  then show thesis using that [of chain] assms(2) by simp
qed

text \<open>A step of a thread that changes neither the world nor an overwritten state.\<close>

lemma follows_to_phase:
  assumes "follows tm cc p w E" and "runs p i config ph" and "\<not> is_recorded ph" and "\<not> is_recorded ph'"
    and "thread_ok tm cc (w_registry w) E config ph'" and "set es \<subseteq> E"
  shows "follows tm cc (to_phase i ph' (p\<lparr>pl_signed := es\<rparr>)) w E"
proof -
  note i = runsD [OF assms(2)]
  have "overwritten (set_phase (pl_threads p) i ph') = overwritten (pl_threads p)"
    using i assms(3,4) by (intro overwritten_kept) auto
  then have "ahead (set_phase (pl_threads p) i ph') reg reg' = ahead (pl_threads p) reg reg'" for reg reg'
    by (simp only: ahead_def)
  then show ?thesis
    using assms(1,5,6) i unfolding follows_def by simp
qed

lemma follows_phase:
  assumes "follows tm cc p w E" and "runs p i config ph" and "\<not> is_recorded ph" and "\<not> is_recorded ph'"
    and "thread_ok tm cc (w_registry w) E config ph'"
  shows "follows tm cc (to_phase i ph' p) w E"
  using follows_to_phase [OF assms, of "pl_signed p"] assms(1) by (simp add: follows_def)

text \<open>Another thread's knowledge survives an update of one chain by its holder.\<close>

lemma thread_ok_kept:
  assumes "thread_ok tm cc reg E config ph" and "reg c = Some ch" and "ch_keyring ch' = ch_keyring ch"
    and "E \<subseteq> E'" and "vc_chain_id config = c \<Longrightarrow> \<not> in_section ph"
  shows "thread_ok tm cc (reg(c \<mapsto> ch')) E' config ph"
proof (cases ph)
  case (Stored rq q)
  have "(reg(c \<mapsto> ch')) (vc_chain_id config) = Some x \<Longrightarrow>
      \<exists>y. reg (vc_chain_id config) = Some y \<and> ch_keyring y = ch_keyring x" for x
    using assms(2,3) by (auto split: if_splits)
  then show ?thesis using assms(1,4) unfolding Stored by fastforce
qed (use assms(1,5) in auto)

text \<open>Overwriting the state in memory: the serial run does nothing yet.\<close>

lemma ahead_unwritten:
  assumes "ahead ts reg reg'" and "exclusive ts" and "i < length ts" and "th_chain (ts ! i) = c"
    and "in_section (th_phase (ts ! i))" and "\<not> is_recorded (th_phase (ts ! i))"
  shows "reg' c = reg c" and "j < length ts \<Longrightarrow> \<not> overwrites c q (ts ! j)"
proof -
  show none: "\<not> overwrites c q (ts ! j)" if "j < length ts" for j q
    using overwritten_by_holder [OF assms(2,3,5), of q j] overwrites_recorded [of c q "ts ! j"] assms(4,6) that by auto
  show "reg' c = reg c"
    using assms(1) none unfolding ahead_def overwritten_def by metis
qed

lemma ahead_overwrite:
  assumes "ahead ts reg reg'" and "exclusive ts" and "i < length ts"
    and i: "th_chain (ts ! i) = c" "th_phase (ts ! i) = Checked rq q" and ch: "reg' c = Some chain"
  shows "reg c = Some chain" and "ahead (set_phase ts i (Recorded rq q)) reg (reg'(c \<mapsto> record_state q chain))"
proof -
  note none = ahead_unwritten [OF assms(1-3) i(1)]
  show reg: "reg c = Some chain" using none(1) i(2) ch by simp
  have "overwritten (set_phase ts i (Recorded rq q)) c' q' \<longleftrightarrow> (if c' = c then q' = q else overwritten ts c' q')" for c' q'
    using none(2) i unfolding overwritten_set_phase [OF assms(3)] by (auto simp: overwritten_def overwrites_def)
  then show "ahead (set_phase ts i (Recorded rq q)) reg (reg'(c \<mapsto> record_state q chain))"
    using assms(1) reg unfolding ahead_def by auto
qed

text \<open>Writing the file: the serial run serves the request.\<close>

lemma ahead_persist:
  assumes "ahead ts reg reg'" and "exclusive ts" and "i < length ts"
    and i: "th_chain (ts ! i) = c" "th_phase (ts ! i) = Recorded rq q" and ph: "\<not> is_recorded ph"
  shows "reg' c = map_option (record_state q) (reg c)" and "ahead (set_phase ts i ph) (reg(c \<mapsto> x)) (reg'(c \<mapsto> x))"
proof -
  have "overwritten ts c q" using assms(3) i unfolding overwritten_def overwrites_def by blast
  then show "reg' c = map_option (record_state q) (reg c)" using assms(1) unfolding ahead_def by blast
  have "\<not> overwrites c' q' ((ts ! i)\<lparr>th_phase := ph\<rparr>)" for c' q'
    using ph overwrites_recorded by fastforce
  moreover have "j \<noteq> i \<Longrightarrow> j < length ts \<Longrightarrow> \<not> overwrites c q' (ts ! j)" for j q'
    using overwritten_by_holder [OF assms(2,3), of q' j] i by auto
  moreover have "c' \<noteq> c \<Longrightarrow> \<not> overwrites c' q' (ts ! i)" for c' q'
    using i by (simp add: overwrites_def)
  ultimately have "overwritten (set_phase ts i ph) c' q' \<longleftrightarrow> c' \<noteq> c \<and> overwritten ts c' q'" for c' q'
    unfolding overwritten_set_phase [OF assms(3)] by (metis overwritten_def)
  then show "ahead (set_phase ts i ph) (reg(c \<mapsto> x)) (reg'(c \<mapsto> x))"
    using assms(1) unfolding ahead_def by auto
qed

lemma follows_overwrite:
  assumes "follows tm cc p w E" and "exclusive (pl_threads p)" and "runs p i config (Checked rq q)"
    and "registered p config chain"
  shows "follows tm cc (to_phase i (Recorded rq q)
    (set_chain (vc_chain_id config) (record_state q chain) (w_disk (pl_world p)) p)) w E"
proof -
  note i = runsD [OF assms(3)]
  have ah: "ahead (pl_threads p) (w_registry w) (w_registry (pl_world p))"
    using assms(1) by (simp add: follows_def)
  note over = ahead_overwrite [OF ah assms(2) _ _ _ assms(4), of i rq q]
  have "thread_ok tm cc (w_registry w) E config (Recorded rq q)"
    using assms(1) i over(1) unfolding follows_def by force
  then show ?thesis
    using assms(1) i over(2) unfolding follows_def by simp
qed

lemma follows_persist:
  assumes "follows tm cc p w E" and "exclusive (pl_threads p)" and "runs p i config (Recorded rq q)"
    and "registered p config chain"
    and "sync_to_disk js os (guarded (ch_state chain)) (w_disk (pl_world p)) = (d', r)"
    and j: "j = \<lparr>jb_config = config, jb_request = rq, jb_state_file = os\<rparr>"
    and run: "serve_one tm cc js j w = (w', es)"
  shows "follows tm cc (to_phase i (if r = Done () then Stored rq q else Idle)
    (set_chain (vc_chain_id config) (chain\<lparr>ch_state := (ch_state chain)\<lparr>poisoned := is_panic r\<rparr>\<rparr>) d' p)) w' (E \<union> set es)"
proof -
  let ?c = "vc_chain_id config" and ?ph = "if r = Done () then Stored rq q else Idle"
  note i = runsD [OF assms(3)]
  have ok: "thread_ok tm cc (w_registry w) E config (Recorded rq q)"
    and ah: "ahead (pl_threads p) (w_registry w) (w_registry (pl_world p))"
    and disk: "w_disk (pl_world p) = w_disk w"
    using assms(1) i unfolding follows_def by force+
  then obtain ch where ch: "w_registry w ?c = Some ch" "\<not> poisoned (ch_state ch)"
      "consensus_check (chain_memory ch) q = Done ()" by auto
  note per = ahead_persist [OF ah assms(2) _ _ _, of i ?c rq q ?ph]
  have chain: "chain = record_state q ch" using per(1) i assms(4) ch(1) by simp
  have serial: "(w', es) = served tm cc js j q ch w"
    using run serve_one_phases [of tm cc j w ch q js] ok ch(1) by (simp add: j)
  have reg: "w_registry w' = (w_registry w)(?c \<mapsto> chain\<lparr>ch_state := (ch_state chain)\<lparr>poisoned := is_panic r\<rparr>\<rparr>)"
    and res: "w' = w\<lparr>w_registry := (w_registry w)(?c \<mapsto> chain\<lparr>ch_state := (ch_state chain)\<lparr>poisoned := is_panic r\<rparr>\<rparr>), w_disk := d'\<rparr>"
    and es: "es = (if r = Done () \<and> request_signed tm cc config (ch_keyring ch) rq then [(?c, rq, q)] else [])"
    using served_persisted [OF ch(2,3), of js j w d' r tm cc] assms(5) serial by (simp_all add: j chain disk)
  have "thread_ok tm cc (w_registry w') (E \<union> set es) (th_config (pl_threads p ! k)) (th_phase (pl_threads p ! k))"
    if "k < length (pl_threads p)" "k \<noteq> i" for k
    unfolding reg
  proof (rule thread_ok_kept [where E = E and ch = ch])
    show "thread_ok tm cc (w_registry w) E (th_config (pl_threads p ! k)) (th_phase (pl_threads p ! k))"
      using assms(1) that(1) by (simp add: follows_def)
    show "\<not> in_section (th_phase (pl_threads p ! k))" if "th_chain (pl_threads p ! k) = ?c"
      using exclusiveD [OF assms(2), of ?c i k] i that \<open>k < length (pl_threads p)\<close> \<open>k \<noteq> i\<close> by (auto simp: holds_def)
  qed (simp_all add: chain ch(1))
  moreover have "thread_ok tm cc (w_registry w') (E \<union> set es) config ?ph"
    using es by (simp add: res chain)
  ultimately show ?thesis
    using assms(1) i per(2) unfolding follows_def by (auto simp: res)
qed

theorem pool_step_serial:
  assumes "pool_step tm cc js p p'" and "exclusive (pl_threads p)" and fol: "follows tm cc p w E"
  shows "\<exists>jobs w' es. serve tm cc js jobs w = (w', es) \<and> follows tm cc p' w' (E \<union> set es) \<and>
    jb_config ` set jobs \<subseteq> th_config ` set (pl_threads p)"
proof -
  have still: ?thesis if "follows tm cc p' w E"
    using that by (intro exI [of _ "[]"] exI [of _ w]) simp
  have ok: "thread_ok tm cc (w_registry w) E config ph" if "runs p i config ph" for i config ph
    using fol runsD [OF that] unfolding follows_def by force
  have ah: "ahead (pl_threads p) (w_registry w) (w_registry (pl_world p))" and sg: "set (pl_signed p) \<subseteq> E"
    using fol by (simp_all add: follows_def)
  obtain i where "thread_step tm cc js i p p'" using assms(1) by (rule pool_stepE)
  then show ?thesis
  proof cases
    case (admit config rq)
    then show ?thesis by (intro still) (auto intro!: follows_phase [OF fol])
  next
    case (lock config rq chain q)
    have "\<not> overwritten (pl_threads p) (vc_chain_id config) q'" for q'
      using lock(5) unfolding overwritten_def overwrites_def holds_def list_all_length by fastforce
    then have "w_registry w (vc_chain_id config) = Some chain" using ah lock(3) unfolding ahead_def by metis
    then show ?thesis using lock ok [OF lock(2)]
      by (intro still) (auto intro!: follows_phase [OF fol])
  next
    case (refuse config rq q chain)
    then show ?thesis by (intro still) (auto intro!: follows_phase [OF fol])
  next
    case (accept config rq q chain)
    then have "w_registry w (vc_chain_id config) = Some chain"
      using ahead_unwritten(1) [OF ah assms(2), of i "vc_chain_id config"] runsD [OF accept(2)] by simp
    then show ?thesis using accept ok [OF accept(2)] by (intro still) (auto intro!: follows_phase [OF fol])
  next
    case (overwrite config rq q chain)
    then show ?thesis using follows_overwrite [OF fol assms(2)] by (intro still) simp
  next
    case (persist config rq q chain os d' r)
    let ?j = "\<lparr>jb_config = config, jb_request = rq, jb_state_file = os\<rparr>"
    obtain w' es where run: "serve_one tm cc js ?j w = (w', es)" by (metis surj_pair)
    have "config \<in> th_config ` set (pl_threads p)"
      using runsD [OF persist(2)] by (metis image_eqI nth_mem)
    then show ?thesis
      using follows_persist [OF fol assms(2) persist(2-4) refl run] run persist(1)
      by (intro exI [of _ "[?j]"] exI [of _ w'] exI [of _ es]) simp
  next
    case (reply config rq q chain)
    obtain ch where "w_registry w (vc_chain_id config) = Some ch" "ch_keyring ch = ch_keyring chain"
      using ahead_keyring [OF ah reply(3)] by blast
    then have "(vc_chain_id config, rq, q) \<in> E" using ok [OF reply(2)] reply(4) by simp
    then show ?thesis
      using reply(1) sg by (intro still) (auto intro!: follows_to_phase [OF fol reply(2)])
  next
    case (abandon config ph)
    then have "\<not> is_recorded ph" by (cases ph) simp_all
    then show ?thesis using abandon(1) follows_phase [OF fol abandon(2)] by (intro still) simp
  qed
qed

lemma pool_step_configs: "pool_step tm cc js p p' \<Longrightarrow> map th_config (pl_threads p') = map th_config (pl_threads p)"
  by (erule pool_stepE) (auto dest!: runsD elim!: thread_step.cases)

lemma reachable_serial:
  assumes "(pool_step tm cc js)\<^sup>*\<^sup>* (start_threads configs w) p"
  shows "map th_config (pl_threads p) = configs \<and>
    (\<exists>jobs w' es. serve tm cc js jobs w = (w', es) \<and> follows tm cc p w' (set es) \<and> jb_config ` set jobs \<subseteq> set configs)"
  using assms
proof (induction rule: rtranclp_induct)
  case base
  have "follows tm cc (start_threads configs w) w {}"
    by (auto simp: follows_def ahead_def overwritten_def overwrites_def)
  then have "serve tm cc js [] w = (w, []) \<and> follows tm cc (start_threads configs w) w (set []) \<and>
      jb_config ` set [] \<subseteq> set configs" by simp
  moreover have "map th_config (pl_threads (start_threads configs w)) = configs"
    by (simp add: start_threads_def comp_def)
  ultimately show ?case by blast
next
  case (step p p')
  then obtain jobs w1 es1 where run: "serve tm cc js jobs w = (w1, es1)" and fol: "follows tm cc p w1 (set es1)"
    and jobs: "jb_config ` set jobs \<subseteq> set configs" and cfg: "map th_config (pl_threads p) = configs" by blast
  obtain more w2 es2 where run2: "serve tm cc js more w1 = (w2, es2)"
    and fol2: "follows tm cc p' w2 (set es1 \<union> set es2)" and more: "jb_config ` set more \<subseteq> th_config ` set (pl_threads p)"
    using pool_step_serial [OF step.hyps(2) reachable_exclusive [OF step.hyps(1)] fol] by blast
  have "th_config ` set (pl_threads p) = set configs" using cfg by (metis set_map)
  then have "serve tm cc js (jobs @ more) w = (w2, es1 @ es2) \<and> follows tm cc p' w2 (set (es1 @ es2)) \<and>
      jb_config ` set (jobs @ more) \<subseteq> set configs"
    using run run2 fol2 jobs more by (simp add: serve_append image_Un)
  moreover have "map th_config (pl_threads p') = configs"
    using pool_step_configs [OF step.hyps(2)] cfg by simp
  ultimately show ?case by blast
qed

text \<open>When nobody is in a critical section, the registry is the serial one too.\<close>

lemma quiet_world:
  assumes "follows tm cc p w E" and "list_all (\<lambda>t. \<not> in_section (th_phase t)) (pl_threads p)"
  shows "pl_world p = w"
proof -
  have "\<not> overwritten (pl_threads p) c q" for c q
    using assms(2) unfolding overwritten_def overwrites_def list_all_length by fastforce
  then have "w_registry (pl_world p) = w_registry w"
    using assms(1) unfolding follows_def ahead_def by (intro ext) metis
  then show ?thesis using assms(1) by (auto simp: follows_def intro!: world.equality)
qed

section \<open>Serial runs are interleavings\<close>

lemma runs_next [simp]:
  "i < length (pl_threads p) \<Longrightarrow> th_config (pl_threads p ! i) = config \<Longrightarrow> runs (to_phase i ph p) i config ph"
  "runs (set_chain c chain d p) i config ph = runs p i config ph"
  "runs (p\<lparr>pl_signed := es\<rparr>) i config ph = runs p i config ph"
  by (simp_all add: runs_def)

lemma to_phase_moves:
  "i < length (pl_threads p) \<Longrightarrow> to_phase i a (to_phase i b p) = to_phase i a p"
  "to_phase i a (set_chain c chain d p) = set_chain c chain d (to_phase i a p)"
  "set_chain c chain d (set_chain c chain' d' p) = set_chain c chain d p"
  "to_phase i a (p\<lparr>pl_signed := es\<rparr>) = (to_phase i a p)\<lparr>pl_signed := es\<rparr>"
  by (simp_all add: to_phase_def set_phase_def set_chain_def)

lemma to_phase_idle: "runs p i config Idle \<Longrightarrow> to_phase i Idle p = p"
  by (simp add: runs_def to_phase_def set_phase_def list_update_same_conv)

text \<open>One request: from idle threads to idle threads.\<close>

lemma accepted_steps:
  assumes i: "runs p i config Idle" and idle: "list_all (\<lambda>t. \<not> in_section (th_phase t)) (pl_threads p)"
    and ad: "request_admitted tm cc config rq" and st: "request_state tm cc rq = Some q"
    and ch: "registered p config chain" "\<not> poisoned (ch_state chain)" "consensus_check (chain_memory chain) q = Done ()"
    and sync: "sync_to_disk js os (guarded (ch_state (record_state q chain))) (w_disk (pl_world p)) = (d', r)"
  defines "chain' \<equiv> (record_state q chain)\<lparr>ch_state := (ch_state (record_state q chain))\<lparr>poisoned := is_panic r\<rparr>\<rparr>"
  defines "p' \<equiv> set_chain (vc_chain_id config) chain' d' p"
  shows "(pool_step tm cc js)\<^sup>*\<^sup>* p (to_phase i (if r = Done () then Stored rq q else Idle) p')"
proof -
  let ?c = "vc_chain_id config"
  note R = runsD [OF i]
  let ?ad = "to_phase i (Admitted rq) p" and ?lk = "to_phase i (Locked rq q) p"
  let ?chk = "to_phase i (Checked rq q) p"
  let ?over = "to_phase i (Recorded rq q) (set_chain ?c (record_state q chain) (w_disk (pl_world p)) ?chk)"
  have 1: "pool_step tm cc js p ?ad" by (rule pool_admit [OF i ad])
  have "list_all (\<lambda>t. \<not> holds ?c t) (pl_threads ?ad)"
    using idle by (auto simp: list_all_length holds_def)
  then have "pool_step tm cc js ?ad (to_phase i (Locked rq q) ?ad)"
    by (intro pool_lock [where config = config and chain = chain]) (use R st ch in simp_all)
  then have 2: "pool_step tm cc js ?ad ?lk" using R by (simp add: to_phase_moves)
  have "pool_step tm cc js ?lk (to_phase i (Checked rq q) ?lk)"
    by (rule pool_accept [where config = config and chain = chain]) (use R ch in simp_all)
  then have 3: "pool_step tm cc js ?lk ?chk" using R by (simp add: to_phase_moves)
  have 4: "pool_step tm cc js ?chk ?over"
    using pool_overwrite [where config = config and p = ?chk and chain = chain and i = i and rq = rq and q = q] R ch by simp
  have "pool_step tm cc js ?over (to_phase i (if r = Done () then Stored rq q else Idle) (set_chain ?c chain' d' ?over))"
    unfolding chain'_def by (rule pool_persist [where config = config and os = os]) (use R sync in simp_all)
  then have 5: "pool_step tm cc js ?over (to_phase i (if r = Done () then Stored rq q else Idle) p')"
    using R by (simp add: p'_def to_phase_moves)
  from 1 2 3 4 5 show ?thesis by (meson rtranclp.rtrancl_into_rtrancl r_into_rtranclp)
qed

lemma reply_steps:
  assumes i: "runs p i config Idle" and ch: "registered p config chain"
  shows "(pool_step tm cc js)\<^sup>*\<^sup>* (to_phase i (if ok then Stored rq q else Idle) p)
    (p\<lparr>pl_signed := pl_signed p @
       (if ok \<and> request_signed tm cc config (ch_keyring chain) rq then [(vc_chain_id config, rq, q)] else [])\<rparr>)"
proof (cases ok)
  case True
  let ?s = "to_phase i (Stored rq q) p"
  have at: "runs ?s i config (Stored rq q)" using runsD [OF i] by simp
  have idle: "to_phase i Idle ?s = p" using runsD [OF i] to_phase_idle [OF i] by (simp add: to_phase_moves(1))
  show ?thesis
  proof (cases "request_signed tm cc config (ch_keyring chain) rq")
    case signed: True
    have "pool_step tm cc js ?s (to_phase i Idle (?s\<lparr>pl_signed := pl_signed ?s @ [(vc_chain_id config, rq, q)]\<rparr>))"
      by (rule pool_reply [OF at _ signed]) (simp add: ch)
    then show ?thesis using True signed idle by (simp add: to_phase_moves(4) r_into_rtranclp)
  next
    case False
    have "pool_step tm cc js ?s (to_phase i Idle ?s)" by (rule pool_abandon [OF at]) simp
    then show ?thesis using True False idle by (simp add: r_into_rtranclp)
  qed
qed (simp add: to_phase_idle [OF i])

lemma serve_one_steps:
  assumes i: "runs p i (jb_config j) Idle" and idle: "list_all (\<lambda>t. \<not> in_section (th_phase t)) (pl_threads p)"
    and run: "serve_one tm cc js j (pl_world p) = (w', es)"
  shows "(pool_step tm cc js)\<^sup>*\<^sup>* p (p\<lparr>pl_world := w', pl_signed := pl_signed p @ es\<rparr>)"
proof -
  let ?w = "pl_world p" and ?c = "vc_chain_id (jb_config j)" and ?rq = "jb_request j"
  have still: ?thesis if "(w', es) = (?w, [])" using that by simp
  show ?thesis
  proof (cases "request_admitted tm cc (jb_config j) ?rq \<and> w_registry ?w ?c \<noteq> None \<and> request_state tm cc ?rq \<noteq> None")
    case False
    then show ?thesis using serve_one_refused [of tm cc j ?w js] run by (intro still) auto
  next
    case True
    then obtain chain q where ad: "request_admitted tm cc (jb_config j) ?rq"
      and ch: "w_registry ?w ?c = Some chain" and st: "request_state tm cc ?rq = Some q" by auto
    have serial: "(w', es) = served tm cc js j q chain ?w"
      using run serve_one_phases [OF ad ch st, of js] by simp
    show ?thesis
    proof (cases "\<not> poisoned (ch_state chain) \<and> consensus_check (chain_memory chain) q = Done ()")
      case False
      then show ?thesis
        using serial served_poisoned [OF _ ch] served_refused [OF _ ch] by (intro still) metis
    next
      case True
      obtain d' r where sync: "sync_to_disk js (jb_state_file j) (guarded (ch_state (record_state q chain))) (w_disk ?w) = (d', r)"
        by (metis surj_pair)
      let ?chain = "(record_state q chain)\<lparr>ch_state := (ch_state (record_state q chain))\<lparr>poisoned := is_panic r\<rparr>\<rparr>"
      let ?p = "set_chain ?c ?chain d' p"
      have steps: "(pool_step tm cc js)\<^sup>*\<^sup>* p (to_phase i (if r = Done () then Stored ?rq q else Idle) ?p)"
        using True by (intro accepted_steps [OF i idle ad st ch _ _ sync]) simp_all
      have w': "w' = pl_world ?p"
        and es: "es = (if r = Done () \<and> request_signed tm cc (jb_config j) (ch_keyring chain) ?rq then [(?c, ?rq, q)] else [])"
        using serial served_persisted [OF _ _ sync, of tm cc] True by simp_all
      have goal: "p\<lparr>pl_world := w', pl_signed := pl_signed p @ es\<rparr> = ?p\<lparr>pl_signed := pl_signed p @ es\<rparr>"
        by (simp add: w' set_chain_def)
      have "runs ?p i (jb_config j) Idle" using i by simp
      from reply_steps [OF this, where chain = ?chain and tm = tm and cc = cc and js = js and rq = ?rq and q = q and ok = "r = Done ()"]
      have last: "(pool_step tm cc js)\<^sup>*\<^sup>* (to_phase i (if r = Done () then Stored ?rq q else Idle) ?p)
          (?p\<lparr>pl_signed := pl_signed p @ es\<rparr>)"
        by (simp add: es)
      from steps last show ?thesis unfolding goal by (rule rtranclp_trans)
    qed
  qed
qed

lemma serve_steps:
  assumes "list_all (\<lambda>t. th_phase t = Idle) (pl_threads p)"
    and "jb_config ` set jobs \<subseteq> th_config ` set (pl_threads p)"
    and "serve tm cc js jobs (pl_world p) = (w', es)"
  shows "(pool_step tm cc js)\<^sup>*\<^sup>* p (p\<lparr>pl_world := w', pl_signed := pl_signed p @ es\<rparr>)"
  using assms
proof (induction jobs arbitrary: p es)
  case Nil
  then have "p\<lparr>pl_world := w', pl_signed := pl_signed p @ es\<rparr> = p" by auto
  then show ?case by simp
next
  case (Cons j jobs)
  obtain w1 es1 es2 where one: "serve_one tm cc js j (pl_world p) = (w1, es1)"
    and rest: "serve tm cc js jobs w1 = (w', es2)" and es: "es = es1 @ es2"
    using Cons.prems(3) by (auto split: prod.splits)
  let ?p = "p\<lparr>pl_world := w1, pl_signed := pl_signed p @ es1\<rparr>"
  obtain i where "i < length (pl_threads p)" "th_config (pl_threads p ! i) = jb_config j"
    using Cons.prems(2) by (auto simp: in_set_conv_nth)
  then have "runs p i (jb_config j) Idle"
    using Cons.prems(1) by (cases "pl_threads p ! i") (auto simp: runs_def list_all_length)
  then have "(pool_step tm cc js)\<^sup>*\<^sup>* p ?p"
    using Cons.prems(1) by (intro serve_one_steps [OF _ _ one]) (auto simp: list_all_length)
  moreover have "(pool_step tm cc js)\<^sup>*\<^sup>* ?p (?p\<lparr>pl_world := w', pl_signed := pl_signed ?p @ es2\<rparr>)"
    using Cons.prems rest by (intro Cons.IH) auto
  ultimately show ?case by (simp add: es)
qed

lemma serve_threads:
  assumes "jb_config ` set jobs \<subseteq> set configs" and "serve tm cc js jobs w = (w', es)"
  shows "(pool_step tm cc js)\<^sup>*\<^sup>* (start_threads configs w) ((start_threads configs w)\<lparr>pl_world := w', pl_signed := es\<rparr>)"
  using serve_steps [of "start_threads configs w" jobs tm cc js w' es] assms
  by (simp add: start_threads_def list_all_length image_image)

section \<open>Several lives\<close>

text \<open>
  A life of the process starts the chains and the clients from the disk and runs the threads
  until it ends, at any point: inside a critical section too.  The threads that got started run
  however starting ends: a client works while the later ones are started, and up to the moment
  when one of these makes the process exit.  A thread that is not spawned yet is one that is idle.
\<close>

inductive kms_threads ::
  "tendermint_crate \<Rightarrow> canonical_codec \<Rightarrow> state_json \<Rightarrow> kms_config \<Rightarrow> disk \<Rightarrow> signed_entry list \<Rightarrow> disk \<Rightarrow> bool"
  for tm :: tendermint_crate and cc :: canonical_codec and js :: state_json and config :: kms_config where
  never: "kms_threads tm cc js config d [] d"
| life: "spawn_clients threads tm js env ks config d = (((reg, d1), clients), r) \<Longrightarrow>
     (pool_step tm cc js)\<^sup>*\<^sup>* (start_threads clients \<lparr>w_registry = reg, w_disk = d1, w_sent = []\<rparr>) p \<Longrightarrow>
     kms_threads tm cc js config (w_disk (pl_world p)) es d' \<Longrightarrow>
     kms_threads tm cc js config d (pl_signed p @ es) d'"

lemma kms_threads_serial:
  "kms_threads tm cc js config d es d' \<Longrightarrow>
     \<exists>ls es'. kms_lives tm cc js config ls d = (d', es') \<and> set es \<subseteq> set es'"
proof (induction rule: kms_threads.induct)
  case (never d)
  have "kms_lives tm cc js config [] d = (d, [])" by simp
  then show ?case by fastforce
next
  case (life threads env ks d reg d1 clients r p es d')
  obtain jobs w es1 where run: "serve tm cc js jobs \<lparr>w_registry = reg, w_disk = d1, w_sent = []\<rparr> = (w, es1)"
    and fol: "follows tm cc p w (set es1)" and jobs: "jb_config ` set jobs \<subseteq> set clients"
    using reachable_serial [OF life.hyps(2)] by blast
  obtain ls es' where ls: "kms_lives tm cc js config ls (w_disk (pl_world p)) = (d', es')" "set es \<subseteq> set es'"
    using life.IH by blast
  have "filter (\<lambda>j. jb_config j \<in> set clients) jobs = jobs"
    using jobs by (auto simp: filter_id_conv)
  then have "kms_lives tm cc js config (\<lparr>lf_threads = threads, lf_env = env, lf_keys = ks, lf_jobs = jobs\<rparr> # ls) d = (d', es1 @ es')"
    using life.hyps(1) run ls(1) fol by (simp add: follows_def)
  moreover have "set (pl_signed p @ es) \<subseteq> set (es1 @ es')"
    using fol ls(2) by (auto simp: follows_def)
  ultimately show ?case by blast
qed

text \<open>Conversely, lives that serve one request at a time are among them.\<close>

lemma lives_threads:
  assumes "kms_lives tm cc js config ls d = (d', es)"
  shows "kms_threads tm cc js config d es d'"
  using assms
proof (induction ls arbitrary: d es)
  case Nil
  then show ?case by (simp add: never)
next
  case (Cons l ls)
  obtain reg d1 clients r where start:
    "spawn_clients (lf_threads l) tm js (lf_env l) (lf_keys l) config d = (((reg, d1), clients), r)"
    by (metis surj_pair)
  let ?w = "\<lparr>w_registry = reg, w_disk = d1, w_sent = []\<rparr>"
  let ?jobs = "filter (\<lambda>j. jb_config j \<in> set clients) (lf_jobs l)"
  obtain w es1 es2 where run: "serve tm cc js ?jobs ?w = (w, es1)"
    and rest: "kms_lives tm cc js config ls (w_disk w) = (d', es2)" and es: "es = es1 @ es2"
    using Cons.prems start by (auto split: prod.splits)
  have "jb_config ` set ?jobs \<subseteq> set clients" by auto
  from serve_threads [OF this run]
  have "kms_threads tm cc js config d
      (pl_signed ((start_threads clients ?w)\<lparr>pl_world := w, pl_signed := es1\<rparr>) @ es2) d'"
    by (rule life [OF start]) (use Cons.IH [OF rest] in simp)
  then show ?case by (simp add: es)
qed

section \<open>The properties\<close>

text \<open>
  C3: The client threads of the KMS interleave, yet what they do is what serving the same
  requests one after the other does: for every interleaving there are requests of the
  configured validators such that serving them in sequence leaves the same files, signs at
  least what the threads signed, and leaves the same chain states whenever no thread is
  between taking and releasing a state lock.
\<close>

theorem interleavings_serialise:
  assumes "(pool_step tm cc js)\<^sup>*\<^sup>* (start_threads configs w) p"
  shows "\<exists>jobs w' es. jb_config ` set jobs \<subseteq> set configs \<and> serve tm cc js jobs w = (w', es) \<and>
    w_disk (pl_world p) = w_disk w' \<and> set (pl_signed p) \<subseteq> set es \<and>
    (list_all (\<lambda>t. \<not> in_section (th_phase t)) (pl_threads p) \<longrightarrow> pl_world p = w')"
proof -
  obtain jobs w' es where "serve tm cc js jobs w = (w', es)" and fol: "follows tm cc p w' (set es)"
    and "jb_config ` set jobs \<subseteq> set configs"
    using reachable_serial [OF assms] by blast
  moreover have "w_disk (pl_world p) = w_disk w'" "set (pl_signed p) \<subseteq> set es"
    using fol by (simp_all add: follows_def)
  ultimately show ?thesis using quiet_world [OF fol] by blast
qed

text \<open>
  Two threads for one chain: the second has passed its checks and waits while the first one
  locks, stores and signs.
\<close>

lemma sample_admitted: "request_admitted sample_tm sample_codec sample_validator (SignVote (nil_request ts))"
  by code_simp

lemma sample_interleaving:
  "\<exists>p. (pool_step sample_tm sample_codec sample_json)\<^sup>*\<^sup>*
       (start_threads [sample_validator, sample_validator] sample_world) p \<and>
     pl_signed p = [(''c'', SignVote (nil_request None), sample_state)] \<and> pl_world p = sample_world_signed \<and>
     map th_phase (pl_threads p) = [Idle, Admitted (SignVote (nil_request (Some sample_time)))]"
proof -
  let ?step = "pool_step sample_tm sample_codec sample_json"
  let ?p0 = "start_threads [sample_validator, sample_validator] sample_world"
  let ?p1 = "to_phase 1 (Admitted (SignVote (nil_request (Some sample_time)))) ?p0"
  let ?p2 = "?p1\<lparr>pl_world := sample_world_signed, pl_signed := [(''c'', SignVote (nil_request None), sample_state)]\<rparr>"
  have "?step ?p0 ?p1"
    by (rule pool_admit [where config = sample_validator]) (simp_all add: runs_def sample_admitted)
  moreover have "runs ?p1 0 (jb_config (nil_job None)) Idle"
    by (simp add: runs_def job_for_def)
  then have "?step\<^sup>*\<^sup>* ?p1 ?p2"
    using serve_one_steps [of ?p1 0 "nil_job None" sample_tm sample_codec sample_json sample_world_signed
        "[(''c'', SignVote (nil_request None), sample_state)]"]
    by (simp add: sample_serve_one list_all_length less_Suc_eq)
  ultimately have "?step\<^sup>*\<^sup>* ?p0 ?p2" by (rule converse_rtranclp_into_rtranclp)
  then show ?thesis
    by (intro exI [of _ ?p2]) (simp add: start_threads_def to_phase_def set_phase_def)
qed

theorem interleavings_serialise_witness:
  "\<exists>jobs w' es. jb_config ` set jobs \<subseteq> {sample_validator} \<and>
     serve sample_tm sample_codec sample_json jobs sample_world = (w', es) \<and>
     (''c'', SignVote (nil_request None), sample_state) \<in> set es \<and> w' = sample_world_signed"
proof -
  obtain p where run: "(pool_step sample_tm sample_codec sample_json)\<^sup>*\<^sup>*
       (start_threads [sample_validator, sample_validator] sample_world) p"
    and p: "pl_signed p = [(''c'', SignVote (nil_request None), sample_state)]" "pl_world p = sample_world_signed"
    and ph: "map th_phase (pl_threads p) = [Idle, Admitted (SignVote (nil_request (Some sample_time)))]"
    using sample_interleaving by metis
  have "list_all (\<lambda>ph. \<not> in_section ph) (map th_phase (pl_threads p))" unfolding ph by simp
  then have "list_all (\<lambda>t. \<not> in_section (th_phase t)) (pl_threads p)" by (simp only: list.pred_map comp_def)
  moreover obtain jobs w' es where "jb_config ` set jobs \<subseteq> set [sample_validator, sample_validator]"
    "serve sample_tm sample_codec sample_json jobs sample_world = (w', es)" "set (pl_signed p) \<subseteq> set es"
    "list_all (\<lambda>t. \<not> in_section (th_phase t)) (pl_threads p) \<longrightarrow> pl_world p = w'"
    using interleavings_serialise [OF run] by blast
  ultimately show ?thesis
    using p by (intro exI [of _ jobs] exI [of _ w'] exI [of _ es]) simp
qed

section \<open>The lock is released\<close>

lemma follows_registered:
  assumes "follows tm cc p w E" and "runs p i config ph" and "in_section ph"
  obtains chain where "registered p config chain"
proof -
  have ok: "thread_ok tm cc (w_registry w) E config ph"
    and ah: "ahead (pl_threads p) (w_registry w) (w_registry (pl_world p))"
    using assms(1) runsD [OF assms(2)] unfolding follows_def by auto
  obtain ch where "w_registry w (vc_chain_id config) = Some ch"
    using ok assms(3) by (cases ph) auto
  then have "w_registry (pl_world p) (vc_chain_id config) \<noteq> None"
    using ah unfolding ahead_def by (cases "\<exists>q. overwritten (pl_threads p) (vc_chain_id config) q") force+
  then show thesis using that by blast
qed

text \<open>How far a thread is from the end of its critical section.\<close>

fun section_left :: "phase \<Rightarrow> nat" where
  "section_left (Locked rq q) = 3"
| "section_left (Checked rq q) = 2"
| "section_left (Recorded rq q) = 1"
| "section_left _ = 0"

text \<open>Inside its section a thread can always make a step, whatever the other threads do.\<close>

lemma section_enabled:
  assumes "(pool_step tm cc js)\<^sup>*\<^sup>* (start_threads configs w) p" and "runs p i config ph" and "in_section ph"
  shows "\<exists>p'. thread_step tm cc js i p p'"
proof -
  obtain w' E where "follows tm cc p w' E" using reachable_serial [OF assms(1)] by blast
  then obtain chain where ch: "registered p config chain" by (rule follows_registered [OF _ assms(2,3)])
  show ?thesis
  proof (cases ph)
    case (Locked rq q)
    note i = assms(2) [unfolded Locked]
    show ?thesis using accept [OF i ch] refuse [OF i ch] by blast
  next
    case (Checked rq q)
    show ?thesis using overwrite [OF assms(2) [unfolded Checked] ch] by blast
  next
    case (Recorded rq q)
    obtain d' r where "sync_to_disk js Write_ok (guarded (ch_state chain)) (w_disk (pl_world p)) = (d', r)"
      by (metis surj_pair)
    from persist [OF assms(2) [unfolded Recorded] ch this] show ?thesis by blast
  qed (use assms(3) in simp_all)
qed

text \<open>
  Every step changes the phase of its own thread only, and inside the section each step of the
  thread, whatever it finds and whatever the operating system answers, brings it nearer to the end.
\<close>

lemma thread_step_phase:
  assumes "thread_step tm cc js i p p'"
  obtains ph' where "pl_threads p' = set_phase (pl_threads p) i ph'" and "i < length (pl_threads p)"
    and "in_section (th_phase (pl_threads p ! i)) \<Longrightarrow> section_left ph' < section_left (th_phase (pl_threads p ! i))"
  using assms
proof cases
  case (persist config rq q chain os d' r)
  show ?thesis
    by (rule that [of "if r = Done () then Stored rq q else Idle"])
      (use persist(1) runsD [OF persist(2)] in simp_all)
qed (auto dest!: runsD intro: that)

lemma section_left_zero: "section_left ph = 0 \<longleftrightarrow> \<not> in_section ph"
  by (cases ph) simp_all

text \<open>The holder steps out: then nobody holds the lock.\<close>

lemma nobody_holds:
  assumes "exclusive ts" and "i < length ts" and "holds c (ts ! i)" and "\<not> in_section ph"
  shows "list_all (\<lambda>t. \<not> holds c t) (set_phase ts i ph)"
  using exclusiveD [OF assms(1,3) _ assms(2)] assms(2,4) by (auto simp: list_all_length)

lemma section_ends:
  assumes "thread_path tm cc js p steps" and "exclusive (pl_threads p)" and "runs p i config ph" and "in_section ph"
    and "section_left ph \<le> length (filter (\<lambda>s. fst s = i) steps)"
  shows "\<exists>s \<in> set steps. list_all (\<lambda>t. \<not> holds (vc_chain_id config) t) (pl_threads (snd s))"
  using assms
proof (induction steps arbitrary: p ph)
  case Nil
  then show ?case by (simp add: section_left_zero)
next
  case (Cons s steps)
  obtain j p' where s: "s = (j, p')" by (cases s)
  have step: "thread_step tm cc js j p p'" and path: "thread_path tm cc js p' steps"
    using Cons.prems(1) by (simp_all add: s)
  have ex: "exclusive (pl_threads p')" by (rule pool_step_exclusive [OF pool_stepI [OF step] Cons.prems(2)])
  note i = runsD [OF Cons.prems(3)]
  obtain ph' where t: "pl_threads p' = set_phase (pl_threads p) j ph'"
    and less: "in_section (th_phase (pl_threads p ! j)) \<Longrightarrow> section_left ph' < section_left (th_phase (pl_threads p ! j))"
    using thread_step_phase [OF step] by metis
  show ?case
  proof (cases "j = i")
    case False
    then have "runs p' i config ph" using Cons.prems(3) by (simp add: runs_def t)
    from Cons.IH [OF path ex this Cons.prems(4)] False Cons.prems(5) show ?thesis by (auto simp: s)
  next
    case own: True
    show ?thesis
    proof (cases "in_section ph'")
      case True
      have "runs p' i config ph'" using i own by (simp add: runs_def t)
      from Cons.IH [OF path ex this True] own less i Cons.prems(4,5) show ?thesis by (auto simp: s)
    next
      case False
      then show ?thesis
        using nobody_holds [OF Cons.prems(2), of i "vc_chain_id config" ph'] i own Cons.prems(4)
        by (simp add: s t holds_def)
    qed
  qed
qed

text \<open>
  C12: the client threads cannot deadlock on the chain states.  Whatever the threads did so far, a
  thread that holds the state lock of a chain can make its next step without waiting for any other
  thread; and on every further run of all the threads, whatever the others do in between and
  whatever the writing of the state file answers, three steps of this thread are enough: by then
  there was a moment when nobody held the lock.
\<close>

theorem lock_is_released:
  assumes "(pool_step tm cc js)\<^sup>*\<^sup>* (start_threads configs w) p" and "runs p i config ph" and "in_section ph"
  shows "(\<exists>p'. thread_step tm cc js i p p') \<and>
    (\<forall>steps. thread_path tm cc js p steps \<longrightarrow> 3 \<le> length (filter (\<lambda>s. fst s = i) steps) \<longrightarrow>
       (\<exists>s \<in> set steps. list_all (\<lambda>t. \<not> holds (vc_chain_id config) t) (pl_threads (snd s))))"
proof (intro conjI allI impI)
  show "\<exists>p'. thread_step tm cc js i p p'" by (rule section_enabled [OF assms])
  fix steps
  assume path: "thread_path tm cc js p steps" and "3 \<le> length (filter (\<lambda>s. fst s = i) steps)"
  moreover have "section_left ph \<le> 3" by (cases ph) simp_all
  ultimately have "section_left ph \<le> length (filter (\<lambda>s. fst s = i) steps)" by simp
  then show "\<exists>s \<in> set steps. list_all (\<lambda>t. \<not> holds (vc_chain_id config) t) (pl_threads (snd s))"
    by (rule section_ends [OF path reachable_exclusive [OF assms(1)] assms(2,3)])
qed

text \<open>
  Two threads for one chain.  The first holds the lock; before it has compared, overwritten and
  written the state, the second one passes its checks.
\<close>

definition locked_pool :: pool where
  "locked_pool = to_phase 0 (Locked (SignVote (nil_request None)) sample_state)
     (start_threads [sample_validator, sample_validator] sample_world)"

lemma locked_pool_runs: "runs locked_pool 0 sample_validator (Locked (SignVote (nil_request None)) sample_state)"
  by (simp add: locked_pool_def)

lemma locked_pool_reachable:
  "(pool_step sample_tm sample_codec sample_json)\<^sup>*\<^sup>*
     (start_threads [sample_validator, sample_validator] sample_world) locked_pool"
proof -
  let ?step = "pool_step sample_tm sample_codec sample_json" and ?rq = "SignVote (nil_request None)"
  let ?p0 = "start_threads [sample_validator, sample_validator] sample_world"
  let ?p1 = "to_phase 0 (Admitted ?rq) ?p0"
  have "?step ?p0 ?p1"
    by (rule pool_admit [where config = sample_validator]) (simp_all add: runs_def sample_admitted)
  moreover have state: "request_state sample_tm sample_codec ?rq = Some sample_state" by code_simp
  have "?step ?p1 (to_phase 0 (Locked ?rq sample_state) ?p1)"
    by (rule pool_lock [where config = sample_validator and chain = "chain_at genesis_state", OF _ _ state])
      (simp_all add: runs_def list_all_length less_Suc_eq holds_def chain_at_def mutex_new_def sample_validator_def world_at_def)
  then have "?step ?p1 locked_pool" by (simp add: locked_pool_def to_phase_moves)
  ultimately show ?thesis by simp
qed

lemma locked_pool_path:
  "\<exists>steps. thread_path sample_tm sample_codec sample_json locked_pool steps \<and> map fst steps = [0, 1, 0, 0]"
proof -
  let ?step = "thread_step sample_tm sample_codec sample_json" and ?rq = "SignVote (nil_request None)"
  let ?chain = "chain_at genesis_state"
  let ?p1 = "to_phase 0 (Checked ?rq sample_state) locked_pool"
  let ?p2 = "to_phase 1 (Admitted (SignVote (nil_request (Some sample_time)))) ?p1"
  let ?p3 = "to_phase 0 (Recorded ?rq sample_state)
    (set_chain ''c'' (record_state sample_state ?chain) (w_disk (pl_world ?p2)) ?p2)"
  have ch: "w_registry sample_world ''c'' = Some ?chain" by (simp add: world_at_def)
  have id: "vc_chain_id sample_validator = ''c''" by (simp add: sample_validator_def)
  have "consensus_check (chain_memory ?chain) sample_state = Done ()" by code_simp
  then have 1: "?step 0 locked_pool ?p1"
    by (intro accept [OF locked_pool_runs]) (simp_all add: locked_pool_def id ch)
  have 2: "?step 1 ?p1 ?p2"
    by (rule admit [where config = sample_validator]) (simp_all add: runs_def locked_pool_def sample_admitted)
  have "runs ?p2 0 sample_validator (Checked ?rq sample_state)" by (simp add: runs_def locked_pool_def)
  from overwrite [OF this, of ?chain] have 3: "?step 0 ?p2 ?p3" by (simp add: locked_pool_def id ch)
  have r3: "runs ?p3 0 sample_validator (Recorded ?rq sample_state)" by (simp add: runs_def locked_pool_def)
  obtain d' r where "sync_to_disk sample_json Write_ok (guarded (ch_state (record_state sample_state ?chain)))
      (w_disk (pl_world ?p3)) = (d', r)" by (metis surj_pair)
  from persist [OF r3 _ this, of sample_tm sample_codec] obtain p4 where 4: "?step 0 ?p3 p4" by (auto simp: id)
  show ?thesis
    using 1 2 3 4 by (intro exI [of _ "[(0, ?p1), (1, ?p2), (0, ?p3), (0, p4)]"]) simp
qed

theorem lock_is_released_witness:
  "\<exists>steps. holds ''c'' (pl_threads locked_pool ! 0) \<and> map fst steps = [0, 1, 0, 0] \<and>
     thread_path sample_tm sample_codec sample_json locked_pool steps \<and>
     (\<exists>s \<in> set steps. list_all (\<lambda>t. \<not> holds ''c'' t) (pl_threads (snd s)))"
proof -
  obtain steps where path: "thread_path sample_tm sample_codec sample_json locked_pool steps"
    and who: "map fst steps = [0, 1, 0, 0]" using locked_pool_path by metis
  have id: "vc_chain_id sample_validator = ''c''" by (simp add: sample_validator_def)
  have "length (filter (\<lambda>s. fst s = 0) steps) = length (filter (\<lambda>k. k = 0) (map fst steps))"
    by (simp add: filter_map comp_def)
  then have three: "3 \<le> length (filter (\<lambda>s. fst s = 0) steps)" by (simp add: who)
  have inside: "in_section (Locked (SignVote (nil_request None)) sample_state)" by simp
  have "\<exists>s \<in> set steps. list_all (\<lambda>t. \<not> holds ''c'' t) (pl_threads (snd s))"
    using lock_is_released [OF locked_pool_reachable locked_pool_runs inside] path three unfolding id by blast
  moreover have "holds ''c'' (pl_threads locked_pool ! 0)"
    using runsD [OF locked_pool_runs] by (simp add: holds_def id)
  ultimately show ?thesis using path who by (intro exI [of _ steps]) simp
qed

end
