(* ===== verification/Global_State.thy ===== *)
theory Global_State
  imports Yubihsm_Client Concurrent_Sessions
begin

text \<open>
  The globals of the process: \<^verbatim>\<open>chain::REGISTRY\<close> (\<^verbatim>\<open>src/chain/registry.rs\<close>, \<^verbatim>\<open>src/chain/guard.rs\<close>), a
  registry behind a reader-writer lock, and the lazily initialised \<^verbatim>\<open>HSM_CONNECTOR\<close> and
  \<^verbatim>\<open>HSM_CLIENT\<close> of \<^verbatim>\<open>src/yubihsm.rs\<close>.  The other theories take the registry, the connector and the
  client as plain values; here the globals are modelled with their locks and their
  initialisation, and shown to provide exactly these values.
\<close>

section \<open>The global registry\<close>

text \<open>
  \<^verbatim>\<open>RwLock\<close>: like a mutex, a writer that panics poisons it; a reader that panics does not.
\<close>

definition global_get :: "registry mutex \<Rightarrow> (error_kind, registry) outcome" where
  "global_get self = (if poisoned self then Panicked poison_payload else Done (guarded self))"

definition with_write ::
  "registry mutex \<Rightarrow> (registry \<Rightarrow> (registry, error_kind, unit) run) \<Rightarrow> (registry mutex, error_kind, unit) run" where
  "with_write self f =
     (case with_lock self () (\<lambda>registry u. case f registry of (registry', r) \<Rightarrow> ((registry', u), r)) of
        ((self', _), r) \<Rightarrow> (self', r))"

definition global_register :: "chain \<Rightarrow> registry mutex \<Rightarrow> (registry mutex, error_kind, unit) run" where
  "global_register chain self = with_write self (register_chain chain)"

text \<open>
  \<^verbatim>\<open>REGISTRY.register(Chain::from_config(config)?)?\<close>: the chain is made before the lock is taken.
\<close>

definition global_register_config ::
  "tendermint_crate \<Rightarrow> state_json \<Rightarrow> (chain_config \<Rightarrow> chain_env) \<Rightarrow> chain_config
     \<Rightarrow> registry mutex \<times> disk \<Rightarrow> (registry mutex \<times> disk, error_kind, unit) run" where
  "global_register_config tm js env config s =
     (case s of (self, disk) \<Rightarrow>
        (case chain_from_config tm js (env config) config disk of
           (disk', Done chain) \<Rightarrow> (case global_register chain self of (self', r) \<Rightarrow> ((self', disk'), r))
         | (disk', Failed e) \<Rightarrow> ((self, disk'), Failed e)
         | (disk', Panicked p) \<Rightarrow> ((self, disk'), Panicked p)))"

text \<open>Then all keys are loaded under one write lock.\<close>

definition global_load_config ::
  "tendermint_crate \<Rightarrow> state_json \<Rightarrow> (chain_config \<Rightarrow> chain_env) \<Rightarrow> key_sources \<Rightarrow> kms_config
     \<Rightarrow> registry mutex \<times> disk \<Rightarrow> (registry mutex \<times> disk, error_kind, unit) run" where
  "global_load_config tm js env ks config s =
     rbind (for_each (global_register_config tm js env) (kc_chain config) s) (\<lambda>s _.
       case s of (self, disk) \<Rightarrow>
         (case with_write self (keyring_load_config ks (kc_providers config)) of
            (self', r) \<Rightarrow> ((self', disk), r)))"

lemma mutex_fresh: "guarded (mutex_new x) = x" "\<not> poisoned (mutex_new x)"
  by (simp_all add: mutex_new_def)

lemma with_write_unpoisoned:
  "\<not> poisoned m \<Longrightarrow> f (guarded m) = (reg, r) \<Longrightarrow> with_write m f = (\<lparr>guarded = reg, poisoned = is_panic r\<rparr>, r)"
  by (simp add: with_write_def with_lock_def)

lemma register_chain_no_panic [simp]: "\<not> is_panic (snd (register_chain chain reg))"
  by (simp add: register_chain_def split: option.split)

lemma global_register_unpoisoned:
  "\<not> poisoned m \<Longrightarrow> global_register chain m =
     (\<lparr>guarded = fst (register_chain chain (guarded m)), poisoned = False\<rparr>, snd (register_chain chain (guarded m)))"
  using register_chain_no_panic [of chain "guarded m"]
    with_write_unpoisoned [of m "register_chain chain" "fst (register_chain chain (guarded m))"
      "snd (register_chain chain (guarded m))"]
  by (simp add: global_register_def del: register_chain_no_panic)

lemma global_register_config_run:
  "global_register_config tm js env config (mutex_new reg, d) =
     (case register_config tm js env config (reg, d) of ((reg', d'), r) \<Rightarrow> ((mutex_new reg', d'), r))"
  by (auto simp: global_register_config_def register_config_def global_register_unpoisoned mutex_new_def
      split: prod.splits outcome.splits)

lemma global_register_configs_run:
  "for_each (global_register_config tm js env) configs (mutex_new reg, d) =
     (case load_chains tm js env configs (reg, d) of ((reg', d'), r) \<Rightarrow> ((mutex_new reg', d'), r))"
proof (induction configs arbitrary: reg d)
  case Nil
  then show ?case by (simp add: load_chains_def)
next
  case (Cons config configs)
  obtain reg1 d1 r1 where one: "register_config tm js env config (reg, d) = ((reg1, d1), r1)"
    by (metis surj_pair)
  show ?case
    using Cons.IH [of reg1 d1]
    by (cases r1) (simp_all add: load_chains_def one global_register_config_run)
qed

text \<open>
  C18: loading the configuration through the global registry and its lock gives the registry, the
  disk and the result that loading without the lock gives.  The lock ends poisoned exactly when the
  keys were being loaded and a key provider panicked, in which case loading itself does not return;
  after a load that succeeds, \<^verbatim>\<open>REGISTRY.get()\<close> does not panic and yields what was loaded.
\<close>

theorem global_load_refines:
  assumes "global_load_config tm js env ks config (mutex_new Map.empty, d) = ((m, d'), r)"
  shows "chain_load_config tm js env ks config (Map.empty, d) = ((guarded m, d'), r) \<and>
    (poisoned m \<longleftrightarrow> is_panic r \<and> is_done (snd (load_chains tm js env (kc_chain config) (Map.empty, d)))) \<and>
    (is_done r \<longrightarrow> global_get m = Done (guarded m))"
proof -
  obtain reg d1 r1 where chains: "load_chains tm js env (kc_chain config) (Map.empty, d) = ((reg, d1), r1)"
    by (metis surj_pair)
  obtain reg' r2 where keys: "keyring_load_config ks (kc_providers config) reg = (reg', r2)"
    by (metis surj_pair)
  have locked: "with_write (mutex_new reg) (keyring_load_config ks (kc_providers config)) =
      (\<lparr>guarded = reg', poisoned = is_panic r2\<rparr>, r2)"
    using with_write_unpoisoned [of "mutex_new reg" "keyring_load_config ks (kc_providers config)" reg' r2] keys
    by (simp add: mutex_new_def)
  show ?thesis
    using assms locked
    by (cases r1) (auto simp: global_load_config_def chain_load_config_def global_register_configs_run chains keys
        global_get_def mutex_fresh is_done_iff)
qed

theorem global_load_refines_witness:
  "\<exists>m d'. global_load_config plain_tm plain_json (\<lambda>_. plain_env) plain_keys softsign_kms (mutex_new Map.empty, Map.empty) =
     ((m, d'), Done ()) \<and> (\<exists>chain. guarded m ''c'' = Some chain) \<and> global_get m = Done (guarded m)"
proof -
  obtain m d' r where run: "global_load_config plain_tm plain_json (\<lambda>_. plain_env) plain_keys softsign_kms
      (mutex_new Map.empty, Map.empty) = ((m, d'), r)"
    by (metis surj_pair)
  obtain reg d1 where "chain_load_config plain_tm plain_json (\<lambda>_. plain_env) plain_keys softsign_kms
      (Map.empty, Map.empty) = ((reg, d1), Done ())" and "reg ''c'' \<noteq> None"
    using softsign_loads by blast
  then have "r = Done ()" "\<exists>chain. guarded m ''c'' = Some chain" "global_get m = Done (guarded m)"
    using global_load_refines [OF run] by auto
  with run show ?thesis by blast
qed

section \<open>The YubiHSM connection\<close>

text \<open>
  \<^verbatim>\<open>Lazy\<close> runs its initialiser at the first use; when that panics, every later use panics.  What the
  initialisers do to the outside is kept: \<open>g_log\<close> lists each time the connector is initialised and
  each time a client is opened, \<open>g_servers\<close> the connector servers that were started.
\<close>

datatype 'a lazy = Lazy_unset | Lazy_set 'a | Lazy_poisoned

definition lazy_panic :: panic_payload where
  "lazy_panic = Payload_str ''Lazy instance has previously been poisoned''"

type_synonym hsm_session = "connector \<times> credentials \<times> bool"

datatype hsm_event = Connector_init | Client_open

record hsm_globals =
  g_connector :: "connector lazy"
  g_client :: "hsm_session mutex lazy"
  g_servers :: "(string \<times> u16) list"
  g_log :: "hsm_event list"

definition hsm_globals_new :: hsm_globals where
  "hsm_globals_new = \<lparr>g_connector = Lazy_unset, g_client = Lazy_unset, g_servers = [], g_log = []\<rparr>"

definition server_list :: "(string \<times> u16) option \<Rightarrow> (string \<times> u16) list" where
  "server_list server = (case server of None \<Rightarrow> [] | Some addr \<Rightarrow> [addr])"

definition hsm_connector :: "hsm_env \<Rightarrow> kms_config \<Rightarrow> hsm_globals \<Rightarrow> (hsm_globals, nat, connector) run" where
  "hsm_connector env config g =
     (case g_connector g of
        Lazy_set c \<Rightarrow> (g, Done c)
      | Lazy_poisoned \<Rightarrow> (g, Panicked lazy_panic)
      | Lazy_unset \<Rightarrow>
          (let g = g\<lparr>g_log := g_log g @ [Connector_init]\<rparr>
           in case init_connector env config of
                Done (c, server) \<Rightarrow>
                  (g\<lparr>g_connector := Lazy_set c, g_servers := g_servers g @ server_list server\<rparr>, Done c)
              | Failed e \<Rightarrow> (g, Failed e)
              | Panicked p \<Rightarrow> (g\<lparr>g_connector := Lazy_poisoned\<rparr>, Panicked p)))"

definition hsm_open_client ::
  "(connector \<Rightarrow> credentials \<Rightarrow> bool \<Rightarrow> bool) \<Rightarrow> hsm_env \<Rightarrow> kms_config \<Rightarrow> hsm_globals
     \<Rightarrow> (hsm_globals, nat, hsm_session) run" where
  "hsm_open_client accepts env config g =
     rbind (g, client_config env config) (\<lambda>g (credentials, reconnect).
     rbind (hsm_connector env config g) (\<lambda>g connector.
       (g\<lparr>g_log := g_log g @ [Client_open]\<rparr>,
        if accepts connector credentials reconnect then Done (connector, credentials, reconnect) else Failed 1)))"

definition hsm_client_guard ::
  "(connector \<Rightarrow> credentials \<Rightarrow> bool \<Rightarrow> bool) \<Rightarrow> hsm_env \<Rightarrow> kms_config \<Rightarrow> hsm_globals
     \<Rightarrow> (hsm_globals, nat, hsm_session) run" where
  "hsm_client_guard accepts env config g =
     (case g_client g of
        Lazy_set m \<Rightarrow> (g, if poisoned m then Panicked poison_payload else Done (guarded m))
      | Lazy_poisoned \<Rightarrow> (g, Panicked lazy_panic)
      | Lazy_unset \<Rightarrow>
          (case hsm_open_client accepts env config g of
             (g', Done x) \<Rightarrow> (g'\<lparr>g_client := Lazy_set (mutex_new x)\<rparr>, Done x)
           | (g', Failed e) \<Rightarrow> (g', Failed e)
           | (g', Panicked p) \<Rightarrow> (g'\<lparr>g_client := Lazy_poisoned\<rparr>, Panicked p)))"

text \<open>
  The uses of the globals in one process, in the order in which the threads get to them; a thread
  may panic while it holds the client.  A use that panics ends its thread only; one that exits (an
  error) ends the process, and with it the uses.
\<close>

datatype hsm_use = Use_connector | Use_client | Use_client_panics

fun poison_client :: "hsm_session mutex lazy \<Rightarrow> hsm_session mutex lazy" where
  "poison_client (Lazy_set m) = Lazy_set (m\<lparr>poisoned := True\<rparr>)"
| "poison_client x = x"

definition hsm_use :: "(connector \<Rightarrow> credentials \<Rightarrow> bool \<Rightarrow> bool) \<Rightarrow> hsm_env \<Rightarrow> kms_config \<Rightarrow> hsm_use \<Rightarrow> hsm_globals
    \<Rightarrow> (hsm_globals, nat, connector list \<times> hsm_session list) run" where
  "hsm_use accepts env config u g =
     (case u of
        Use_connector \<Rightarrow> rbind (hsm_connector env config g) (\<lambda>g c. (g, Done ([c], [])))
      | Use_client \<Rightarrow> rbind (hsm_client_guard accepts env config g) (\<lambda>g x. (g, Done ([], [x])))
      | Use_client_panics \<Rightarrow>
          rbind (hsm_client_guard accepts env config g)
            (\<lambda>g x. (g\<lparr>g_client := poison_client (g_client g)\<rparr>, Done ([], [x]))))"

fun hsm_uses :: "(connector \<Rightarrow> credentials \<Rightarrow> bool \<Rightarrow> bool) \<Rightarrow> hsm_env \<Rightarrow> kms_config \<Rightarrow> hsm_use list \<Rightarrow> hsm_globals
    \<Rightarrow> hsm_globals \<times> connector list \<times> hsm_session list" where
  "hsm_uses accepts env config [] g = (g, [], [])"
| "hsm_uses accepts env config (u # us) g =
     (case hsm_use accepts env config u g of
        (g1, Failed e) \<Rightarrow> (g1, [], [])
      | (g1, Panicked p) \<Rightarrow> hsm_uses accepts env config us g1
      | (g1, Done (cs, xs)) \<Rightarrow>
          (case hsm_uses accepts env config us g1 of (g2, cs', xs') \<Rightarrow> (g2, cs @ cs', xs @ xs')))"

text \<open>
  The globals agree with the initialisers, and what was done once is remembered; the first part
  holds while the client is being opened too.
\<close>

definition connector_inv :: "hsm_env \<Rightarrow> kms_config \<Rightarrow> hsm_globals \<Rightarrow> bool" where
  "connector_inv env config g \<longleftrightarrow>
     distinct (g_log g) \<and> (Connector_init \<in> set (g_log g) \<longrightarrow> g_connector g \<noteq> Lazy_unset) \<and>
     (case g_connector g of
        Lazy_set c \<Rightarrow> (\<exists>s. init_connector env config = Done (c, s) \<and> g_servers g = server_list s)
      | _ \<Rightarrow> g_servers g = [])"

definition hsm_inv :: "(connector \<Rightarrow> credentials \<Rightarrow> bool \<Rightarrow> bool) \<Rightarrow> hsm_env \<Rightarrow> kms_config \<Rightarrow> hsm_globals \<Rightarrow> bool" where
  "hsm_inv accepts env config g \<longleftrightarrow>
     connector_inv env config g \<and> (Client_open \<in> set (g_log g) \<longrightarrow> g_client g \<noteq> Lazy_unset) \<and>
     (case g_client g of Lazy_set m \<Rightarrow> init_client accepts env config = Done (guarded m) | _ \<Rightarrow> True)"

text \<open>What holds of the globals that a process leaves, however it ended.\<close>

definition hsm_once :: "hsm_globals \<Rightarrow> bool" where
  "hsm_once g \<longleftrightarrow> distinct (g_log g) \<and> length (g_servers g) \<le> 1"

lemma connector_inv_once: "connector_inv env config g \<Longrightarrow> hsm_once g"
  by (auto simp: connector_inv_def hsm_once_def server_list_def split: lazy.splits option.splits)

lemma hsm_connector_inv:
  assumes "connector_inv env config g" and "hsm_connector env config g = (g', r)"
  shows "hsm_once g'" and "is_done r \<or> is_panic r \<Longrightarrow> connector_inv env config g'" and "g_client g' = g_client g"
    and "Client_open \<in> set (g_log g') \<longleftrightarrow> Client_open \<in> set (g_log g)"
    and "r = Done c \<Longrightarrow> \<exists>s. init_connector env config = Done (c, s)"
proof -
  have "hsm_once g' \<and> (is_done r \<or> is_panic r \<longrightarrow> connector_inv env config g') \<and> g_client g' = g_client g \<and>
      (Client_open \<in> set (g_log g') \<longleftrightarrow> Client_open \<in> set (g_log g)) \<and>
      (\<forall>c. r = Done c \<longrightarrow> (\<exists>s. init_connector env config = Done (c, s)))"
  proof (cases "g_connector g")
    case Lazy_unset
    then show ?thesis
      using assms by (cases "init_connector env config")
        (auto simp: connector_inv_def hsm_once_def hsm_connector_def Let_def server_list_def split: option.split)
  qed (use assms connector_inv_once [OF assms(1)] in \<open>auto simp: connector_inv_def hsm_connector_def\<close>)
  then show "hsm_once g'" and "is_done r \<or> is_panic r \<Longrightarrow> connector_inv env config g'" and "g_client g' = g_client g"
    and "Client_open \<in> set (g_log g') \<longleftrightarrow> Client_open \<in> set (g_log g)"
    and "r = Done c \<Longrightarrow> \<exists>s. init_connector env config = Done (c, s)" by blast+
qed

lemma hsm_open_client_inv:
  assumes "hsm_inv accepts env config g" and "g_client g = Lazy_unset" and "hsm_open_client accepts env config g = (g', r)"
  shows "hsm_once g'" and "is_done r \<or> is_panic r \<Longrightarrow> connector_inv env config g'"
    and "r = Done x \<Longrightarrow> init_client accepts env config = Done x"
proof -
  have base: "connector_inv env config g" "Client_open \<notin> set (g_log g)"
    using assms(1,2) by (auto simp: hsm_inv_def)
  have "hsm_once g' \<and> (is_done r \<or> is_panic r \<longrightarrow> connector_inv env config g') \<and>
      (\<forall>x. r = Done x \<longrightarrow> init_client accepts env config = Done x)"
  proof (cases "client_config env config")
    case (Done a)
    obtain g1 r1 where conn: "hsm_connector env config g = (g1, r1)" by (metis surj_pair)
    note step = hsm_connector_inv [OF base(1) conn]
    show ?thesis
    proof (cases r1)
      case connected: (Done c)
      have inv: "connector_inv env config g1" using step(2) connected by simp
      then have "connector_inv env config (g1\<lparr>g_log := g_log g1 @ [Client_open]\<rparr>)"
        using step(4) base(2) by (auto simp: connector_inv_def split: lazy.splits)
      moreover obtain s where "init_connector env config = Done (c, s)" using step(5) [OF connected] by blast
      ultimately show ?thesis
        using assms(3) Done conn connected connector_inv_once
        by (auto simp: hsm_open_client_def init_client_def case_prod_unfold)
    qed (use step assms(3) Done conn in \<open>auto simp: hsm_open_client_def case_prod_unfold\<close>)
  qed (use base assms(3) connector_inv_once in \<open>auto simp: hsm_open_client_def\<close>)
  then show "hsm_once g'" and "is_done r \<or> is_panic r \<Longrightarrow> connector_inv env config g'"
    and "r = Done x \<Longrightarrow> init_client accepts env config = Done x" by blast+
qed

lemma connector_inv_client [simp]: "connector_inv env config (g\<lparr>g_client := x\<rparr>) = connector_inv env config g"
  by (simp add: connector_inv_def split: lazy.split)

lemma hsm_once_client [simp]: "hsm_once (g\<lparr>g_client := x\<rparr>) = hsm_once g"
  by (simp add: hsm_once_def)

lemma hsm_client_inv:
  assumes "hsm_inv accepts env config g" and "hsm_client_guard accepts env config g = (g', r)"
  shows "hsm_once g' \<and> (is_done r \<or> is_panic r \<longrightarrow> hsm_inv accepts env config g') \<and>
    (\<forall>x. r = Done x \<longrightarrow> init_client accepts env config = Done x)"
proof (cases "g_client g")
  case Lazy_unset
  obtain g1 r1 where opn: "hsm_open_client accepts env config g = (g1, r1)" by (metis surj_pair)
  show ?thesis
    using hsm_open_client_inv [OF assms(1) Lazy_unset opn] assms(2) Lazy_unset opn
    by (cases r1) (auto simp: hsm_client_guard_def hsm_inv_def mutex_new_def)
next
  case (Lazy_set m)
  then show ?thesis
    using assms connector_inv_once by (auto simp: hsm_client_guard_def hsm_inv_def split: if_splits)
next
  case Lazy_poisoned
  then show ?thesis
    using assms connector_inv_once by (auto simp: hsm_client_guard_def hsm_inv_def)
qed

lemma poison_client_inv:
  "hsm_inv accepts env config g \<Longrightarrow> hsm_inv accepts env config (g\<lparr>g_client := poison_client (g_client g)\<rparr>)"
  by (cases "g_client g") (auto simp: hsm_inv_def)

lemma hsm_use_inv:
  assumes "hsm_inv accepts env config g" and "hsm_use accepts env config u g = (g', r)"
  shows "hsm_once g' \<and> (is_done r \<or> is_panic r \<longrightarrow> hsm_inv accepts env config g') \<and>
    (\<forall>cs xs. r = Done (cs, xs) \<longrightarrow> (\<forall>c \<in> set cs. \<exists>s. init_connector env config = Done (c, s)) \<and>
       (\<forall>x \<in> set xs. init_client accepts env config = Done x))"
proof (cases u)
  case Use_connector
  obtain g1 r1 where run: "hsm_connector env config g = (g1, r1)" by (metis surj_pair)
  have "connector_inv env config g" using assms(1) by (simp add: hsm_inv_def)
  note step = hsm_connector_inv [OF this run]
  have "hsm_inv accepts env config g1" if "is_done r1 \<or> is_panic r1"
    using assms(1) step(2) [OF that] step(3,4) by (simp add: hsm_inv_def)
  then show ?thesis using step(1,5) assms(2) Use_connector run by (cases r1) (auto simp: hsm_use_def)
next
  case Use_client
  obtain g1 r1 where run: "hsm_client_guard accepts env config g = (g1, r1)" by (metis surj_pair)
  then show ?thesis using hsm_client_inv [OF assms(1) run] assms(2) Use_client
    by (cases r1) (auto simp: hsm_use_def)
next
  case Use_client_panics
  obtain g1 r1 where run: "hsm_client_guard accepts env config g = (g1, r1)" by (metis surj_pair)
  then show ?thesis using hsm_client_inv [OF assms(1) run] assms(2) Use_client_panics
    by (cases r1) (auto simp: hsm_use_def poison_client_inv)
qed

lemma hsm_uses_inv:
  "hsm_inv accepts env config g \<Longrightarrow> hsm_uses accepts env config us g = (g', cs, xs) \<Longrightarrow>
     hsm_once g' \<and> (\<forall>c \<in> set cs. \<exists>s. init_connector env config = Done (c, s)) \<and>
     (\<forall>x \<in> set xs. init_client accepts env config = Done x)"
proof (induction us arbitrary: g cs xs)
  case Nil
  then show ?case using connector_inv_once by (auto simp: hsm_inv_def)
next
  case (Cons u us)
  obtain g1 r1 where one: "hsm_use accepts env config u g = (g1, r1)" by (metis surj_pair)
  note step = hsm_use_inv [OF Cons.prems(1) one]
  show ?case
  proof (cases r1)
    case (Done a)
    obtain cs2 xs2 where rest: "hsm_uses accepts env config us g1 = (g', cs2, xs2)"
      and "cs = fst a @ cs2" "xs = snd a @ xs2"
      using Cons.prems(2) one Done by (cases a) (auto split: prod.splits)
    then show ?thesis using step Cons.IH [OF _ rest] Done by (cases a) auto
  next
    case (Panicked p)
    then have "hsm_uses accepts env config us g1 = (g', cs, xs)" using Cons.prems(2) one by simp
    then show ?thesis using step Cons.IH [of g1 cs xs] Panicked by simp
  qed (use Cons.prems(2) one step in auto)
qed

text \<open>
  C32: however often and in whatever order the threads of a process use the connection to the YubiHSM,
  also after one of them panicked while it held the client or an initialiser panicked, and wherever
  an error makes the process exit, the device is opened once: the connector is initialised at most once, at most one connector
  server is started and at most one client is opened; everyone gets the connector that \<^verbatim>\<open>init_connector\<close>
  gives and the client that \<^verbatim>\<open>init_client\<close> gives, and the client uses that same connector.
\<close>

theorem hsm_opened_once:
  assumes "hsm_uses accepts env config us hsm_globals_new = (g, cs, xs)"
  shows "distinct (g_log g) \<and> length (g_servers g) \<le> 1 \<and>
    (\<forall>c \<in> set cs. \<exists>s. init_connector env config = Done (c, s)) \<and>
    (\<forall>x \<in> set xs. init_client accepts env config = Done x) \<and> (\<forall>c \<in> set cs. \<forall>x \<in> set xs. fst x = c)"
proof -
  have "hsm_inv accepts env config hsm_globals_new" by (simp add: hsm_inv_def connector_inv_def hsm_globals_new_def)
  note run = hsm_uses_inv [OF this assms]
  have "fst x = c" if "c \<in> set cs" "x \<in> set xs" for c x
  proof -
    obtain s where "init_connector env config = Done (c, s)" and "init_client accepts env config = Done x"
      using run \<open>c \<in> set cs\<close> \<open>x \<in> set xs\<close> by blast
    then show ?thesis by (auto simp: init_client_def obind_Done_iff split: if_splits)
  qed
  with run show ?thesis by (auto simp: hsm_once_def)
qed

text \<open>Four uses of a running KMS with a connector server, two of them after a panic.\<close>

theorem hsm_opened_once_witness:
  "\<exists>g. hsm_uses (\<lambda>_ _ _. True) (terminal False) server_kms
       [Use_connector, Use_client, Use_client_panics, Use_client, Use_connector] hsm_globals_new =
     (g, [Usb_connector None 1000, Usb_connector None 1000],
      [(Usb_connector None 1000, \<lparr>crd_key_id = 1, crd_password = str_bytes ''secret''\<rparr>, True),
       (Usb_connector None 1000, \<lparr>crd_key_id = 1, crd_password = str_bytes ''secret''\<rparr>, True)]) \<and>
     g_log g = [Connector_init, Client_open] \<and> distinct (g_log g) \<and> length (g_servers g) \<le> 1"
proof -
  obtain g cs xs where run: "hsm_uses (\<lambda>_ _ _. True) (terminal False) server_kms
      [Use_connector, Use_client, Use_client_panics, Use_client, Use_connector] hsm_globals_new = (g, cs, xs)"
    by (metis surj_pair)
  moreover have "(cs, xs, g_log g) = ([Usb_connector None 1000, Usb_connector None 1000],
      [(Usb_connector None 1000, \<lparr>crd_key_id = 1, crd_password = str_bytes ''secret''\<rparr>, True),
       (Usb_connector None 1000, \<lparr>crd_key_id = 1, crd_password = str_bytes ''secret''\<rparr>, True)],
      [Connector_init, Client_open])"
    using run
    by (auto simp: hsm_use_def hsm_connector_def hsm_client_guard_def hsm_open_client_def hsm_globals_new_def
        init_connector_def hsm_config_def server_kms_def server_hsm_def terminal_def client_config_def
        auth_credentials_def mutex_new_def)
  ultimately show ?thesis using hsm_opened_once [OF run] by auto
qed

end
