(* ===== verification/Unix_Socket.thy ===== *)
theory Unix_Socket
  imports Kms_Error
begin

text \<open>
  The connection to a validator over a Unix socket (\<^verbatim>\<open>src/connection/unix.rs\<close>), which hands every
  call on to the socket, and the loop \<^verbatim>\<open>Write::write_all\<close> of the standard library with which a
  session sends its reply.  The socket is given by its coming answers and what it took so far; a
  call without an answer blocks.
\<close>

datatype write_result = Wrote nat | Write_interrupted | Write_broken

datatype read_result = Got bytes | Read_broken

record socket =
  sk_writes :: "write_result list"
  sk_reads :: "read_result list"
  sk_taken :: bytes

datatype io_error = Interrupted | WriteZero | Other_io

text \<open>A socket takes at most what it is given.\<close>

definition socket_write :: "bytes \<Rightarrow> socket \<Rightarrow> (socket \<times> (io_error, nat) outcome) option" where
  "socket_write data s =
     (case sk_writes s of
        [] \<Rightarrow> None
      | a # rest \<Rightarrow>
          Some (case a of
                  Wrote n \<Rightarrow> (s\<lparr>sk_writes := rest, sk_taken := sk_taken s @ take n data\<rparr>, Done (min n (length data)))
                | Write_interrupted \<Rightarrow> (s\<lparr>sk_writes := rest\<rparr>, Failed Interrupted)
                | Write_broken \<Rightarrow> (s\<lparr>sk_writes := rest\<rparr>, Failed Other_io)))"

definition socket_read :: "nat \<Rightarrow> socket \<Rightarrow> (socket \<times> (io_error, bytes) outcome) option" where
  "socket_read len s =
     (case sk_reads s of
        [] \<Rightarrow> None
      | Got b # rest \<Rightarrow>
          Some (s\<lparr>sk_reads := (if length b \<le> len then rest else Got (drop len b) # rest)\<rparr>, Done (take len b))
      | Read_broken # rest \<Rightarrow> Some (s\<lparr>sk_reads := rest\<rparr>, Failed Other_io))"

section \<open>The connection\<close>

record unix_connection =
  uc_socket :: socket

definition unix_connection_new :: "socket \<Rightarrow> unix_connection" where
  "unix_connection_new socket = \<lparr>uc_socket = socket\<rparr>"

definition unix_read :: "nat \<Rightarrow> unix_connection \<Rightarrow> (unix_connection \<times> (io_error, bytes) outcome) option" where
  "unix_read len self = map_option (\<lambda>(s, r). (self\<lparr>uc_socket := s\<rparr>, r)) (socket_read len (uc_socket self))"

definition unix_write :: "bytes \<Rightarrow> unix_connection \<Rightarrow> (unix_connection \<times> (io_error, nat) outcome) option" where
  "unix_write data self = map_option (\<lambda>(s, r). (self\<lparr>uc_socket := s\<rparr>, r)) (socket_write data (uc_socket self))"

section \<open>Sending a reply\<close>

lemma unix_write_answers:
  "unix_write data c = Some (c', r) \<Longrightarrow> length (sk_writes (uc_socket c')) < length (sk_writes (uc_socket c))"
  by (auto simp: unix_write_def socket_write_def split: list.splits write_result.splits)

text \<open>\<open>None\<close>: the call blocks.\<close>

function (sequential) unix_write_all :: "bytes \<Rightarrow> unix_connection \<Rightarrow> unix_connection \<times> (io_error, unit) outcome option" where
  "unix_write_all [] self = (self, Some (Done ()))"
| "unix_write_all data self =
     (case unix_write data self of
        None \<Rightarrow> (self, None)
      | Some (self', Done n) \<Rightarrow>
          if n = 0 then (self', Some (Failed WriteZero)) else unix_write_all (drop n data) self'
      | Some (self', Failed Interrupted) \<Rightarrow> unix_write_all data self'
      | Some (self', Failed e) \<Rightarrow> (self', Some (Failed e))
      | Some (self', Panicked p) \<Rightarrow> (self', Some (Panicked p)))"
  by pat_completeness auto
termination
  by (relation "measure (\<lambda>(data, c). length (sk_writes (uc_socket c)))") (auto dest: unix_write_answers)

lemma unix_write_taken:
  assumes "unix_write data c = Some (c', r)"
  shows "sk_taken (uc_socket c') = sk_taken (uc_socket c) @ (case r of Done n \<Rightarrow> take n data | _ \<Rightarrow> [])"
proof (cases "sk_writes (uc_socket c)")
  case (Cons a rest)
  then show ?thesis
    using assms by (cases a) (auto simp: unix_write_def socket_write_def min_def)
qed (use assms in \<open>simp add: unix_write_def socket_write_def\<close>)

lemma unix_write_all_taken:
  "unix_write_all data c = (c', r) \<Longrightarrow>
     \<exists>k. sk_taken (uc_socket c') = sk_taken (uc_socket c) @ take k data \<and> (r = Some (Done ()) \<longrightarrow> length data \<le> k)"
proof (induction data c arbitrary: c' r rule: unix_write_all.induct)
  case (1 c)
  then show ?case by auto
next
  case (2 b bs c)
  let ?data = "b # bs"
  show ?case
  proof (cases "unix_write ?data c")
    case None
    then show ?thesis using "2.prems" by (auto intro: exI [of _ 0])
  next
    case (Some x)
    obtain c1 q where x: "x = (c1, q)" by (cases x)
    note step = unix_write_taken [OF Some [unfolded x]]
    have stop: ?thesis if "c' = c1" "r \<noteq> Some (Done ())" "\<nexists>n. q = Done n \<and> n \<noteq> 0"
      using that step by (cases q) (auto intro: exI [of _ 0])
    show ?thesis
    proof (cases q)
      case (Done n)
      show ?thesis
      proof (cases "n = 0")
        case False
        then have rest: "unix_write_all (drop n ?data) c1 = (c', r)" using "2.prems" Some x Done by simp
        from "2.IH"(1) [OF Some x [symmetric] Done False this] obtain k where
          "sk_taken (uc_socket c') = sk_taken (uc_socket c1) @ take k (drop n ?data)"
          "r = Some (Done ()) \<longrightarrow> length (drop n ?data) \<le> k" by blast
        then show ?thesis using step Done by (intro exI [of _ "n + k"]) (auto simp: take_add)
      qed (use stop "2.prems" Some x Done in auto)
    next
      case (Failed e)
      show ?thesis
      proof (cases e)
        case Interrupted
        then show ?thesis
          using "2.IH"(2) [OF Some x [symmetric] Failed Interrupted] "2.prems" Some x Failed step by auto
      qed (use stop "2.prems" Some x Failed in auto)
    qed (use stop "2.prems" Some x in auto)
  qed
qed

text \<open>
  However the Unix socket of a validator splits, interrupts or ends the writes of a reply, what
  the validator gets of it is a prefix of the reply, without gaps or repetitions, and the whole
  reply when sending succeeds.
\<close>

theorem unix_reply_sent:
  assumes "unix_write_all reply (unix_connection_new s) = (c, r)"
  shows "\<exists>k. sk_taken (uc_socket c) = sk_taken s @ take k reply \<and> (r = Some (Done ()) \<longrightarrow> length reply \<le> k)"
  using unix_write_all_taken [OF assms] by (simp add: unix_connection_new_def)

theorem unix_reply_sent_witness:
  "\<exists>c. unix_write_all [1, 2, 3] (unix_connection_new
       \<lparr>sk_writes = [Wrote 1, Write_interrupted, Wrote 5], sk_reads = [], sk_taken = [9]\<rparr>) = (c, Some (Done ())) \<and>
     sk_taken (uc_socket c) = [9, 1, 2, 3]"
proof -
  let ?s = "\<lparr>sk_writes = [Wrote 1, Write_interrupted, Wrote 5], sk_reads = [], sk_taken = [9]\<rparr>"
  obtain c r where run: "unix_write_all [1, 2, 3] (unix_connection_new ?s) = (c, r)" by (metis surj_pair)
  then have "r = Some (Done ())"
    by (auto simp: unix_connection_new_def unix_write_def socket_write_def)
  with unix_reply_sent [OF run] run show ?thesis by auto
qed

end
