(* ===== verification/Tx_Signer.thy ===== *)
theory Tx_Signer
  imports Chain_Registry
begin

text \<open>
  The transaction signer: \<^verbatim>\<open>src/tx_signer.rs\<close> and \<^verbatim>\<open>src/tx_signer/*.rs\<close>.  It asks a service
  for a transaction, checks its chain and its message types, signs it with an account key and
  broadcasts it, keeping the account's sequence number in a file.

  The \<^verbatim>\<open>stdtx\<close> crate (schemas, message encodings), the HTTP source and the Tendermint RPC node
  are parameters.  Beside the signer and the disk, the state holds the log of what was
  broadcast, each transaction with the sequence number it was signed for.  Time is not
  modelled: sleeping only delays the next step.
\<close>

section \<open>The sequence file\<close>

record sequence_file =
  sq_path :: path
  sq_sequence :: u64

record sequence_json =
  sequence_to_json :: "u64 \<Rightarrow> string option"
  sequence_from_json :: "string \<Rightarrow> u64 option"

definition sequence_roundtrip :: "sequence_json \<Rightarrow> bool" where
  "sequence_roundtrip sj \<longleftrightarrow>
     (\<forall>n j. sequence_to_json sj n = Some j \<longrightarrow> sequence_from_json sj j = Some n)"

definition sequence_sync_to_disk ::
  "sequence_json \<Rightarrow> write_answer \<Rightarrow> sequence_file \<Rightarrow> disk \<Rightarrow> (disk, foreign_error, unit) run" where
  "sequence_sync_to_disk sj os self disk =
     (case path_parent (sq_path self) of
        None \<Rightarrow> (disk, Panicked root_panic)
      | Some parent_dir \<Rightarrow>
          (case sequence_to_json sj (sq_sequence self) of
             None \<Rightarrow> (disk, Failed Io_error)
           | Some json \<Rightarrow>
               (case os of
                  Tempfile_fails \<Rightarrow> (disk, Failed Io_error)
                | Write_fails \<Rightarrow> (disk, Failed Io_error)
                | Persist_fails \<Rightarrow> (disk, Failed Io_error)
                | Write_ok \<Rightarrow> (disk(sq_path self \<mapsto> json), Done ()))))"

definition sequence_create ::
  "sequence_json \<Rightarrow> write_answer \<Rightarrow> path \<Rightarrow> disk \<Rightarrow> (disk, error_kind, sequence_file) run" where
  "sequence_create sj os path disk =
     (let self = \<lparr>sq_path = path, sq_sequence = 0\<rparr>
      in case sequence_sync_to_disk sj os self disk of
           (disk', r) \<Rightarrow> rbind (disk', map_err error_from r) (\<lambda>d _. (d, Done self)))"

definition sequence_open ::
  "sequence_json \<Rightarrow> read_answer \<Rightarrow> write_answer \<Rightarrow> path \<Rightarrow> disk \<Rightarrow> (disk, error_kind, sequence_file) run" where
  "sequence_open sj rd os path disk =
     (case rd of
        Read_fails \<Rightarrow> (disk, Failed (error_from Io_error))
      | Read_ok \<Rightarrow>
          (case disk path of
             Some state_json \<Rightarrow>
               (case sequence_from_json sj state_json of
                  None \<Rightarrow> (disk, Failed ParseError)
                | Some n \<Rightarrow> (disk, Done \<lparr>sq_path = path, sq_sequence = n\<rparr>))
           | None \<Rightarrow> sequence_create sj os path disk))"

text \<open>The value in memory changes first, and stays changed when the write fails.\<close>

definition sequence_persist ::
  "sequence_json \<Rightarrow> write_answer \<Rightarrow> u64 \<Rightarrow> sequence_file \<Rightarrow> disk
     \<Rightarrow> (sequence_file \<times> disk, error_kind, u64) run" where
  "sequence_persist sj os new_value self disk =
     (let self' = self\<lparr>sq_sequence := new_value\<rparr>
      in case sequence_sync_to_disk sj os self' disk of
           (disk', r) \<Rightarrow> rbind ((self', disk'), map_err error_from r) (\<lambda>s _. (s, Done (sq_sequence self'))))"

section \<open>The last transaction\<close>

record tx_result =
  tr_check_tx_code :: u32
  tr_deliver_tx_code :: u32
  tr_hash :: bytes

datatype last_tx = No_tx | Tx_response tx_result | Tx_error string

fun last_tx_response :: "last_tx \<Rightarrow> tx_result option" where
  "last_tx_response (Tx_response resp) = Some resp"
| "last_tx_response _ = None"

fun last_tx_error :: "last_tx \<Rightarrow> string option" where
  "last_tx_error (Tx_error e) = Some e"
| "last_tx_error _ = None"

definition last_tx_is_none :: "last_tx \<Rightarrow> bool" where
  "last_tx_is_none l \<longleftrightarrow> (case l of No_tx \<Rightarrow> True | _ \<Rightarrow> False)"

definition last_tx_is_response :: "last_tx \<Rightarrow> bool" where
  "last_tx_is_response l \<longleftrightarrow> last_tx_response l \<noteq> None"

definition last_tx_is_error :: "last_tx \<Rightarrow> bool" where
  "last_tx_is_error l \<longleftrightarrow> last_tx_error l \<noteq> None"

section \<open>Messages to sign\<close>

record amino_msg =
  am_type_name :: string
  am_value :: string

record tx_signing_request =
  tq_chain_id :: string
  tq_fee :: string
  tq_memo :: string
  tq_msgs :: "string list"

record std_signature =
  ss_pub_key :: bytes
  ss_signature :: bytes

record std_tx =
  tx_msgs :: "amino_msg list"
  tx_fee :: string
  tx_signatures :: "std_signature list"
  tx_memo :: string

text \<open>The transaction builder: parsing a message by the schema, and the text that is signed.\<close>

record tx_builder =
  tb_msg_from_json :: "string \<Rightarrow> amino_msg option"
  tb_create_sign_msg :: "u64 \<Rightarrow> string \<Rightarrow> string \<Rightarrow> amino_msg list \<Rightarrow> string"
  tb_to_amino_bytes :: "std_tx \<Rightarrow> bytes"

record sign_msg =
  sm_fee :: string
  sm_memo :: string
  sm_msgs :: "amino_msg list"
  sm_msg_types :: "string set"
  sm_repr :: string

text \<open>The loop over the JSON values: the messages in order, or the first parse error.\<close>

fun parse_msgs :: "tx_builder \<Rightarrow> string list \<Rightarrow> (error_kind, amino_msg list) outcome" where
  "parse_msgs tb [] = Done []"
| "parse_msgs tb (v # vs) =
     obind (ok_or (error_from Stdtx_error) (tb_msg_from_json tb v)) (\<lambda>msg.
     obind (parse_msgs tb vs) (\<lambda>msgs. Done (msg # msgs)))"

definition sign_msg_new :: "tx_signing_request \<Rightarrow> tx_builder \<Rightarrow> u64 \<Rightarrow> (error_kind, sign_msg) outcome" where
  "sign_msg_new req tb sequence =
     obind (parse_msgs tb (tq_msgs req)) (\<lambda>msgs.
       Done \<lparr>sm_fee = tq_fee req, sm_memo = tq_memo req, sm_msgs = msgs,
             sm_msg_types = set (map am_type_name msgs),
             sm_repr = tb_create_sign_msg tb sequence (tq_fee req) (tq_memo req) msgs\<rparr>)"

definition sign_msg_authorize :: "tx_acl \<Rightarrow> sign_msg \<Rightarrow> (error_kind, unit) outcome" where
  "sign_msg_authorize acl self =
     (if \<forall>t \<in> sm_msg_types self. t \<in> set (acl_msg_type acl) then Done () else Failed AccessError)"

definition sign_msg_to_stdtx :: "std_signature \<Rightarrow> sign_msg \<Rightarrow> std_tx" where
  "sign_msg_to_stdtx sig self =
     \<lparr>tx_msgs = sm_msgs self, tx_fee = sm_fee self, tx_signatures = [sig], tx_memo = sm_memo self\<rparr>"

definition sign_msg_sign_bytes :: "sign_msg \<Rightarrow> bytes" where
  "sign_msg_sign_bytes self = str_bytes (sm_repr self)"

section \<open>The source of transactions\<close>

datatype source_status = Status_ok | Status_error

record source_response =
  sp_status :: source_status
  sp_msg :: "string option"
  sp_tx :: "tx_signing_request option"

record source_request =
  sq_network :: chain_id
  sq_context :: string
  sq_height :: u64
  sq_last_tx_response :: "tx_result option"

text \<open>How the HTTP exchange ends.\<close>

datatype http_answer = Http_fails | Body_fails | Body_no_json | Body_json source_response

definition source_request_tx ::
  "(source_request \<Rightarrow> http_answer) \<Rightarrow> source_request \<Rightarrow> (error_kind, tx_signing_request option) outcome" where
  "source_request_tx http params =
     (case http params of
        Http_fails \<Rightarrow> Failed (error_from Hyper_error)
      | Body_fails \<Rightarrow> Failed (error_from Hyper_error)
      | Body_no_json \<Rightarrow> Failed (error_from Serde_json_error)
      | Body_json response_json \<Rightarrow>
          (case sp_status response_json of
             Status_ok \<Rightarrow> Done (sp_tx response_json)
           | Status_error \<Rightarrow> Failed HttpError))"

section \<open>The signer\<close>

record tx_signer =
  ts_chain_id :: chain_id
  ts_address :: bytes
  ts_context :: string
  ts_acl :: tx_acl
  ts_poll_interval :: poll_interval
  ts_seq_file :: sequence_file
  ts_last_tx :: last_tx

record tx_state =
  txs_signer :: tx_signer
  txs_disk :: disk
  txs_log :: "(u64 \<times> std_tx) list"

text \<open>What the signer calls: the crates, the registry, the account of a key, and the node.\<close>

record tx_env =
  te_builder :: tx_builder
  te_json :: sequence_json
  te_registry :: registry
  te_account_id :: "public_key \<Rightarrow> bytes"
  te_key_bytes :: "public_key \<Rightarrow> bytes"
  te_broadcast :: "(u64 \<times> std_tx) list \<Rightarrow> bytes \<Rightarrow> string + tx_result"
  te_write :: "(u64 \<times> std_tx) list \<Rightarrow> write_answer"

text \<open>
  A new signer.  \<open>load_schema\<close> says whether \<^verbatim>\<open>Schema::load_toml\<close> reads the schema, without which the
  process exits, and \<open>http_client\<close> whether \<^verbatim>\<open>HttpClient::new\<close> takes the address of the node.
\<close>

datatype start_failure = Process_exit | Start_error error_kind

definition tx_signer_new ::
  "(path \<Rightarrow> bool) \<Rightarrow> (net_address \<Rightarrow> bool) \<Rightarrow> sequence_json \<Rightarrow> read_answer \<Rightarrow> write_answer \<Rightarrow> tx_signer_config
     \<Rightarrow> disk \<Rightarrow> (disk, start_failure, tx_signer) run" where
  "tx_signer_new load_schema http_client sj rd os config disk =
     rbind (disk, if load_schema (tc_schema config) then Done () else Failed Process_exit) (\<lambda>disk _.
     rbind (disk, if http_client (tc_rpc_addr config) then Done ()
                  else Failed (Start_error (error_from Tendermint_rpc_error))) (\<lambda>disk _.
     case sequence_open sj rd os (tc_seq_file config) disk of
       (disk', r) \<Rightarrow> rbind (disk', map_err Start_error r) (\<lambda>disk' seq_file.
       (disk', Done \<lparr>ts_chain_id = tc_chain_id config, ts_address = tc_account_address config,
                     ts_context = tc_context config, ts_acl = tc_acl config,
                     ts_poll_interval = tc_poll_interval config, ts_seq_file = seq_file,
                     ts_last_tx = No_tx\<rparr>))))"

definition missing_tx_chain :: panic_payload where
  "missing_tx_chain = Payload_String ''chain missing from registry!''"

definition missing_account_key :: panic_payload where
  "missing_account_key = Payload_str ''missing account key''"

definition sign_tx :: "tx_env \<Rightarrow> sign_msg \<Rightarrow> tx_signer \<Rightarrow> (error_kind, std_tx) outcome" where
  "sign_tx env sign_msg self =
     obind (sign_msg_authorize (ts_acl self) sign_msg) (\<lambda>_.
     obind (unwrap_or_panic missing_tx_chain (get_chain (te_registry env) (ts_chain_id self))) (\<lambda>chain.
     obind (sign_ecdsa (te_account_id env) (ts_address self) (sign_msg_sign_bytes sign_msg)
              (ch_keyring chain)) (\<lambda>signature.
     obind (unwrap_or_panic missing_account_key
              (get_account_pubkey (te_account_id env) (ts_address self) (ch_keyring chain))) (\<lambda>pub_key.
       Done (sign_msg_to_stdtx \<lparr>ss_pub_key = te_key_bytes env pub_key, ss_signature = signature\<rparr> sign_msg)))))"

definition overflow_panic :: panic_payload where
  "overflow_panic = Payload_str ''called `Option::unwrap()` on a `None` value''"

definition broadcast_tx ::
  "tx_env \<Rightarrow> sign_msg \<Rightarrow> u64 \<Rightarrow> tx_state \<Rightarrow> (tx_state, error_kind, unit) run" where
  "broadcast_tx env sign_msg sequence st =
     rbind (st, sign_tx env sign_msg (txs_signer st)) (\<lambda>st tx.
       (let log = txs_log st @ [(sequence, tx)];
            amino_tx = tb_to_amino_bytes (te_builder env) tx;
            sent = (\<lambda>l. st\<lparr>txs_log := log, txs_signer := (txs_signer st)\<lparr>ts_last_tx := l\<rparr>\<rparr>)
        in case te_broadcast env (txs_log st) amino_tx of
             Inl e \<Rightarrow> (sent (Tx_error e), Failed (error_from Tendermint_rpc_error))
           | Inr resp \<Rightarrow>
               (let st' = sent (Tx_response resp)
                in if tr_check_tx_code resp \<noteq> 0 then (st', Failed TendermintError)
                   else rbind (st', unwrap_or_panic overflow_panic (checked_add sequence 1)) (\<lambda>st' next.
                     case sequence_persist (te_json env) (te_write env log) next
                            (ts_seq_file (txs_signer st')) (txs_disk st') of
                       ((sf, d), r) \<Rightarrow>
                         rbind (st'\<lparr>txs_signer := (txs_signer st')\<lparr>ts_seq_file := sf\<rparr>, txs_disk := d\<rparr>, r)
                           (\<lambda>st'' _. if tr_deliver_tx_code resp \<noteq> 0 then (st'', Failed TendermintError)
                                     else (st'', Done ()))))))"

text \<open>
  One request: at most three attempts, the second and third only when the last broadcast
  before them had no response, each one sequence number higher.
\<close>

definition retry_tx ::
  "tx_env \<Rightarrow> tx_signing_request \<Rightarrow> u64 \<Rightarrow> tx_state \<Rightarrow> (tx_state, error_kind, unit) run" where
  "retry_tx env tx_req seq st =
     rbind (st, unwrap_or_panic overflow_panic (checked_add seq 1)) (\<lambda>st seq.
     rbind (st, sign_msg_new tx_req (te_builder env) seq) (\<lambda>st sign_msg.
       case broadcast_tx env sign_msg seq st of
         (st, Failed e) \<Rightarrow>
           rbind (st, unwrap_or_panic overflow_panic (checked_add seq 1)) (\<lambda>st seq.
           rbind (st, sign_msg_new tx_req (te_builder env) seq) (\<lambda>st sign_msg.
             broadcast_tx env sign_msg seq st))
       | r \<Rightarrow> r))"

definition request_and_sign_tx ::
  "tx_env \<Rightarrow> (source_request \<Rightarrow> http_answer) \<Rightarrow> u64 \<Rightarrow> tx_state \<Rightarrow> (tx_state, error_kind, unit) run" where
  "request_and_sign_tx env http height st =
     (let self = txs_signer st;
          params = \<lparr>sq_network = ts_chain_id self, sq_context = ts_context self, sq_height = height,
                    sq_last_tx_response = last_tx_response (ts_last_tx self)\<rparr>
      in rbind (st, source_request_tx http params) (\<lambda>st tx_req.
         case tx_req of
           None \<Rightarrow> (st, Done ())
         | Some tx_req \<Rightarrow>
             if ts_chain_id self \<noteq> tq_chain_id tx_req then (st, Failed ChainIdError)
             else
               (let seq = sq_sequence (ts_seq_file self)
                in rbind (st, sign_msg_new tx_req (te_builder env) seq) (\<lambda>st sign_msg.
                   let retry_on_failure = \<not> last_tx_is_response (ts_last_tx self)
                   in case broadcast_tx env sign_msg seq st of
                        (st, Failed e) \<Rightarrow>
                          if retry_on_failure then retry_tx env tx_req seq st else (st, Done ())
                      | r \<Rightarrow> r))))"

section \<open>Waiting for blocks\<close>

definition rem_zero_panic :: panic_payload where
  "rem_zero_panic = Payload_str ''attempt to calculate the remainder with a divisor of zero''"

definition next_block_after :: "u64 \<Rightarrow> tx_signer \<Rightarrow> (error_kind, u64) outcome" where
  "next_block_after block_height self =
     (let block_interval = poll_blocks (ts_poll_interval self)
      in if block_interval = 0 then Panicked rem_zero_panic
         else obind (unwrap_or_panic overflow_panic (checked_sub block_height (block_height mod block_interval)))
                (\<lambda>base. unwrap_or_panic overflow_panic (checked_add base block_interval)))"

text \<open>
  Polling the status: each answer is the current height, or an error.  \<open>None\<close> when the answers
  are used up before the wait is over.
\<close>

fun wait_until_block_height ::
  "tx_signer \<Rightarrow> u64 \<Rightarrow> u64 option list \<Rightarrow> (error_kind, u64) outcome option" where
  "wait_until_block_height self target_height [] = None"
| "wait_until_block_height self target_height (None # polls) = Some (Failed (error_from Tendermint_rpc_error))"
| "wait_until_block_height self target_height (Some current_height # polls) =
     (if current_height \<ge> target_height then Some (Done current_height)
      else case checked_sub target_height current_height of
             None \<Rightarrow> Some (Panicked overflow_panic)
           | Some delta \<Rightarrow>
               if delta > poll_blocks (ts_poll_interval self) then Some (Done current_height)
               else wait_until_block_height self target_height polls)"

text \<open>
  One turn of the main loop: wait, compute the next block, ask for a transaction; an error of
  the request is only logged.  The target of the next turn is returned.
\<close>

definition tx_turn ::
  "tx_env \<Rightarrow> (source_request \<Rightarrow> http_answer) \<Rightarrow> u64 option list \<Rightarrow> u64 \<Rightarrow> tx_state
     \<Rightarrow> tx_state \<times> (error_kind, u64) outcome option" where
  "tx_turn env http polls next_block st =
     (case wait_until_block_height (txs_signer st) next_block polls of
        None \<Rightarrow> (st, None)
      | Some (Failed e) \<Rightarrow> (st, Some (Done next_block))
      | Some (Panicked p) \<Rightarrow> (st, Some (Panicked p))
      | Some (Done height) \<Rightarrow>
          (case next_block_after height (txs_signer st) of
             Done next \<Rightarrow>
               (case request_and_sign_tx env http height st of
                  (st', Panicked p) \<Rightarrow> (st', Some (Panicked p))
                | (st', _) \<Rightarrow> (st', Some (Done next)))
           | Failed e \<Rightarrow> (st, Some (Failed e))
           | Panicked p \<Rightarrow> (st, Some (Panicked p))))"

text \<open>
  The whole run: first the status until it answers, then turn after turn.  Each turn comes with
  what the source and the node answer; \<open>None\<close> is a signer still running when they are used up.
\<close>

fun tx_first_block :: "tx_signer \<Rightarrow> u64 option list \<Rightarrow> (error_kind, u64) outcome option" where
  "tx_first_block self [] = None"
| "tx_first_block self (Some height # polls) = Some (next_block_after height self)"
| "tx_first_block self (None # polls) = tx_first_block self polls"

fun tx_loop ::
  "tx_env \<Rightarrow> ((source_request \<Rightarrow> http_answer) \<times> u64 option list) list \<Rightarrow> u64 \<Rightarrow> tx_state
     \<Rightarrow> tx_state \<times> (error_kind, u64) outcome option" where
  "tx_loop env [] next_block st = (st, None)"
| "tx_loop env ((http, polls) # turns) next_block st =
     (case tx_turn env http polls next_block st of
        (st', Some (Done next)) \<Rightarrow> tx_loop env turns next st'
      | r \<Rightarrow> r)"

definition tx_run ::
  "tx_env \<Rightarrow> u64 option list \<Rightarrow> ((source_request \<Rightarrow> http_answer) \<times> u64 option list) list \<Rightarrow> tx_state
     \<Rightarrow> tx_state \<times> (error_kind, u64) outcome option" where
  "tx_run env polls turns st =
     (case tx_first_block (txs_signer st) polls of
        Some (Done next_block) \<Rightarrow> tx_loop env turns next_block st
      | r \<Rightarrow> (st, r))"

section \<open>Facts about the sequence file\<close>

lemma sequence_roundtripD:
  "sequence_roundtrip sj \<Longrightarrow> sequence_to_json sj n = Some j \<Longrightarrow> sequence_from_json sj j = Some n"
  by (simp add: sequence_roundtrip_def)

definition stored_sequence :: "sequence_json \<Rightarrow> path \<Rightarrow> disk \<Rightarrow> u64 option" where
  "stored_sequence sj p d = Option.bind (d p) (sequence_from_json sj)"

lemma sequence_sync_DoneD:
  "sequence_sync_to_disk sj os s d = (d', Done ()) \<Longrightarrow>
     \<exists>j. sequence_to_json sj (sq_sequence s) = Some j \<and> d' = d(sq_path s \<mapsto> j)"
  by (auto simp: sequence_sync_to_disk_def split: option.splits write_answer.splits)

lemma sequence_sync_not_DoneD: "sequence_sync_to_disk sj os s d = (d', r) \<Longrightarrow> r \<noteq> Done () \<Longrightarrow> d' = d"
  by (auto simp: sequence_sync_to_disk_def split: option.splits write_answer.splits)

interpretation sequence: atomic_file "sequence_roundtrip sj"
  "\<lambda>os n. sequence_sync_to_disk sj os \<lparr>sq_path = p, sq_sequence = n\<rparr>"
  "stored_sequence sj p" for sj p
  by unfold_locales
    (auto dest!: sequence_sync_DoneD sequence_sync_not_DoneD sequence_roundtripD simp: stored_sequence_def)

section \<open>What a broadcast does\<close>

definition same_policy :: "tx_signer \<Rightarrow> tx_signer \<Rightarrow> bool" where
  "same_policy a b \<longleftrightarrow> ts_chain_id a = ts_chain_id b \<and> ts_address a = ts_address b \<and> ts_acl a = ts_acl b"

lemma same_policy_refl [simp]: "same_policy a a"
  by (simp add: same_policy_def)

lemma same_policy_trans: "same_policy a b \<Longrightarrow> same_policy b c \<Longrightarrow> same_policy a c"
  by (simp add: same_policy_def)

lemma sign_tx_policy: "same_policy a b \<Longrightarrow> sign_tx env m a = sign_tx env m b"
  by (simp add: same_policy_def sign_tx_def)

lemma sign_tx_DoneD:
  assumes "sign_tx env m self = Done tx"
  shows "tx_msgs tx = sm_msgs m" "tx_fee tx = sm_fee m" "tx_memo tx = sm_memo m"
    "sm_msg_types m \<subseteq> set (acl_msg_type (ts_acl self))"
    "\<exists>chain sig pk. te_registry env (ts_chain_id self) = Some chain \<and>
       sign_ecdsa (te_account_id env) (ts_address self) (sign_msg_sign_bytes m) (ch_keyring chain) = Done sig \<and>
       get_account_pubkey (te_account_id env) (ts_address self) (ch_keyring chain) = Some pk \<and>
       tx_signatures tx = [\<lparr>ss_pub_key = te_key_bytes env pk, ss_signature = sig\<rparr>]"
  using assms unfolding sign_tx_def
  by (auto simp: obind_Done_iff sign_msg_authorize_def sign_msg_to_stdtx_def get_chain_def split: if_splits)

lemma sign_msg_new_DoneD:
  assumes "sign_msg_new req tb n = Done m"
  shows "parse_msgs tb (tq_msgs req) = Done (sm_msgs m)" "sm_fee m = tq_fee req" "sm_memo m = tq_memo req"
    "sm_msg_types m = set (map am_type_name (sm_msgs m))"
    "sm_repr m = tb_create_sign_msg tb n (tq_fee req) (tq_memo req) (sm_msgs m)"
  using assms by (auto simp: sign_msg_new_def obind_Done_iff)

text \<open>What one attempt adds to the log: nothing, or one signed transaction.\<close>

definition signed_tx_entry :: "tx_env \<Rightarrow> tx_signing_request \<Rightarrow> tx_signer \<Rightarrow> u64 \<times> std_tx \<Rightarrow> bool" where
  "signed_tx_entry env req self e \<longleftrightarrow>
     (\<exists>m. sign_msg_new req (te_builder env) (fst e) = Done m \<and> sign_tx env m self = Done (snd e))"

lemma signed_entry_messages:
  assumes "signed_tx_entry env req self (n, tx)"
  shows "parse_msgs (te_builder env) (tq_msgs req) = Done (tx_msgs tx)" "tx_fee tx = tq_fee req" "tx_memo tx = tq_memo req"
  using assms sign_msg_new_DoneD sign_tx_DoneD(1-3) by (auto simp: signed_tx_entry_def)

lemma signed_entry_signature:
  assumes "signed_tx_entry env req self (n, tx)" and "te_registry env (ts_chain_id self) = Some chain"
    and "get_account_pubkey (te_account_id env) (ts_address self) (ch_keyring chain) = Some pk"
  shows "m \<in> set (tx_msgs tx) \<Longrightarrow> am_type_name m \<in> set (acl_msg_type (ts_acl self))"
    and "\<exists>sig. tx_signatures tx = [\<lparr>ss_pub_key = te_key_bytes env pk, ss_signature = sig\<rparr>] \<and>
       sign_ecdsa (te_account_id env) (ts_address self)
         (str_bytes (tb_create_sign_msg (te_builder env) n (tq_fee req) (tq_memo req) (tx_msgs tx)))
         (ch_keyring chain) = Done sig"
proof -
  obtain sm where "sign_msg_new req (te_builder env) n = Done sm" and "sign_tx env sm self = Done tx"
    using assms(1) by (auto simp: signed_tx_entry_def)
  note parts = sign_msg_new_DoneD [OF this(1)] sign_tx_DoneD [OF this(2)]
  show "m \<in> set (tx_msgs tx) \<Longrightarrow> am_type_name m \<in> set (acl_msg_type (ts_acl self))"
    using parts by auto
  show "\<exists>sig. tx_signatures tx = [\<lparr>ss_pub_key = te_key_bytes env pk, ss_signature = sig\<rparr>] \<and>
       sign_ecdsa (te_account_id env) (ts_address self)
         (str_bytes (tb_create_sign_msg (te_builder env) n (tq_fee req) (tq_memo req) (tx_msgs tx)))
         (ch_keyring chain) = Done sig"
    using parts assms(2,3) by (auto simp: sign_msg_sign_bytes_def)
qed

lemma broadcast_tx_effect:
  assumes "broadcast_tx env m n st = (st', r)"
  shows "same_policy (txs_signer st) (txs_signer st')"
    and "\<exists>es. txs_log st' = txs_log st @ es \<and>
      (es = [] \<or> (\<exists>tx. es = [(n, tx)] \<and> sign_tx env m (txs_signer st) = Done tx))"
proof -
  have "same_policy (txs_signer st) (txs_signer st') \<and> (\<exists>es. txs_log st' = txs_log st @ es \<and>
      (es = [] \<or> (\<exists>tx. es = [(n, tx)] \<and> sign_tx env m (txs_signer st) = Done tx)))"
  proof (cases "sign_tx env m (txs_signer st)")
    case (Done tx)
    then show ?thesis
      using assms
      by (auto simp: broadcast_tx_def Let_def rbind_split same_policy_def case_prod_unfold
          split: sum.splits if_splits outcome.splits)
  qed (use assms in \<open>auto simp: broadcast_tx_def\<close>)
  then show "same_policy (txs_signer st) (txs_signer st')"
    and "\<exists>es. txs_log st' = txs_log st @ es \<and>
      (es = [] \<or> (\<exists>tx. es = [(n, tx)] \<and> sign_tx env m (txs_signer st) = Done tx))"
    by blast+
qed

text \<open>An attempt at one sequence number: build the message, then broadcast it.\<close>

definition attempt :: "tx_env \<Rightarrow> tx_signing_request \<Rightarrow> u64 \<Rightarrow> tx_state \<Rightarrow> (tx_state, error_kind, unit) run" where
  "attempt env req seq st =
     rbind (st, sign_msg_new req (te_builder env) seq) (\<lambda>st m. broadcast_tx env m seq st)"

lemma attempt_effect:
  assumes "attempt env req n st = (st', r)" and "same_policy self (txs_signer st)"
  shows "same_policy self (txs_signer st')"
    and "\<exists>es. txs_log st' = txs_log st @ es \<and> subseq (map fst es) [n] \<and> (\<forall>e \<in> set es. signed_tx_entry env req self e)"
proof -
  show "same_policy self (txs_signer st')"
  proof (cases "sign_msg_new req (te_builder env) n")
    case (Done m)
    then have "broadcast_tx env m n st = (st', r)" using assms(1) by (simp add: attempt_def)
    then show ?thesis by (rule same_policy_trans [OF assms(2) broadcast_tx_effect(1)])
  qed (use assms in \<open>auto simp: attempt_def\<close>)
  show "\<exists>es. txs_log st' = txs_log st @ es \<and> subseq (map fst es) [n] \<and> (\<forall>e \<in> set es. signed_tx_entry env req self e)"
  proof (cases "sign_msg_new req (te_builder env) n")
    case (Done m)
    then have "broadcast_tx env m n st = (st', r)" using assms(1) by (simp add: attempt_def)
    from broadcast_tx_effect(2) [OF this] obtain es where "txs_log st' = txs_log st @ es"
      "es = [] \<or> (\<exists>tx. es = [(n, tx)] \<and> sign_tx env m (txs_signer st) = Done tx)"
      by blast
    then show ?thesis
      using Done sign_tx_policy [OF assms(2)] by (auto simp: signed_tx_entry_def)
  qed (use assms in \<open>auto simp: attempt_def\<close>)
qed

text \<open>Attempts in a row, as far as they go: the log grows by signed entries, in order.\<close>

definition grows :: "tx_env \<Rightarrow> tx_signing_request \<Rightarrow> tx_signer \<Rightarrow> u64 list \<Rightarrow> tx_state \<Rightarrow> tx_state \<Rightarrow> bool" where
  "grows env req self ns st st' \<longleftrightarrow>
     same_policy self (txs_signer st') \<and>
     (\<exists>es. txs_log st' = txs_log st @ es \<and> subseq (map fst es) ns \<and> (\<forall>e \<in> set es. signed_tx_entry env req self e))"

lemma grows_refl: "same_policy self (txs_signer st) \<Longrightarrow> grows env req self ns st st"
  by (auto simp: grows_def)

lemma grows_append:
  assumes "grows env req self ns st st'" and "grows env req self ms st' st''"
  shows "grows env req self (ns @ ms) st st''"
proof -
  obtain es fs where es: "txs_log st' = txs_log st @ es" "subseq (map fst es) ns" "\<forall>e \<in> set es. signed_tx_entry env req self e"
    and fs: "txs_log st'' = txs_log st' @ fs" "subseq (map fst fs) ms" "\<forall>e \<in> set fs. signed_tx_entry env req self e"
    using assms by (auto simp: grows_def)
  have "subseq (map fst (es @ fs)) (ns @ ms)" using es(2) fs(2) by (simp add: list_emb_append_mono)
  then show ?thesis
    using assms(2) es fs unfolding grows_def by (auto intro!: exI [of _ "es @ fs"])
qed

lemma grows_mono: "grows env req self ns st st' \<Longrightarrow> subseq ns ms \<Longrightarrow> grows env req self ms st st'"
  unfolding grows_def by (meson subseq_order.trans)

lemma grows_policy: "grows env req self ns st st' \<Longrightarrow> same_policy self (txs_signer st')"
  by (simp add: grows_def)

lemma attempt_grows:
  "attempt env req n st = (st', r) \<Longrightarrow> same_policy self (txs_signer st) \<Longrightarrow> grows env req self [n] st st'"
  using attempt_effect unfolding grows_def by blast

lemma retry_grows:
  assumes "rbind (st, unwrap_or_panic overflow_panic (checked_add n 1))
      (\<lambda>st n. rbind (st, sign_msg_new req (te_builder env) n) (\<lambda>st m. broadcast_tx env m n st)) = (st', r)"
    and "same_policy self (txs_signer st)"
  shows "grows env req self [n + 1] st st'"
proof (cases "checked_add n 1")
  case None
  then show ?thesis using assms by (simp add: grows_refl)
next
  case (Some k)
  then have "k = n + 1" by (auto dest: checked_add_SomeD)
  then show ?thesis
    using assms Some attempt_grows [of env req "n + 1" st st' r self] by (simp add: attempt_def)
qed

lemma retry_tx_grows:
  assumes "retry_tx env req n st = (st', r)"
    and pol: "same_policy self (txs_signer st)"
  shows "grows env req self [n + 1, n + 2] st st'"
proof (cases "checked_add n 1")
  case None
  then show ?thesis using assms by (simp add: grows_refl retry_tx_def)
next
  case (Some k)
  then have k: "k = n + 1" by (auto dest: checked_add_SomeD)
  show ?thesis
  proof (cases "sign_msg_new req (te_builder env) k")
    case (Done m)
    obtain st1 r1 where b: "broadcast_tx env m k st = (st1, r1)" by (metis surj_pair)
    then have one: "grows env req self [n + 1] st st1"
      using attempt_grows [OF _ pol, of env req k st1 r1] Done k by (simp add: attempt_def)
    show ?thesis
    proof (cases "\<exists>e. r1 = Failed e")
      case True
      then have "grows env req self [k + 1] st1 st'"
        using assms(1) Some Done b grows_policy [OF one] by (intro retry_grows) (auto simp: retry_tx_def)
      moreover have "k + 1 = n + 2" by (simp add: k)
      ultimately show ?thesis using grows_append [OF one, of "[n + 2]" st'] by simp
    next
      case False
      then have "st1 = st'" using assms(1) Some Done b by (cases r1) (auto simp: retry_tx_def)
      then show ?thesis using one by (auto intro: grows_mono)
    qed
  qed (use assms Some in \<open>simp_all add: grows_refl retry_tx_def\<close>)
qed

lemma request_grows:
  assumes "request_and_sign_tx env http h st = (st', r)" and "st' \<noteq> st"
  shows "\<exists>params req. source_request_tx http params = Done (Some req) \<and>
    tq_chain_id req = ts_chain_id (txs_signer st) \<and>
    grows env req (txs_signer st) [sq_sequence (ts_seq_file (txs_signer st)),
      sq_sequence (ts_seq_file (txs_signer st)) + 1, sq_sequence (ts_seq_file (txs_signer st)) + 2] st st'"
proof -
  define self where "self = txs_signer st"
  define n where "n = sq_sequence (ts_seq_file self)"
  define params where "params = \<lparr>sq_network = ts_chain_id self, sq_context = ts_context self, sq_height = h,
    sq_last_tx_response = last_tx_response (ts_last_tx self)\<rparr>"
  note run = assms(1) [unfolded request_and_sign_tx_def Let_def, folded self_def, folded n_def params_def]
  obtain req where req: "source_request_tx http params = Done (Some req)" "tq_chain_id req = ts_chain_id self"
    using run assms(2) by (auto simp: rbind_split split: outcome.splits option.splits if_splits)
  obtain m where m: "sign_msg_new req (te_builder env) n = Done m"
    using run assms(2) req by (cases "sign_msg_new req (te_builder env) n") auto
  obtain st1 r1 where b: "broadcast_tx env m n st = (st1, r1)" by (metis surj_pair)
  have one: "grows env req self [n] st st1"
    using attempt_grows [of env req n st st1 r1 self] m b by (simp add: attempt_def self_def)
  have "grows env req self [n, n + 1, n + 2] st st'"
  proof (cases "(\<exists>e. r1 = Failed e) \<and> \<not> last_tx_is_response (ts_last_tx self)")
    case True
    then have "grows env req self [n + 1, n + 2] st1 st'"
      using run req m b grows_policy [OF one] by (intro retry_tx_grows) auto
    from grows_append [OF one this] show ?thesis by simp
  next
    case False
    then have "st1 = st'" using run req m b by (cases r1) auto
    then show ?thesis using one by (auto intro: grows_mono)
  qed
  then show ?thesis using req unfolding n_def self_def by blast
qed

text \<open>When every broadcast is accepted and every write of the sequence file fails.\<close>

lemma failed_persist_attempt:
  assumes sign: "\<And>k. \<exists>tx. signed_tx_entry env req self (k, tx)"
    and node: "\<And>log b. \<exists>resp. te_broadcast env log b = Inr resp \<and> tr_check_tx_code resp = 0"
    and write_fails: "\<And>log. te_write env log \<noteq> Write_ok"
    and pol: "same_policy self (txs_signer st)" and path: "path_parent (sq_path (ts_seq_file (txs_signer st))) \<noteq> None"
    and small: "unat n + 1 < 2 ^ 64"
  shows "\<exists>st' tx e. attempt env req n st = (st', Failed e) \<and> same_policy self (txs_signer st') \<and>
    sq_path (ts_seq_file (txs_signer st')) = sq_path (ts_seq_file (txs_signer st)) \<and>
    txs_log st' = txs_log st @ [(n, tx)] \<and> signed_tx_entry env req self (n, tx)"
proof -
  obtain tx m where entry: "signed_tx_entry env req self (n, tx)"
    and m: "sign_msg_new req (te_builder env) n = Done m" "sign_tx env m (txs_signer st) = Done tx"
    using sign [of n] sign_tx_policy [OF pol] by (auto simp: signed_tx_entry_def)
  obtain resp where resp: "te_broadcast env (txs_log st) (tb_to_amino_bytes (te_builder env) tx) = Inr resp" "tr_check_tx_code resp = 0"
    using node by blast
  obtain e where "map_err error_from (snd (sequence_sync_to_disk (te_json env) (te_write env (txs_log st @ [(n, tx)]))
      ((ts_seq_file (txs_signer st))\<lparr>sq_sequence := n + 1\<rparr>) (txs_disk st))) = Failed e"
    using path write_fails [of "txs_log st @ [(n, tx)]"]
    by (cases "te_write env (txs_log st @ [(n, tx)])"; cases "sequence_to_json (te_json env) (n + 1)")
      (auto simp: sequence_sync_to_disk_def)
  moreover have "checked_add n 1 = Some (n + 1)" using small by (simp add: checked_add_def)
  ultimately show ?thesis
    using entry m resp pol
    by (auto simp: attempt_def broadcast_tx_def Let_def sequence_persist_def case_prod_unfold same_policy_def)
qed

lemma next_sequences:
  assumes "unat (n :: u64) + 3 < 2 ^ 64"
  shows "unat (n + 1) = unat n + 1" and "unat (n + 2) = unat n + 2"
  using assms unat_add_lem [of n 1] unat_add_lem [of n 2] by simp_all

text \<open>The attempts of a request that fail one after the other.\<close>

lemma retry_tx_attempts:
  assumes "attempt env req (n + 1) st = (st', Failed e)" and "attempt env req (n + 2) st' = (st'', Failed e')"
    and "unat n + 3 < 2 ^ 64" and "sign_msg_new req (te_builder env) (n + 1) = Done m"
  shows "retry_tx env req n st = (st'', Failed e')"
proof -
  have add: "checked_add n 1 = Some (n + 1)" "checked_add (n + 1) 1 = Some (n + 2)"
    using assms(3) by (simp_all add: checked_add_def next_sequences)
  show ?thesis
    using assms(1,2,4) add
    by (cases "sign_msg_new req (te_builder env) (n + 2)") (auto simp: retry_tx_def attempt_def)
qed

lemma request_attempts:
  assumes "source_request_tx http \<lparr>sq_network = ts_chain_id (txs_signer st), sq_context = ts_context (txs_signer st),
      sq_height = h, sq_last_tx_response = last_tx_response (ts_last_tx (txs_signer st))\<rparr> = Done (Some req)"
    and "tq_chain_id req = ts_chain_id (txs_signer st)"
    and "\<not> last_tx_is_response (ts_last_tx (txs_signer st))"
    and "attempt env req (sq_sequence (ts_seq_file (txs_signer st))) st = (st', Failed e)"
    and "sign_msg_new req (te_builder env) (sq_sequence (ts_seq_file (txs_signer st))) = Done m"
    and "retry_tx env req (sq_sequence (ts_seq_file (txs_signer st))) st' = r"
  shows "request_and_sign_tx env http h st = r"
  using assms by (simp add: request_and_sign_tx_def attempt_def Let_def)

section \<open>Properties\<close>

text \<open>
  C29: one poll of the source broadcasts at most three transactions, for increasing sequence
  numbers among the current one and the two after it; all of them are for one request that the
  source gave for the signer's own chain, and carry exactly its messages, fee and memo; every message type is
  on the access control list; and the only signature of the transaction for a sequence number is
  made with the signer's account key over the sign message for that sequence number.
\<close>

theorem broadcasts_follow_policy:
  assumes "request_and_sign_tx env http h st = (st', r)"
  defines "self \<equiv> txs_signer st"
  shows "\<exists>es. txs_log st' = txs_log st @ es \<and>
    subseq (map fst es) [sq_sequence (ts_seq_file self), sq_sequence (ts_seq_file self) + 1,
      sq_sequence (ts_seq_file self) + 2] \<and>
    (es = [] \<or> (\<exists>params req chain pk.
       source_request_tx http params = Done (Some req) \<and> tq_chain_id req = ts_chain_id self \<and>
       te_registry env (ts_chain_id self) = Some chain \<and>
       get_account_pubkey (te_account_id env) (ts_address self) (ch_keyring chain) = Some pk \<and>
       (\<forall>(n, tx) \<in> set es.
          parse_msgs (te_builder env) (tq_msgs req) = Done (tx_msgs tx) \<and>
          tx_fee tx = tq_fee req \<and> tx_memo tx = tq_memo req \<and>
          (\<forall>m \<in> set (tx_msgs tx). am_type_name m \<in> set (acl_msg_type (ts_acl self))) \<and>
          (\<exists>sig. tx_signatures tx = [\<lparr>ss_pub_key = te_key_bytes env pk, ss_signature = sig\<rparr>] \<and>
             sign_ecdsa (te_account_id env) (ts_address self)
               (str_bytes (tb_create_sign_msg (te_builder env) n (tq_fee req) (tq_memo req) (tx_msgs tx)))
               (ch_keyring chain) = Done sig))))"
proof (cases "st' = st")
  case True
  then show ?thesis by (intro exI [of _ "[]"]) simp
next
  case False
  obtain params req es where src: "source_request_tx http params = Done (Some req)" "tq_chain_id req = ts_chain_id self"
    and es: "txs_log st' = txs_log st @ es" "subseq (map fst es) [sq_sequence (ts_seq_file self),
      sq_sequence (ts_seq_file self) + 1, sq_sequence (ts_seq_file self) + 2]"
      "\<forall>e \<in> set es. signed_tx_entry env req self e"
    using request_grows [OF assms(1) False] unfolding grows_def self_def by blast
  show ?thesis
  proof (cases es)
    case Nil
    then show ?thesis using es(1) by (intro exI [of _ "[]"]) simp
  next
    case (Cons e rest)
    then obtain chain pk where acc: "te_registry env (ts_chain_id self) = Some chain"
      "get_account_pubkey (te_account_id env) (ts_address self) (ch_keyring chain) = Some pk"
      using es(3) sign_tx_DoneD(5) by (auto simp: signed_tx_entry_def) blast
    show ?thesis
      using src es(1,2) acc signed_entry_messages signed_entry_signature [OF _ acc] es(3)
      by (intro exI [of _ es] conjI disjI2 exI [of _ params] exI [of _ req] exI [of _ chain] exI [of _ pk]) auto
  qed
qed

text \<open>A transaction whose message types are all on the access control list of a signer.\<close>

definition authorised :: "tx_signer \<Rightarrow> u64 \<times> std_tx \<Rightarrow> bool" where
  "authorised self e \<longleftrightarrow> (\<forall>m \<in> set (tx_msgs (snd e)). am_type_name m \<in> set (acl_msg_type (ts_acl self)))"

lemma signed_tx_entry_authorised:
  assumes "signed_tx_entry env req self e" and "same_policy self s"
  shows "authorised s e"
proof -
  obtain m where "sign_msg_new req (te_builder env) (fst e) = Done m" "sign_tx env m self = Done (snd e)"
    using assms(1) by (auto simp: signed_tx_entry_def)
  then show ?thesis
    using sign_msg_new_DoneD(4) sign_tx_DoneD(1,4) assms(2) by (fastforce simp: authorised_def same_policy_def)
qed

lemma authorised_policy: "same_policy a b \<Longrightarrow> authorised a e = authorised b e"
  by (simp add: authorised_def same_policy_def)

definition all_authorised :: "tx_signer \<Rightarrow> tx_state \<Rightarrow> bool" where
  "all_authorised self st \<longleftrightarrow> same_policy self (txs_signer st) \<and> (\<forall>e \<in> set (txs_log st). authorised self e)"

lemma request_all_authorised:
  assumes "all_authorised self st" and "request_and_sign_tx env http h st = (st', r)"
  shows "all_authorised self st'"
proof (cases "st' = st")
  case False
  then obtain params req es where pol: "same_policy (txs_signer st) (txs_signer st')"
    and es: "txs_log st' = txs_log st @ es" "\<forall>e \<in> set es. signed_tx_entry env req (txs_signer st) e"
    using request_grows [OF assms(2)] unfolding grows_def by blast
  have self: "same_policy self (txs_signer st)" using assms(1) by (simp add: all_authorised_def)
  have "authorised self e" if "e \<in> set es" for e
    using signed_tx_entry_authorised [of env req "txs_signer st" e "txs_signer st"] es(2) that
      authorised_policy [OF self] by simp
  then show ?thesis
    using assms(1) es(1) same_policy_trans [OF self pol] by (auto simp: all_authorised_def)
qed (use assms in simp)

lemma turn_all_authorised:
  assumes "all_authorised self st" and "tx_turn env http polls n st = (st', r)"
  shows "all_authorised self st'"
proof -
  have "st' = st \<or> (\<exists>h q. request_and_sign_tx env http h st = (st', q))"
    using assms(2) by (auto simp: tx_turn_def split: option.splits outcome.splits prod.splits)
  then show ?thesis using assms(1) request_all_authorised by blast
qed

lemma loop_all_authorised:
  "all_authorised self st \<Longrightarrow> tx_loop env turns n st = (st', r) \<Longrightarrow> all_authorised self st'"
proof (induction turns arbitrary: n st)
  case Nil
  then show ?case by simp
next
  case (Cons t turns)
  obtain http polls where t: "t = (http, polls)" by (cases t)
  obtain st1 q where turn: "tx_turn env http polls n st = (st1, q)" by (metis surj_pair)
  have one: "all_authorised self st1" by (rule turn_all_authorised [OF Cons.prems(1) turn])
  show ?case
  proof (cases "\<exists>next. q = Some (Done next)")
    case True
    then show ?thesis using Cons.IH [OF one] Cons.prems(2) turn t by auto
  next
    case False
    then have "st' = st1" using Cons.prems(2) turn t by (auto split: option.splits outcome.splits)
    then show ?thesis using one by simp
  qed
qed

text \<open>
  C30: over the whole life of the transaction signer, whatever the source and the node answer,
  everything it broadcasts consists of messages whose types are on its access control list.
\<close>

theorem tx_run_authorised:
  assumes "tx_run env polls turns st = (st', r)" and "txs_log st = []"
  shows "\<forall>(n, tx) \<in> set (txs_log st'). \<forall>m \<in> set (tx_msgs tx).
    am_type_name m \<in> set (acl_msg_type (ts_acl (txs_signer st)))"
proof -
  have start: "all_authorised (txs_signer st) st" using assms(2) by (simp add: all_authorised_def)
  have "st' = st \<or> (\<exists>n. tx_loop env turns n st = (st', r))"
    using assms(1) by (auto simp: tx_run_def split: option.splits outcome.splits)
  then have "all_authorised (txs_signer st) st'" using start loop_all_authorised by blast
  then show ?thesis by (auto simp: all_authorised_def authorised_def)
qed

text \<open>
  A broadcast that succeeds was answered without error by the node, leaves the next
  sequence number in memory and in the sequence file, and added exactly one transaction, signed
  for the given sequence number with the key of the signer's own account.
\<close>

theorem broadcast_advances_sequence:
  assumes "sequence_roundtrip (te_json env)" and "broadcast_tx env m n st = (st', Done ())"
  shows "unat (sq_sequence (ts_seq_file (txs_signer st'))) = unat n + 1 \<and>
    stored_sequence (te_json env) (sq_path (ts_seq_file (txs_signer st))) (txs_disk st') =
      Some (sq_sequence (ts_seq_file (txs_signer st'))) \<and>
    (\<exists>tx resp pk sig chain s. txs_log st' = txs_log st @ [(n, tx)] \<and>
       ts_last_tx (txs_signer st') = Tx_response resp \<and> tr_check_tx_code resp = 0 \<and> tr_deliver_tx_code resp = 0 \<and>
       tx_signatures tx = [\<lparr>ss_pub_key = te_key_bytes env pk, ss_signature = sig\<rparr>] \<and>
       te_account_id env pk = ts_address (txs_signer st) \<and>
       te_registry env (ts_chain_id (txs_signer st)) = Some chain \<and>
       (AccountKey pk, s) \<in> set (kr_ecdsa_keys (ch_keyring chain)) \<and>
       ecdsa_signer_sign s (sign_msg_sign_bytes m) = Done sig)"
proof -
  define self where "self = txs_signer st"
  obtain tx where tx: "sign_tx env m self = Done tx"
    using assms(2) by (auto simp: broadcast_tx_def self_def dest!: rbind_DoneD)
  obtain resp where resp: "te_broadcast env (txs_log st) (tb_to_amino_bytes (te_builder env) tx) = Inr resp"
    "tr_check_tx_code resp = 0"
    using assms(2) tx by (auto simp: broadcast_tx_def self_def Let_def split: sum.splits if_splits)
  define st1 where "st1 = st\<lparr>txs_log := txs_log st @ [(n, tx)],
    txs_signer := self\<lparr>ts_last_tx := Tx_response resp\<rparr>\<rparr>"
  obtain k where k: "checked_add n 1 = Some k"
    using assms(2) tx resp by (cases "checked_add n 1") (auto simp: broadcast_tx_def self_def Let_def)
  obtain d v where sync: "sequence_sync_to_disk (te_json env) (te_write env (txs_log st @ [(n, tx)]))
      \<lparr>sq_path = sq_path (ts_seq_file self), sq_sequence = k\<rparr> (txs_disk st) = (d, v)"
    by (metis surj_pair)
  have sf: "(ts_seq_file self)\<lparr>sq_sequence := k\<rparr> = \<lparr>sq_path = sq_path (ts_seq_file self), sq_sequence = k\<rparr>"
    by (cases "ts_seq_file self") simp
  have v: "v = Done ()" and deliver: "tr_deliver_tx_code resp = 0"
    and st': "st' = st1\<lparr>txs_signer := (txs_signer st1)\<lparr>ts_seq_file := (ts_seq_file self)\<lparr>sq_sequence := k\<rparr>\<rparr>, txs_disk := d\<rparr>"
    using assms(2) tx resp k sync
    by (cases v; auto simp: broadcast_tx_def self_def [symmetric] Let_def sequence_persist_def sf st1_def split: if_splits)+
  have "stored_sequence (te_json env) (sq_path (ts_seq_file self)) d = Some k"
    by (rule sequence.put_done [OF assms(1) sync [unfolded v]])
  moreover obtain chain sig pk where chain: "te_registry env (ts_chain_id self) = Some chain"
    and sig: "sign_ecdsa (te_account_id env) (ts_address self) (sign_msg_sign_bytes m) (ch_keyring chain) = Done sig"
    and pk: "get_account_pubkey (te_account_id env) (ts_address self) (ch_keyring chain) = Some pk"
    and sigs: "tx_signatures tx = [\<lparr>ss_pub_key = te_key_bytes env pk, ss_signature = sig\<rparr>]"
    using sign_tx_DoneD(5) [OF tx] by blast
  moreover have "\<exists>s. te_account_id env pk = ts_address self \<and>
      (AccountKey pk, s) \<in> set (kr_ecdsa_keys (ch_keyring chain)) \<and> ecdsa_signer_sign s (sign_msg_sign_bytes m) = Done sig"
    using sig pk by (auto simp: sign_ecdsa_def get_account_pubkey_def dest: find_account_SomeD split: option.splits)
  ultimately show ?thesis
    using st' deliver resp checked_add_SomeD [OF k] by (auto simp: st1_def self_def)
qed

text \<open>
  The next block to wait for is the first multiple of the configured interval after the
  given height; the only other results are a panic for the interval 0 and one when that
  multiple does not fit into 64 bits.
\<close>

theorem next_block_after_spec:
  "next_block_after h self =
     (let i = unat (poll_blocks (ts_poll_interval self)); n = (unat h div i + 1) * i
      in if i = 0 then Panicked rem_zero_panic
         else if n < 2 ^ 64 then Done (word_of_nat n) else Panicked overflow_panic)"
proof -
  define b where "b = poll_blocks (ts_poll_interval self)"
  show ?thesis
  proof (cases "b = 0")
    case True
    then show ?thesis by (simp add: next_block_after_def b_def [symmetric] Let_def)
  next
    case False
    then have i: "unat b \<noteq> 0" by (simp add: unat_eq_0)
    have "h mod b \<le> h" by (simp add: word_le_nat_alt unat_mod_distrib)
    then have sub: "checked_sub h (h mod b) = Some (h - h mod b)" by (simp add: checked_sub_def)
    have "unat (h - h mod b) = unat h - unat h mod unat b"
      by (metis unat_sub [OF \<open>h mod b \<le> h\<close>] unat_mod_distrib)
    also have "\<dots> = unat h div unat b * unat b" by (rule minus_mod_eq_div_mult)
    finally have base: "unat (h - h mod b) = unat h div unat b * unat b" .
    have sum: "unat (h - h mod b) + unat b = (unat h div unat b + 1) * unat b"
      by (simp add: base)
    have "h - h mod b + b = word_of_nat ((unat h div unat b + 1) * unat b)"
      by (metis sum of_nat_add of_nat_unat ucast_id)
    then show ?thesis
      using False i sum
      by (simp add: next_block_after_def b_def [symmetric] sub checked_add_def Let_def)
  qed
qed

text \<open>
  Waiting for a block ends, if it ends without an RPC error, at a height that has reached the
  target or is more than one interval below it; it never panics.
\<close>

theorem wait_ends_at_target:
  assumes "wait_until_block_height self target polls = Some r"
  shows "\<not> is_panic r \<and> (\<forall>h. r = Done h \<longrightarrow> Some h \<in> set polls \<and>
    (target \<le> h \<or> unat h + unat (poll_blocks (ts_poll_interval self)) < unat target))"
  using assms
proof (induction polls)
  case Nil
  then show ?case by simp
next
  case (Cons p polls)
  show ?case
  proof (cases p)
    case None
    then show ?thesis using Cons.prems by auto
  next
    case (Some h)
    show ?thesis
    proof (cases "target \<le> h")
      case True
      then show ?thesis using Cons.prems Some by auto
    next
      case False
      then have le: "h \<le> target" by simp
      then have sub: "checked_sub target h = Some (target - h)" by (simp add: checked_sub_def)
      show ?thesis
      proof (cases "target - h > poll_blocks (ts_poll_interval self)")
        case True
        then have "unat (poll_blocks (ts_poll_interval self)) < unat target - unat h"
          by (simp add: word_less_nat_alt unat_sub [OF le])
        then have "unat h + unat (poll_blocks (ts_poll_interval self)) < unat target" by linarith
        then show ?thesis using Cons.prems Some \<open>\<not> target \<le> h\<close> sub True by auto
      next
        case False
        then have "wait_until_block_height self target polls = Some r"
          using Cons.prems Some \<open>\<not> target \<le> h\<close> sub by simp
        from Cons.IH [OF this] show ?thesis by auto
      qed
    qed
  qed
qed

section \<open>An example\<close>

text \<open>
  A node that commits everything, an account with one key, and a source that always asks for the
  same transfer.  How writes of the sequence file end is a parameter.
\<close>

definition unary_json :: sequence_json where
  "unary_json = \<lparr>sequence_to_json = (\<lambda>n. Some (replicate (unat n) CHR ''x'')),
                 sequence_from_json = (\<lambda>j. Some (word_of_nat (length j)))\<rparr>"

lemma unary_roundtrip: "sequence_roundtrip unary_json"
  by (simp add: sequence_roundtrip_def unary_json_def)

definition transfer :: amino_msg where
  "transfer = \<lparr>am_type_name = ''bank/MsgSend'', am_value = ''5''\<rparr>"

definition tx_key :: signer where
  "tx_key = ecdsa_signer_new SoftSign (AccountKey (Secp256k1 [4])) Done"

definition tx_chain :: chain where
  "tx_chain = \<lparr>ch_id = ''c'', ch_keyring = \<lparr>kr_ecdsa_keys = [(AccountKey (Secp256k1 [4]), tx_key)],
     kr_ed25519_keys = [], kr_format = Hex\<rparr>, ch_state = mutex_new height_zero\<rparr>"

definition committed :: tx_result where
  "committed = \<lparr>tr_check_tx_code = 0, tr_deliver_tx_code = 0, tr_hash = []\<rparr>"

definition example_env :: "write_answer \<Rightarrow> tx_env" where
  "example_env os =
     \<lparr>te_builder = \<lparr>tb_msg_from_json = (\<lambda>_. Some transfer), tb_create_sign_msg = (\<lambda>n f mm ms. mm @ replicate (unat n) CHR ''x''),
                    tb_to_amino_bytes = (\<lambda>_. [])\<rparr>,
      te_json = unary_json, te_registry = [''c'' \<mapsto> tx_chain],
      te_account_id = (\<lambda>pk. case pk of Secp256k1 b \<Rightarrow> b | Ed25519 b \<Rightarrow> []),
      te_key_bytes = (\<lambda>pk. case pk of Secp256k1 b \<Rightarrow> b | Ed25519 b \<Rightarrow> b),
      te_broadcast = (\<lambda>_ _. Inr committed), te_write = (\<lambda>_. os)\<rparr>"

definition example_state :: tx_state where
  "example_state =
     \<lparr>txs_signer = \<lparr>ts_chain_id = ''c'', ts_address = [4], ts_context = [], ts_acl = \<lparr>acl_msg_type = [''bank/MsgSend'']\<rparr>,
                    ts_poll_interval = Block 10 5,
                    ts_seq_file = \<lparr>sq_path = \<lparr>path_absolute = True, path_components = [''q'']\<rparr>, sq_sequence = 3\<rparr>,
                    ts_last_tx = No_tx\<rparr>,
      txs_disk = Map.empty, txs_log = []\<rparr>"

definition transfer_request :: tx_signing_request where
  "transfer_request = \<lparr>tq_chain_id = ''c'', tq_fee = ''1'', tq_memo = ''m'', tq_msgs = [''{}'']\<rparr>"

definition transfer_source :: "source_request \<Rightarrow> http_answer" where
  "transfer_source = (\<lambda>_. Body_json \<lparr>sp_status = Status_ok, sp_msg = None, sp_tx = Some transfer_request\<rparr>)"

definition transfer_msg :: "u64 \<Rightarrow> sign_msg" where
  "transfer_msg n = \<lparr>sm_fee = ''1'', sm_memo = ''m'', sm_msgs = [transfer], sm_msg_types = {''bank/MsgSend''}, sm_repr = ''m'' @ replicate (unat n) CHR ''x''\<rparr>"

definition transfer_tx :: "u64 \<Rightarrow> std_tx" where
  "transfer_tx n = \<lparr>tx_msgs = [transfer], tx_fee = ''1'',
     tx_signatures = [\<lparr>ss_pub_key = [4], ss_signature = str_bytes (''m'' @ replicate (unat n) CHR ''x'')\<rparr>], tx_memo = ''m''\<rparr>"

lemma example_msg: "sign_msg_new transfer_request (te_builder (example_env os)) n = Done (transfer_msg n)"
  by (simp add: sign_msg_new_def transfer_request_def example_env_def transfer_msg_def transfer_def)

lemma example_sign:
  assumes "same_policy self (txs_signer example_state)"
  shows "sign_tx (example_env os) (transfer_msg n) self = Done (transfer_tx n)"
proof -
  have "sign_tx (example_env os) (transfer_msg n) (txs_signer example_state) = Done (transfer_tx n)"
    by (simp add: sign_tx_def sign_msg_authorize_def transfer_msg_def example_state_def get_chain_def example_env_def
        sign_ecdsa_def tx_chain_def get_account_pubkey_def tx_key_def ecdsa_signer_new_def ecdsa_signer_sign_def
        sign_msg_sign_bytes_def sign_msg_to_stdtx_def transfer_tx_def)
  then show ?thesis using sign_tx_policy [OF assms] by simp
qed

lemma example_env_simps [simp]:
  "te_json (example_env os) = unary_json" "te_broadcast (example_env os) log tx = Inr committed"
  "te_write (example_env os) log = os" "tr_check_tx_code committed = 0" "tr_deliver_tx_code committed = 0"
  "sequence_to_json unary_json n = Some (replicate (unat n) CHR ''x'')"
  by (simp_all add: example_env_def committed_def unary_json_def)

lemma example_policy [simp]:
  "path_parent (sq_path (ts_seq_file (txs_signer example_state))) \<noteq> None"
  "sq_sequence (ts_seq_file (txs_signer example_state)) = 3" "txs_log example_state = []"
  "ts_last_tx (txs_signer example_state) = No_tx"
  by (simp_all add: example_state_def path_parent_def)

lemma example_add [simp]: "checked_add 3 1 = Some 4" "checked_add 4 1 = Some 5" "checked_add 5 1 = Some 6"
  by (simp_all add: checked_add_def)

lemma example_broadcast:
  assumes "same_policy (txs_signer st) (txs_signer example_state)"
    and "path_parent (sq_path (ts_seq_file (txs_signer st))) \<noteq> None" and "checked_add n 1 = Some k"
  shows "broadcast_tx (example_env Write_ok) (transfer_msg n) n st =
      (st\<lparr>txs_log := txs_log st @ [(n, transfer_tx n)],
          txs_signer := (txs_signer st)\<lparr>ts_last_tx := Tx_response committed,
            ts_seq_file := (ts_seq_file (txs_signer st))\<lparr>sq_sequence := k\<rparr>\<rparr>,
          txs_disk := (txs_disk st)(sq_path (ts_seq_file (txs_signer st)) \<mapsto> replicate (unat k) CHR ''x'')\<rparr>, Done ())"
    and "broadcast_tx (example_env Persist_fails) (transfer_msg n) n st =
      (st\<lparr>txs_log := txs_log st @ [(n, transfer_tx n)],
          txs_signer := (txs_signer st)\<lparr>ts_last_tx := Tx_response committed,
            ts_seq_file := (ts_seq_file (txs_signer st))\<lparr>sq_sequence := k\<rparr>\<rparr>\<rparr>, Failed IoError)"
  using assms(2) checked_add_SomeD [OF assms(3)]
  by (auto simp: broadcast_tx_def example_sign [OF assms(1)] assms(3) sequence_persist_def
      sequence_sync_to_disk_def Let_def)

lemma example_request:
  "txs_log (fst (request_and_sign_tx (example_env Write_ok) transfer_source 20 example_state)) = [(3, transfer_tx 3)]"
  "txs_log (fst (request_and_sign_tx (example_env Persist_fails) transfer_source 20 example_state)) =
     [(3, transfer_tx 3), (4, transfer_tx 4), (5, transfer_tx 5)]"
proof -
  have src: "source_request_tx transfer_source params = Done (Some transfer_request)"
    and chain: "tq_chain_id transfer_request = ts_chain_id (txs_signer example_state)" for params
    by (simp_all add: source_request_tx_def transfer_source_def transfer_request_def example_state_def)
  show "txs_log (fst (request_and_sign_tx (example_env Write_ok) transfer_source 20 example_state)) = [(3, transfer_tx 3)]"
    by (simp add: request_and_sign_tx_def src chain example_msg example_broadcast Let_def)
  show "txs_log (fst (request_and_sign_tx (example_env Persist_fails) transfer_source 20 example_state)) =
     [(3, transfer_tx 3), (4, transfer_tx 4), (5, transfer_tx 5)]"
    by (simp add: request_and_sign_tx_def src chain example_msg example_broadcast retry_tx_def Let_def
        last_tx_is_response_def same_policy_def)
qed

text \<open>Three broadcasts, each with the signature for its own sequence number.\<close>

theorem broadcasts_follow_policy_witness:
  "\<exists>es. txs_log (fst (request_and_sign_tx (example_env Persist_fails) transfer_source 20 example_state)) = es \<and>
     map fst es = [3, 4, 5] \<and>
     (\<forall>(n, tx) \<in> set es. \<exists>k sig. tx_signatures tx = [\<lparr>ss_pub_key = k, ss_signature = sig\<rparr>] \<and>
        sign_ecdsa (te_account_id (example_env Persist_fails)) [4] (str_bytes (''m'' @ replicate (unat n) CHR ''x''))
          (ch_keyring tx_chain) = Done sig)"
proof -
  let ?env = "example_env Persist_fails"
  obtain st' r where run: "request_and_sign_tx ?env transfer_source 20 example_state = (st', r)"
    by (metis surj_pair)
  have log: "txs_log st' = [(3, transfer_tx 3), (4, transfer_tx 4), (5, transfer_tx 5)]"
    using run example_request(2) by simp
  obtain params req chain pk where src: "source_request_tx transfer_source params = Done (Some req)"
    and chain: "te_registry ?env (ts_chain_id (txs_signer example_state)) = Some chain"
    and signed: "\<forall>(n, tx) \<in> set (txs_log st'). \<exists>sig.
      tx_signatures tx = [\<lparr>ss_pub_key = te_key_bytes ?env pk, ss_signature = sig\<rparr>] \<and>
      sign_ecdsa (te_account_id ?env) (ts_address (txs_signer example_state))
        (str_bytes (tb_create_sign_msg (te_builder ?env) n (tq_fee req) (tq_memo req) (tx_msgs tx)))
        (ch_keyring chain) = Done sig"
    using broadcasts_follow_policy [OF run] log by (auto 0 3)
  have "req = transfer_request" "chain = tx_chain"
    using src chain by (simp_all add: source_request_tx_def transfer_source_def example_env_def example_state_def)
  then have "\<forall>(n, tx) \<in> set (txs_log st'). \<exists>k sig. tx_signatures tx = [\<lparr>ss_pub_key = k, ss_signature = sig\<rparr>] \<and>
      sign_ecdsa (te_account_id ?env) [4] (str_bytes (''m'' @ replicate (unat n) CHR ''x''))
        (ch_keyring tx_chain) = Done sig"
    using signed by (fastforce simp: transfer_request_def example_env_def example_state_def)
  then show ?thesis using run log by (intro exI [of _ "txs_log st'"]) simp
qed

theorem tx_run_authorised_witness:
  "\<exists>st' r. tx_run (example_env Write_ok) [Some 11] [(transfer_source, [Some 20])] example_state = (st', r) \<and>
     txs_log st' = [(3, transfer_tx 3)] \<and> (\<forall>m \<in> set (tx_msgs (transfer_tx 3)). am_type_name m = ''bank/MsgSend'')"
proof -
  have next_block: "next_block_after 11 (txs_signer example_state) = Done 20"
    "next_block_after 20 (txs_signer example_state) = Done 30"
    by (simp_all add: next_block_after_def example_state_def checked_sub_def checked_add_def)
  obtain st' q where req: "request_and_sign_tx (example_env Write_ok) transfer_source 20 example_state = (st', q)"
    by (metis surj_pair)
  then have log: "txs_log st' = [(3, transfer_tx 3)]" using example_request(1) by simp
  obtain r where run: "tx_run (example_env Write_ok) [Some 11] [(transfer_source, [Some 20])] example_state = (st', r)"
    using req next_block by (cases q) (simp_all add: tx_run_def tx_turn_def)
  from tx_run_authorised [OF run] log run show ?thesis by (simp add: example_state_def)
qed

theorem broadcast_advances_sequence_witness:
  "\<exists>st'. broadcast_tx (example_env Write_ok) (transfer_msg 3) 3 example_state = (st', Done ()) \<and>
     stored_sequence unary_json (sq_path (ts_seq_file (txs_signer example_state))) (txs_disk st') = Some 4"
proof -
  obtain st' where run: "broadcast_tx (example_env Write_ok) (transfer_msg 3) 3 example_state = (st', Done ())"
    using example_broadcast(1) [of example_state 3 4] by (simp add: example_policy)
  have "sq_sequence (ts_seq_file (txs_signer st')) = 4"
    using run example_broadcast(1) [of example_state 3 4] by (auto simp: example_policy)
  with broadcast_advances_sequence [OF _ run] run show ?thesis by (simp add: unary_roundtrip)
qed

theorem wait_ends_at_target_witness:
  "\<exists>h. wait_until_block_height (txs_signer example_state) 30 [Some 25, Some 31] = Some (Done h) \<and> 30 \<le> h"
proof -
  have run: "wait_until_block_height (txs_signer example_state) 30 [Some 25, Some 31] = Some (Done 31)"
    by (simp add: example_state_def checked_sub_def)
  from wait_ends_at_target [OF this] run show ?thesis by (simp add: example_state_def)
qed

text \<open>
  C40: when the sequence file cannot be written after the node accepted a transaction, and no
  transaction had a response before, the request is signed and broadcast again for the next two
  sequence numbers, although the node accepted it: it gets three transactions with the same
  messages, fee and memo, each valid in turn.  Retrying is meant for a transaction whose response was lost.
\<close>

theorem failed_persist_repeats_transaction:
  assumes "source_request_tx http \<lparr>sq_network = ts_chain_id (txs_signer st), sq_context = ts_context (txs_signer st),
      sq_height = h, sq_last_tx_response = last_tx_response (ts_last_tx (txs_signer st))\<rparr> = Done (Some req)"
    and "tq_chain_id req = ts_chain_id (txs_signer st)"
    and "\<not> last_tx_is_response (ts_last_tx (txs_signer st))"
    and "sq_sequence (ts_seq_file (txs_signer st)) = n" and "unat n + 3 < 2 ^ 64"
    and "\<And>k. \<exists>tx. signed_tx_entry env req (txs_signer st) (k, tx)"
    and "\<And>log b. \<exists>resp. te_broadcast env log b = Inr resp \<and> tr_check_tx_code resp = 0"
    and "\<And>log. te_write env log \<noteq> Write_ok" and "path_parent (sq_path (ts_seq_file (txs_signer st))) \<noteq> None"
  shows "\<exists>t0 t1 t2. txs_log (fst (request_and_sign_tx env http h st)) = txs_log st @ [(n, t0), (n + 1, t1), (n + 2, t2)] \<and>
    (\<forall>tx \<in> {t0, t1, t2}. parse_msgs (te_builder env) (tq_msgs req) = Done (tx_msgs tx) \<and>
       tx_fee tx = tq_fee req \<and> tx_memo tx = tq_memo req)"
proof -
  note once = failed_persist_attempt [OF assms(6-8)]
  obtain st1 t0 e0 where 0: "attempt env req n st = (st1, Failed e0)" "same_policy (txs_signer st) (txs_signer st1)"
    "sq_path (ts_seq_file (txs_signer st1)) = sq_path (ts_seq_file (txs_signer st))"
    "txs_log st1 = txs_log st @ [(n, t0)]" "signed_tx_entry env req (txs_signer st) (n, t0)"
    using once [OF same_policy_refl assms(9), of n] assms(5) by auto
  obtain st2 t1 e1 where 1: "attempt env req (n + 1) st1 = (st2, Failed e1)" "same_policy (txs_signer st) (txs_signer st2)"
    "sq_path (ts_seq_file (txs_signer st2)) = sq_path (ts_seq_file (txs_signer st1))"
    "txs_log st2 = txs_log st1 @ [(n + 1, t1)]" "signed_tx_entry env req (txs_signer st) (n + 1, t1)"
    using once [OF 0(2), of "n + 1"] 0(3) assms(5,9) by (auto simp: next_sequences)
  obtain st3 t2 e2 where 2: "attempt env req (n + 2) st2 = (st3, Failed e2)"
    "txs_log st3 = txs_log st2 @ [(n + 2, t2)]" "signed_tx_entry env req (txs_signer st) (n + 2, t2)"
    using once [OF 1(2), of "n + 2"] 0(3) 1(3) assms(5,9) by (auto simp: next_sequences)
  obtain m m' where m: "sign_msg_new req (te_builder env) n = Done m" "sign_msg_new req (te_builder env) (n + 1) = Done m'"
    using 0(5) 1(5) by (auto simp: signed_tx_entry_def)
  have "retry_tx env req n st1 = (st3, Failed e2)"
    by (rule retry_tx_attempts [OF 1(1) 2(1) assms(5) m(2)])
  then have "request_and_sign_tx env http h st = (st3, Failed e2)"
    using 0(1) m(1) by (intro request_attempts [OF assms(1-3)]) (simp_all add: assms(4))
  then have "txs_log (fst (request_and_sign_tx env http h st)) = txs_log st @ [(n, t0), (n + 1, t1), (n + 2, t2)]"
    using 0(4) 1(4) 2(2) by simp
  moreover have "\<forall>tx \<in> {t0, t1, t2}. parse_msgs (te_builder env) (tq_msgs req) = Done (tx_msgs tx) \<and>
      tx_fee tx = tq_fee req \<and> tx_memo tx = tq_memo req"
    using signed_entry_messages [OF 0(5)] signed_entry_messages [OF 1(5)] signed_entry_messages [OF 2(3)] by blast
  ultimately show ?thesis by blast
qed

theorem failed_persist_repeats_transaction_witness:
  "txs_log (fst (request_and_sign_tx (example_env Persist_fails) transfer_source 20 example_state)) =
     [(3, transfer_tx 3), (4, transfer_tx 4), (5, transfer_tx 5)] \<and> tx_msgs (transfer_tx 4) = tx_msgs (transfer_tx 3) \<and>
   tx_signatures (transfer_tx 4) \<noteq> tx_signatures (transfer_tx 3)"
proof -
  have req: "source_request_tx transfer_source p = Done (Some transfer_request)" for p
    by (simp add: source_request_tx_def transfer_source_def)
  have signed: "signed_tx_entry (example_env Persist_fails) transfer_request (txs_signer example_state) (k, transfer_tx k)" for k
    by (simp add: signed_tx_entry_def example_msg example_sign)
  obtain t0 t1 t2 where log: "txs_log (fst (request_and_sign_tx (example_env Persist_fails) transfer_source 20 example_state)) =
      txs_log example_state @ [(3, t0), (3 + 1, t1), (3 + 2, t2)]"
    and same: "\<forall>tx \<in> {t0, t1, t2}. parse_msgs (te_builder (example_env Persist_fails)) (tq_msgs transfer_request) =
      Done (tx_msgs tx) \<and> tx_fee tx = tq_fee transfer_request \<and> tx_memo tx = tq_memo transfer_request"
  proof -
    have "tq_chain_id transfer_request = ts_chain_id (txs_signer example_state)"
      by (simp add: transfer_request_def example_state_def)
    moreover have "\<exists>tx. signed_tx_entry (example_env Persist_fails) transfer_request (txs_signer example_state) (k, tx)" for k
      using signed by blast
    ultimately show thesis
      using failed_persist_repeats_transaction [OF req, of example_state 3 "example_env Persist_fails" 20] that
      by (simp add: last_tx_is_response_def) blast
  qed
  have "[(3, t0), (4, t1), (5, t2)] = [(3, transfer_tx 3), (4, transfer_tx 4), (5, transfer_tx 5)]"
    using log example_request(2) by simp
  then have "tx_msgs (transfer_tx 4) = tx_msgs (transfer_tx 3)" using same by auto
  moreover have "tx_signatures (transfer_tx 4) \<noteq> tx_signatures (transfer_tx 3)"
    by code_simp
  ultimately show ?thesis using example_request(2) by blast
qed

end
