(* ===== verification/Tx_Source.thy ===== *)
theory Tx_Source
  imports Tx_Signer "HOL-Library.AList"
begin

text \<open>
  The JSONRPC client of the transaction signer as it appears on the network
  (\<^verbatim>\<open>src/tx_signer/jsonrpc.rs\<close>): a POST to the configured address with two headers and the
  request in JSON.  \<^verbatim>\<open>Tx_Signer\<close> takes the exchange as a function of the request; here that
  function is built from one of the HTTP message.
\<close>

record http_message =
  hm_uri :: string
  hm_headers :: "(string \<times> string) list"
  hm_body :: string

record jsonrpc_client =
  jc_uri :: string

definition jsonrpc_client_new :: "string \<Rightarrow> jsonrpc_client" where
  "jsonrpc_client_new uri = \<lparr>jc_uri = uri\<rparr>"

text \<open>\<^verbatim>\<open>HeaderMap::insert\<close> replaces the value of a name that is there.\<close>

definition header_insert :: "string \<Rightarrow> string \<Rightarrow> (string \<times> string) list \<Rightarrow> (string \<times> string) list" where
  "header_insert name val headers = AList.update name val headers"

text \<open>\<^verbatim>\<open>HeaderValue::from_str\<close>: visible ASCII and tab.\<close>

definition header_value :: "string \<Rightarrow> string option" where
  "header_value s = (if list_all (\<lambda>c. let n = of_char c :: nat in 32 \<le> n \<and> n < 127 \<or> n = 9) s then Some s else None)"

definition header_panic :: panic_payload where
  "header_panic = Payload_String ''called `Result::unwrap()` on an `Err` value: InvalidHeaderValue''"

definition add_headers :: "string \<Rightarrow> http_message \<Rightarrow> (error_kind, http_message) outcome" where
  "add_headers pkg_version request =
     obind (unwrap_or_panic header_panic (header_value ''application/json'')) (\<lambda>content_type.
     obind (unwrap_or_panic header_panic (header_value (''tmkms/'' @ pkg_version))) (\<lambda>user_agent.
       Done (request\<lparr>hm_headers :=
         header_insert ''user-agent'' user_agent (header_insert ''content-type'' content_type (hm_headers request))\<rparr>)))"

definition json_panic :: panic_payload where
  "json_panic = Payload_String ''JSON serialization error''"

definition request_body :: "(source_request \<Rightarrow> string option) \<Rightarrow> source_request \<Rightarrow> (error_kind, string) outcome" where
  "request_body encode req = unwrap_or_panic json_panic (encode req)"

definition jsonrpc_request ::
  "string \<Rightarrow> (source_request \<Rightarrow> string option) \<Rightarrow> (http_message \<Rightarrow> http_answer) \<Rightarrow> jsonrpc_client \<Rightarrow> source_request
     \<Rightarrow> (error_kind, tx_signing_request option) outcome" where
  "jsonrpc_request pkg_version encode send self params =
     obind (request_body encode params) (\<lambda>body.
     obind (add_headers pkg_version \<lparr>hm_uri = jc_uri self, hm_headers = [], hm_body = body\<rparr>) (\<lambda>request.
       source_request_tx (\<lambda>_. send request) params))"

definition PKG_VERSION :: string where
  "PKG_VERSION = ''0.12.0''"

text \<open>
  With a JSON encoder that encodes every request, the client of the transaction source never
  panics and refines the abstract exchange: it behaves as \<^verbatim>\<open>Tx_Signer\<close> assumes, with the answer to
  exactly one message, sent to the configured address, that declares JSON, names the program and
  carries the encoded request.
\<close>

theorem jsonrpc_request_refines:
  assumes "\<And>p. encode p \<noteq> None"
  shows "jsonrpc_request PKG_VERSION encode send (jsonrpc_client_new uri) params =
    source_request_tx (\<lambda>p. send \<lparr>hm_uri = uri,
      hm_headers = [(''content-type'', ''application/json''), (''user-agent'', ''tmkms/0.12.0'')],
      hm_body = the (encode p)\<rparr>) params"
proof -
  obtain body where "encode params = Some body" using assms by blast
  then show ?thesis
    by (simp add: jsonrpc_request_def request_body_def add_headers_def header_value_def header_insert_def
        jsonrpc_client_new_def PKG_VERSION_def source_request_tx_def)
qed

theorem jsonrpc_request_refines_witness:
  "jsonrpc_request PKG_VERSION (\<lambda>p. Some (sq_network p)) (\<lambda>m. if hm_body m = ''c'' then Body_no_json else Http_fails)
     (jsonrpc_client_new ''u'') \<lparr>sq_network = ''c'', sq_context = [], sq_height = 1, sq_last_tx_response = None\<rparr> =
   Failed (error_from Serde_json_error)"
  by (subst jsonrpc_request_refines) (simp_all add: source_request_tx_def)

end
