(* ===== verification/Key_Commands.thy ===== *)
theory Key_Commands
  imports Kms_Lives
begin

text \<open>
  The commands that make keys for the other providers than the YubiHSM:
  \<^verbatim>\<open>tmkms softsign keygen\<close> and \<^verbatim>\<open>tmkms softsign import\<close> (\<^verbatim>\<open>src/commands/softsign\<close>), and
  \<^verbatim>\<open>tmkms ledger init\<close> (\<^verbatim>\<open>src/commands/ledger.rs\<close>).  \<^verbatim>\<open>process::exit(1)\<close> is the error 1.  What the
  first two write is what the software signer reads when the KMS starts.
\<close>

section \<open>Generating a key\<close>

record keygen_command =
  kg_key_type :: "string option"
  kg_output_paths :: "path list"

definition DEFAULT_KEY_TYPE :: string where
  "DEFAULT_KEY_TYPE = ''consensus''"

definition secret_key_panic :: panic_payload where
  "secret_key_panic = Payload_String ''called `Result::unwrap()` on an `Err` value: InvalidLength''"

definition generate_secp256k1_key ::
  "crypto_crate \<Rightarrow> secret_write \<Rightarrow> bytes \<Rightarrow> path \<Rightarrow> file_system \<Rightarrow> (file_system, nat, unit) run" where
  "generate_secp256k1_key cr os signing_key output_path fs =
     (case write_base64_secret cr os output_path signing_key fs of (fs', r) \<Rightarrow> (fs', map_err (\<lambda>_. 1) r))"

definition generate_ed25519_key ::
  "crypto_crate \<Rightarrow> secret_write \<Rightarrow> bytes \<Rightarrow> path \<Rightarrow> file_system \<Rightarrow> (file_system, nat, unit) run" where
  "generate_ed25519_key cr os sk_bytes output_path fs =
     (if ed25519_secret cr sk_bytes
      then case write_base64_secret cr os output_path sk_bytes fs of (fs', r) \<Rightarrow> (fs', map_err (\<lambda>_. 1) r)
      else (fs, Panicked secret_key_panic))"

text \<open>
  The random material is an argument: a secret scalar that \<^verbatim>\<open>SigningKey::random\<close> found, and the 32
  bytes for an Ed25519 key.
\<close>

definition keygen_run ::
  "crypto_crate \<Rightarrow> secret_write \<Rightarrow> bytes \<Rightarrow> bytes \<Rightarrow> keygen_command \<Rightarrow> file_system \<Rightarrow> (file_system, nat, unit) run" where
  "keygen_run cr os scalar sk_bytes self fs =
     (case kg_output_paths self of
        [output_path] \<Rightarrow>
          (let key_type = (case kg_key_type self of Some t \<Rightarrow> t | None \<Rightarrow> DEFAULT_KEY_TYPE)
           in if key_type = ''account'' then generate_secp256k1_key cr os scalar output_path fs
              else if key_type = ''consensus'' then generate_ed25519_key cr os sk_bytes output_path fs
              else (fs, Failed 1))
      | _ \<Rightarrow> (fs, Failed 1))"

section \<open>Importing a key\<close>

record import_command =
  im_format :: "string option"
  im_paths :: "path list"

definition import_run ::
  "crypto_crate \<Rightarrow> secret_write \<Rightarrow> (path \<Rightarrow> private_key option) \<Rightarrow> import_command \<Rightarrow> file_system
     \<Rightarrow> (file_system, nat, unit) run" where
  "import_run cr os load_json self fs =
     (case im_paths self of
        [input_path, output_path] \<Rightarrow>
          rbind (fs, case im_format self of
                       Some f \<Rightarrow> map_err (\<lambda>_. 1) (key_format_from_str f)
                     | None \<Rightarrow> Done Json) (\<lambda>fs format.
          if format \<noteq> Json then (fs, Failed 1)
          else rbind (fs, ok_or 1 (load_json input_path)) (\<lambda>fs private_key.
            case private_key of
              Ed25519_private secret public \<Rightarrow>
                (case write_base64_secret cr os output_path secret fs of (fs', r) \<Rightarrow> (fs', map_err (\<lambda>_. 1) r))
            | Other_private \<Rightarrow> (fs, Panicked unreachable_panic)))
      | _ \<Rightarrow> (fs, Failed 1))"

section \<open>Initialising the Ledger\<close>

record ledger_init_command =
  li_height :: "i64 option"
  li_round :: "i64 option"

definition validator_index_panic :: panic_payload where
  "validator_index_panic =
     Payload_String ''index out of bounds: the len is 0 but the index is 0''"

definition result_panic :: panic_payload where
  "result_panic = Payload_String ''called `Result::unwrap()` on an `Err` value''"

definition unwrap_done :: "('e, 'a) outcome \<Rightarrow> (nat, 'a) outcome" where
  "unwrap_done r = (case r of Done a \<Rightarrow> Done a | Failed e \<Rightarrow> Panicked result_panic | Panicked p \<Rightarrow> Panicked p)"

definition ledger_init_run ::
  "tendermint_crate \<Rightarrow> canonical_codec \<Rightarrow> state_json \<Rightarrow> (chain_config \<Rightarrow> chain_env) \<Rightarrow> key_sources \<Rightarrow> kms_config
     \<Rightarrow> ledger_init_command \<Rightarrow> disk \<Rightarrow> (registry \<times> disk, nat, bytes) run" where
  "ledger_init_run tm cc js env ks config self disk =
     (case chain_load_config tm js env ks config (Map.empty, disk) of
        (s, r) \<Rightarrow> rbind (s, map_err (\<lambda>_. 1) r) (\<lambda>s _.
          (s,
           obind (case kc_validator config of [] \<Rightarrow> Panicked validator_index_panic | v # _ \<Rightarrow> Done v) (\<lambda>validator.
           obind (unwrap_or_panic unwrap_none (get_chain (fst s) (vc_chain_id validator))) (\<lambda>chain.
           obind (unwrap_or_panic unwrap_none (li_height self)) (\<lambda>height.
           obind (unwrap_or_panic unwrap_none (li_round self)) (\<lambda>round.
             let vote = vote_default\<lparr>v_height := height, v_round := round,
                          v_vote_type := msg_type_to_u32 Proposal\<rparr>
             in obind (unwrap_done (vote_sign_bytes cc (vc_chain_id validator) Legacy \<lparr>svr_vote = Some vote\<rparr>))
                  (\<lambda>to_sign. unwrap_done (sign_ed25519 None to_sign (ch_keyring chain))))))))))"

section \<open>What the software signer reads\<close>

lemma write_then_load:
  assumes "base64_roundtrip cr" and "write_base64_secret cr os p data fs = (fs', Done ())"
  shows "load_base64_secret cr fs' p = Done data"
  using assms trim_end_no_space [of "base64_encode cr data"]
  by (auto simp: write_base64_secret_def load_base64_secret_def base64_roundtrip_def Let_def
      split: secret_write.splits)

lemma map_err_run_DoneD:
  "(case x of (s', r) \<Rightarrow> (s', map_err g r)) = (t, Done a) \<Longrightarrow> x = (t, Done a)"
  by (cases x) auto

lemma keygen_DoneD:
  assumes "keygen_run cr os scalar sk self fs = (fs', Done ())"
  obtains (account) p where "kg_output_paths self = [p]" "kg_key_type self = Some ''account''"
      "write_base64_secret cr os p scalar fs = (fs', Done ())"
  | (consensus) p where "kg_output_paths self = [p]" "kg_key_type self \<in> {None, Some ''consensus''}"
      "ed25519_secret cr sk" "write_base64_secret cr os p sk fs = (fs', Done ())"
proof -
  obtain p where p: "kg_output_paths self = [p]"
    using assms by (auto simp: keygen_run_def split: list.splits)
  define t where "t = (case kg_key_type self of Some t \<Rightarrow> t | None \<Rightarrow> DEFAULT_KEY_TYPE)"
  have run: "(if t = ''account'' then generate_secp256k1_key cr os scalar p fs
      else if t = ''consensus'' then generate_ed25519_key cr os sk p fs else (fs, Failed 1)) = (fs', Done ())"
    using assms by (simp only: keygen_run_def p list.case Let_def t_def)
  consider "t = ''account''" | "t = ''consensus''" using run by (auto split: if_splits)
  then show thesis
  proof cases
    case 1
    then have "kg_key_type self = Some ''account''"
      by (cases "kg_key_type self") (simp_all add: t_def DEFAULT_KEY_TYPE_def)
    moreover have "generate_secp256k1_key cr os scalar p fs = (fs', Done ())" using run 1 by simp
    ultimately show thesis using account [OF p] by (auto simp: generate_secp256k1_key_def dest: map_err_run_DoneD)
  next
    case 2
    then have "kg_key_type self \<in> {None, Some ''consensus''}"
      by (cases "kg_key_type self") (simp_all add: t_def DEFAULT_KEY_TYPE_def)
    moreover have "generate_ed25519_key cr os sk p fs = (fs', Done ())" using run 2 by simp
    ultimately show thesis
      using consensus [OF p] by (auto simp: generate_ed25519_key_def dest: map_err_run_DoneD split: if_splits)
  qed
qed

text \<open>
  A key that \<^verbatim>\<open>softsign keygen\<close> generated is what the software signer loads from that file:
  the random bytes with their public key for a consensus key, the random scalar for an account
  key; and these are the only two types of key it makes.
\<close>

theorem keygen_loads:
  assumes "base64_roundtrip cr" and "ecdsa_secret cr scalar"
    and "keygen_run cr os scalar sk self fs = (fs', Done ())"
    and "kg_output_paths self = [ss_path config]" and "ss_key_format config = None"
  shows "(kg_key_type self = Some ''account'' \<and> load_secp256k1_key cr fs' config = Done scalar) \<or>
    (kg_key_type self \<in> {None, Some ''consensus''} \<and>
     load_ed25519_key cr load_json fs' config = Done (sk, ed25519_public cr sk))"
  using assms(3)
proof (cases rule: keygen_DoneD)
  case (account p)
  then show ?thesis
    using write_then_load [OF assms(1) account(3)] assms(2,4,5)
    by (simp add: load_secp256k1_key_def key_format_default_def)
next
  case (consensus p)
  then show ?thesis
    using write_then_load [OF assms(1) consensus(4)] assms(4,5)
    by (simp add: load_ed25519_key_def load_base64_ed25519_key_def key_format_default_def)
qed

text \<open>
  \<^verbatim>\<open>softsign import\<close> succeeds only for the JSON format, by default or by name, and then the
  software signer loads from the output file the secret of the imported key.
\<close>

theorem import_loads:
  assumes "base64_roundtrip cr" and "import_run cr os load_json self fs = (fs', Done ())"
    and "ss_key_format config = None" and "ed25519_secret cr secret"
    and "im_paths self = [input, ss_path config]" and "load_json input = Some (Ed25519_private secret public)"
  shows "im_format self \<in> {None, Some ''json''} \<and>
    load_ed25519_key cr load_json fs' config = Done (secret, ed25519_public cr secret)"
proof -
  have w: "write_base64_secret cr os (ss_path config) secret fs = (fs', Done ())"
    and f: "im_format self \<in> {None, Some ''json''}"
    using assms(2,5,6)
    by (auto simp: import_run_def dest!: rbind_DoneD map_err_run_DoneD split: option.splits if_splits)
  show ?thesis
    using f write_then_load [OF assms(1) w] assms(3,4)
    by (simp add: load_ed25519_key_def load_base64_ed25519_key_def key_format_default_def)
qed

text \<open>Both commands on the sample cryptography, which takes every secret.\<close>

lemma sample_secrets: "ed25519_secret sample_crypto b" "ecdsa_secret sample_crypto b"
  by (simp_all add: sample_crypto_def)

theorem keygen_loads_witness:
  "load_ed25519_key sample_crypto (\<lambda>_. None)
     (fst (keygen_run sample_crypto Secret_written [1] [7, 9] \<lparr>kg_key_type = None, kg_output_paths = [key_path]\<rparr> Map.empty))
     \<lparr>ss_chain_ids = [], ss_key_type = Consensus, ss_key_format = None, ss_path = key_path\<rparr> =
   Done ([7, 9], ed25519_public sample_crypto [7, 9])"
proof -
  let ?kg = "\<lparr>kg_key_type = None, kg_output_paths = [key_path]\<rparr>"
  have "keygen_run sample_crypto Secret_written [1] [7, 9] ?kg Map.empty =
      (fst (keygen_run sample_crypto Secret_written [1] [7, 9] ?kg Map.empty), Done ())"
    by (simp add: keygen_run_def DEFAULT_KEY_TYPE_def generate_ed25519_key_def sample_secrets
        write_base64_secret_def Let_def)
  from keygen_loads [OF sample_base64 sample_secrets(2) this,
      of "\<lparr>ss_chain_ids = [], ss_key_type = Consensus, ss_key_format = None, ss_path = key_path\<rparr>"]
  show ?thesis by simp
qed

theorem import_loads_witness:
  "load_ed25519_key sample_crypto (\<lambda>_. Some (Ed25519_private [7, 9] []))
     (fst (import_run sample_crypto Secret_written (\<lambda>_. Some (Ed25519_private [7, 9] []))
        \<lparr>im_format = Some ''json'', im_paths = [sample_path, key_path]\<rparr> Map.empty))
     \<lparr>ss_chain_ids = [], ss_key_type = Consensus, ss_key_format = None, ss_path = key_path\<rparr> =
   Done ([7, 9], ed25519_public sample_crypto [7, 9])"
proof -
  let ?im = "\<lparr>im_format = Some ''json'', im_paths = [sample_path, key_path]\<rparr>"
  let ?run = "import_run sample_crypto Secret_written (\<lambda>_. Some (Ed25519_private [7, 9] [])) ?im Map.empty"
  have "?run = (fst ?run, Done ())"
    by (simp add: import_run_def write_base64_secret_def Let_def)
  from import_loads [OF sample_base64 this,
      of "\<lparr>ss_chain_ids = [], ss_key_type = Consensus, ss_key_format = None, ss_path = key_path\<rparr>"
        "[7, 9]" sample_path "[]"]
  show ?thesis by (simp add: sample_secrets)
qed

section \<open>What the Ledger command signs\<close>

lemma unwrap_done_DoneD: "unwrap_done r = Done a \<Longrightarrow> r = Done a"
  by (cases r) (auto simp: unwrap_done_def)

lemma loading_keeps_files:
  assumes "chain_load_config tm js env ks config (Map.empty, d) = ((reg, d'), r)"
  shows "files_kept d d'"
proof -
  obtain reg0 d0 r0 where chains: "load_chains tm js env (kc_chain config) (Map.empty, d) = ((reg0, d0), r0)"
    by (metis surj_pair)
  show ?thesis
    using load_chains_resumed [of d tm js env "kc_chain config"] loaded_state(2) [OF assms chains] chains by simp
qed

text \<open>The message of the command.\<close>

definition ledger_vote :: "i64 \<Rightarrow> i64 \<Rightarrow> vote" where
  "ledger_vote height round =
     vote_default\<lparr>v_height := height, v_round := round, v_vote_type := msg_type_to_u32 Proposal\<rparr>"

text \<open>
  \<^verbatim>\<open>ledger init\<close> never asks the chain state: whatever was signed before, the only key of the
  first validator's chain signs the canonical bytes of an empty proposal-typed vote at the given
  height and round, and no state file that was there changes.
\<close>

theorem ledger_init_signs:
  assumes "ledger_init_run tm cc js env ks config self d = ((reg, d'), Done sig)"
    and "kc_validator config = v # vs"
  shows "\<exists>height round chain b. li_height self = Some height \<and> li_round self = Some round \<and>
    reg (vc_chain_id v) = Some chain \<and>
    amino_encode_canonical_vote cc (canonical_vote_new (ledger_vote height round) (vc_chain_id v)) = Some b \<and>
    sign_ed25519 None b (ch_keyring chain) = Done sig \<and> files_kept d d'"
proof -
  obtain s r where load: "chain_load_config tm js env ks config (Map.empty, d) = (s, r)" by (metis surj_pair)
  have s: "s = (reg, d')"
    using assms(1) load by (auto simp: ledger_init_run_def rbind_split split: outcome.splits)
  show ?thesis
    using assms load loading_keeps_files [OF load [unfolded s]]
    by (auto simp: ledger_init_run_def rbind_split s get_chain_def obind_Done_iff Let_def
        vote_sign_bytes_Some is_protobuf_def ledger_vote_def vote_default_def
        dest!: unwrap_done_DoneD split: outcome.splits)
qed

definition ledger_run_example :: "(registry \<times> disk) \<times> (nat, bytes) outcome" where
  "ledger_run_example = ledger_init_run sample_tm sample_codec sample_json (\<lambda>_. plain_env) plain_keys
     softsign_validator_kms \<lparr>li_height = Some 5, li_round = Some 0\<rparr> Map.empty"

lemma ledger_run_signature: "snd ledger_run_example = Done [7, 9, 32, 5]"
  by code_simp

theorem ledger_init_signs_witness:
  "\<exists>chain. fst (fst ledger_run_example) ''c'' = Some chain \<and>
     sign_ed25519 None [32, 5] (ch_keyring chain) = Done [7, 9, 32, 5]"
proof -
  have run: "ledger_init_run sample_tm sample_codec sample_json (\<lambda>_. plain_env) plain_keys
      softsign_validator_kms \<lparr>li_height = Some 5, li_round = Some 0\<rparr> Map.empty =
      ((fst (fst ledger_run_example), snd (fst ledger_run_example)), Done [7, 9, 32, 5])"
    using ledger_run_signature by (simp add: ledger_run_example_def prod_eq_iff)
  have "kc_validator softsign_validator_kms = sample_validator # []"
    by (simp add: softsign_validator_kms_def)
  from ledger_init_signs [OF run this] show ?thesis
    by (auto simp: sample_codec_def canonical_vote_new_def ledger_vote_def vote_default_def sample_validator_def)
qed

end
