(* ===== verification/Yubihsm_Setup.thy ===== *)
theory Yubihsm_Setup
  imports Yubihsm_Client
begin

text \<open>
  The command \<^verbatim>\<open>tmkms yubihsm setup\<close> (\<^verbatim>\<open>src/commands/yubihsm/setup.rs\<close>): from a 24-word phrase it
  derives the passwords of the device's roles and a wrap key, prints them, and, once the user
  agrees, erases the device and installs them.  The phrases, the key derivation and the text
  encodings of the crates are parameters; what the device, the terminal and the file system answer
  is an argument.  The state is what was printed, the calls that erase the device and install a
  profile, and the report files.  \<^verbatim>\<open>process::exit(n)\<close> is the error \<open>n\<close>.
\<close>

section \<open>Key derivation\<close>

record mnemonic =
  mn_phrase :: string
  mn_entropy :: bytes

text \<open>
  \<^verbatim>\<open>mnemonic::Phrase\<close>, \<^verbatim>\<open>Hkdf::<Sha512>\<close>, \<^verbatim>\<open>KeyMaterial::derive_subkey\<close>, Bech32, hexadecimal and labels.
  A path that does not parse, or entropy of the wrong length, gives \<open>None\<close>.
\<close>

record setup_crates =
  sc_phrase_new :: "string \<Rightarrow> mnemonic option"
  sc_phrase_from_entropy :: "bytes \<Rightarrow> mnemonic"
  sc_hkdf_expand :: "bytes \<Rightarrow> bytes \<Rightarrow> bytes"
  sc_key_material :: "bytes \<Rightarrow> bytes option"
  sc_path_new :: "bytes \<Rightarrow> bytes option"
  sc_derive_subkey :: "bytes \<Rightarrow> bytes \<Rightarrow> bytes"
  sc_bech32_encode :: "string \<Rightarrow> bytes \<Rightarrow> string"
  sc_hex_encode :: "bytes \<Rightarrow> string"
  sc_wrap_key_ok :: "bytes \<Rightarrow> bool"
  sc_label_from :: "string \<Rightarrow> string"

definition HKDF_MNEMONIC_INFO :: bytes where
  "HKDF_MNEMONIC_INFO = str_bytes ''yubihsm setup BIP39 derivation''"

definition DERIVATION_VERSION :: bytes where
  "DERIVATION_VERSION = str_bytes ''1''"

definition KEY_SIZE :: nat where
  "KEY_SIZE = 32"

definition ADMIN_ROLE_NAME :: string where "ADMIN_ROLE_NAME = ''admin''"
definition OPERATOR_ROLE_NAME :: string where "OPERATOR_ROLE_NAME = ''operator''"
definition AUDITOR_ROLE_NAME :: string where "AUDITOR_ROLE_NAME = ''auditor''"
definition VALIDATOR_ROLE_NAME :: string where "VALIDATOR_ROLE_NAME = ''validator''"

definition subtract_panic :: panic_payload where
  "subtract_panic = Payload_str ''attempt to subtract with overflow''"

definition root_path_panic :: panic_payload where
  "root_path_panic = Payload_str ''cannot derive keys for the root path''"

definition setup_panic :: panic_payload where
  "setup_panic = Payload_String ''called `Result::unwrap()` on an `Err` value''"

definition slice_panic :: panic_payload where
  "slice_panic = Payload_String ''range end index out of range for slice''"

text \<open>
  One component: its length less one in a byte, which wraps for more than 256 bytes, and the
  component; the subtraction is checked.
\<close>

definition path_component :: "bytes \<Rightarrow> (nat, bytes) outcome" where
  "path_component component =
     (if component = [] then Panicked subtract_panic
      else Done (word_of_nat (length component - 1) # component))"

fun path_components_bytes :: "bytes list \<Rightarrow> (nat, bytes) outcome" where
  "path_components_bytes [] = Done []"
| "path_components_bytes (c # cs) =
     obind (path_component c) (\<lambda>b. obind (path_components_bytes cs) (\<lambda>bs. Done (b @ bs)))"

definition construct_derivation_path :: "bytes list \<Rightarrow> (nat, bytes) outcome" where
  "construct_derivation_path path =
     obind (path_component DERIVATION_VERSION) (\<lambda>version.
     obind (path_components_bytes path) (\<lambda>bs. Done (version @ bs)))"

definition derive_secret_from_mnemonic ::
  "setup_crates \<Rightarrow> mnemonic \<Rightarrow> bytes list \<Rightarrow> (nat, bytes) outcome" where
  "derive_secret_from_mnemonic sc mnemonic path =
     (if path = [] then Panicked root_path_panic
      else obind (unwrap_or_panic setup_panic (sc_key_material sc (mn_entropy mnemonic))) (\<lambda>ikm.
           obind (construct_derivation_path path) (\<lambda>path_bytes.
           obind (unwrap_or_panic setup_panic (sc_path_new sc path_bytes)) (\<lambda>p.
             Done (sc_derive_subkey sc ikm p)))))"

definition serialize_key_id :: "u16 \<Rightarrow> string" where
  "serialize_key_id key_id = ''0x'' @ show_hex4 key_id"

definition role_password :: "setup_crates \<Rightarrow> mnemonic \<Rightarrow> string \<Rightarrow> (nat, string) outcome" where
  "role_password sc mnemonic role_name =
     obind (derive_secret_from_mnemonic sc mnemonic [str_bytes ''role'', str_bytes role_name]) (\<lambda>secret_key.
       if length secret_key < KEY_SIZE div 2 then Panicked slice_panic
       else Done (sc_bech32_encode sc (''kms-'' @ role_name @ ''-password-'') (take (KEY_SIZE div 2) secret_key)))"

section \<open>Roles and the wrap key\<close>

text \<open>
  The capabilities that the source names; the device has more, and \<^verbatim>\<open>Capability::all()\<close> is all of
  them.  The same for the domains.
\<close>

datatype capability =
  GENERATE_ASYMMETRIC_KEY | PUT_ASYMMETRIC_KEY | GENERATE_HMAC_KEY | PUT_HMAC_KEY | IMPORT_WRAPPED
  | EXPORT_WRAPPED | GET_OPAQUE | GET_OPTION | PUT_OPTION | GET_LOG_ENTRIES | SIGN_ATTESTATION_CERTIFICATE
  | SIGN_ECDSA | SIGN_EDDSA | WRAP_DATA | UNWRAP_DATA | EXPORTABLE_UNDER_WRAP | Other_capability nat

datatype domain = DOM1 | Other_domain nat

record role =
  ro_key_id :: u16
  ro_password :: bytes
  ro_label :: string
  ro_capabilities :: "capability set"
  ro_delegated_capabilities :: "capability set"
  ro_domains :: "domain set"

record wrap_key =
  wk_id :: u16
  wk_secret :: bytes
  wk_label :: string
  wk_capabilities :: "capability set"
  wk_delegated_capabilities :: "capability set"
  wk_domains :: "domain set"

text \<open>The time stamp of a label is the one at the moment the object of that name is made.\<close>

definition create_object_label :: "setup_crates \<Rightarrow> (string \<Rightarrow> string) \<Rightarrow> string \<Rightarrow> string" where
  "create_object_label sc now label_prefix = sc_label_from sc (label_prefix @ '':'' @ now label_prefix)"

definition derive_role_from_mnemonic ::
  "setup_crates \<Rightarrow> (string \<Rightarrow> string) \<Rightarrow> mnemonic \<Rightarrow> u16 \<Rightarrow> string
     \<Rightarrow> capability set \<Rightarrow> capability set \<Rightarrow> domain set \<Rightarrow> (nat, role) outcome" where
  "derive_role_from_mnemonic sc now mnemonic key_id role_name caps delegated domains =
     obind (role_password sc mnemonic role_name) (\<lambda>password.
       Done \<lparr>ro_key_id = key_id, ro_password = str_bytes password, ro_label = create_object_label sc now role_name,
         ro_capabilities = caps, ro_delegated_capabilities = delegated, ro_domains = domains\<rparr>)"

definition derive_admin_role_from_mnemonic :: "setup_crates \<Rightarrow> (string \<Rightarrow> string) \<Rightarrow> mnemonic \<Rightarrow> role" where
  "derive_admin_role_from_mnemonic sc now mnemonic =
     \<lparr>ro_key_id = 1, ro_password = str_bytes (mn_phrase mnemonic),
      ro_label = create_object_label sc now ADMIN_ROLE_NAME,
      ro_capabilities = UNIV, ro_delegated_capabilities = UNIV, ro_domains = UNIV\<rparr>"

definition derive_roles_from_mnemonic ::
  "setup_crates \<Rightarrow> (string \<Rightarrow> string) \<Rightarrow> mnemonic \<Rightarrow> (nat, role list) outcome" where
  "derive_roles_from_mnemonic sc now mnemonic =
     (let admin_role = derive_admin_role_from_mnemonic sc now mnemonic
      in obind (derive_role_from_mnemonic sc now mnemonic 2 OPERATOR_ROLE_NAME
             {GENERATE_ASYMMETRIC_KEY, PUT_ASYMMETRIC_KEY, GENERATE_HMAC_KEY, PUT_HMAC_KEY, IMPORT_WRAPPED,
              EXPORT_WRAPPED, GET_OPAQUE, GET_OPTION, GET_LOG_ENTRIES, SIGN_ATTESTATION_CERTIFICATE} UNIV UNIV)
         (\<lambda>operator_role.
         obind (derive_role_from_mnemonic sc now mnemonic 3 AUDITOR_ROLE_NAME
             {GET_LOG_ENTRIES, GET_OPTION, PUT_OPTION, GET_OPAQUE} {} UNIV) (\<lambda>auditor_role.
         obind (derive_role_from_mnemonic sc now mnemonic 4 VALIDATOR_ROLE_NAME
             {SIGN_ECDSA, SIGN_EDDSA, SIGN_ATTESTATION_CERTIFICATE, GET_LOG_ENTRIES} {} {DOM1}) (\<lambda>validator_role.
           Done [admin_role, operator_role, auditor_role, validator_role]))))"

definition wrap_key_path :: "u16 \<Rightarrow> bytes list" where
  "wrap_key_path key_id = [str_bytes ''wrap'', str_bytes (serialize_key_id key_id)]"

definition derive_wrap_key_from_mnemonic ::
  "setup_crates \<Rightarrow> (string \<Rightarrow> string) \<Rightarrow> mnemonic \<Rightarrow> u16 \<Rightarrow> (nat, wrap_key) outcome" where
  "derive_wrap_key_from_mnemonic sc now mnemonic key_id =
     obind (derive_secret_from_mnemonic sc mnemonic (wrap_key_path key_id)) (\<lambda>secret.
       if sc_wrap_key_ok sc secret
       then Done \<lparr>wk_id = key_id, wk_secret = secret, wk_label = create_object_label sc now ''primary'',
         wk_capabilities = {EXPORT_WRAPPED, IMPORT_WRAPPED, WRAP_DATA, UNWRAP_DATA},
         wk_delegated_capabilities = UNIV, wk_domains = UNIV\<rparr>
       else Panicked setup_panic)"

section \<open>The terminal\<close>

text \<open>\<^verbatim>\<open>split_whitespace\<close> on ASCII text: the longest pieces without white space.\<close>

function split_whitespace :: "string \<Rightarrow> string list" where
  "split_whitespace [] = []"
| "split_whitespace (c # s) =
     (if is_space c then split_whitespace s
      else (c # takeWhile (\<lambda>x. \<not> is_space x) s) # split_whitespace (dropWhile (\<lambda>x. \<not> is_space x) s))"
  by pat_completeness auto

termination
  by (relation "measure length") (auto simp: le_imp_less_Suc length_dropWhile_le)

definition trim :: "string \<Rightarrow> string" where
  "trim s = dropWhile is_space (trim_end s)"

text \<open>
  The answers to the calls of one run: opening a client, the device information, the random bytes
  of the device and of the host, the lines that are typed, the erasure, and the report file.
\<close>

record setup_io =
  si_open :: "connector \<Rightarrow> credentials \<Rightarrow> bool"
  si_serial_number :: "string option"
  si_hsm_random :: "bytes option"
  si_os_random :: "nat \<Rightarrow> bytes option"
  si_mnemonic_line :: "string option"
  si_approval_line :: "string option"
  si_erase :: "string option"
  si_report_create :: bool
  si_report_write :: bool
  si_now :: "string \<Rightarrow> string"

record setup_profile =
  pf_audit_off :: bool
  pf_roles :: "role list"
  pf_wrap_keys :: "wrap_key list"

record setup_state =
  su_out :: "string list"
  su_erase_calls :: "(credentials \<times> setup_profile) list"
  su_reports :: "path \<rightharpoonup> string"

record setup_command =
  su_print_only :: bool
  su_restore :: bool
  su_write_report :: "path option"

type_synonym 'a setup_result = "(setup_state, nat, 'a) run"

definition println :: "string \<Rightarrow> setup_state \<Rightarrow> setup_state" where
  "println l s = s\<lparr>su_out := su_out s @ [l]\<rparr>"

definition printlns :: "string list \<Rightarrow> setup_state \<Rightarrow> setup_state" where
  "printlns ls s = s\<lparr>su_out := su_out s @ ls\<rparr>"

definition io_panic :: panic_payload where
  "io_panic = Payload_String ''error reading mnemonic from STDIN!''"

definition read_mnemonic_from_stdin :: "setup_crates \<Rightarrow> setup_io \<Rightarrow> string \<Rightarrow> setup_state \<Rightarrow> mnemonic setup_result" where
  "read_mnemonic_from_stdin sc io prompt s =
     rbind (println prompt s, unwrap_or_panic io_panic (si_mnemonic_line io)) (\<lambda>s input_string.
     rbind (s, ok_or 1 (sc_phrase_new sc (join_with '' '' (split_whitespace input_string)))) (\<lambda>s result.
       (printlns [[], ''Mnemonic phrase decoded/checksummed successfully!'', []] s, Done result)))"

text \<open>The configured credentials, and a client opened with them.\<close>

definition configured_credentials :: "hsm_env \<Rightarrow> kms_config \<Rightarrow> (nat, credentials) outcome" where
  "configured_credentials env config =
     obind (hsm_config config) (\<lambda>cfg. auth_credentials (he_files env) (yc_auth cfg))"

definition get_hsm_client :: "hsm_env \<Rightarrow> kms_config \<Rightarrow> setup_io \<Rightarrow> connector \<Rightarrow> (nat, unit) outcome" where
  "get_hsm_client env config io hsm_connector =
     obind (configured_credentials env config) (\<lambda>credentials.
       if si_open io hsm_connector credentials then Done () else Failed 1)"

definition generate_mnemonic_from_hsm_and_os_csprngs ::
  "setup_crates \<Rightarrow> hsm_env \<Rightarrow> kms_config \<Rightarrow> setup_io \<Rightarrow> connector \<Rightarrow> (nat, mnemonic) outcome" where
  "generate_mnemonic_from_hsm_and_os_csprngs sc env config io hsm_connector =
     obind (get_hsm_client env config io hsm_connector) (\<lambda>_.
     obind (ok_or 1 (si_hsm_random io)) (\<lambda>hsm_ikm.
       let ikm = hsm_ikm @ replicate KEY_SIZE 0
       in obind (unwrap_or_panic setup_panic (si_os_random io (length ikm - KEY_SIZE))) (\<lambda>os_ikm.
            Done (sc_phrase_from_entropy sc (sc_hkdf_expand sc (take KEY_SIZE ikm @ os_ikm) HKDF_MNEMONIC_INFO)))))"

definition print_mnemonic :: "mnemonic \<Rightarrow> string list" where
  "print_mnemonic mnemonic =
     (let words = split_on CHR '' '' (mn_phrase mnemonic);
          n = length words div 2
      in map (\<lambda>word_group. ''    '' @ join_with '' '' word_group) [take n words, drop n words])"

definition approval_panic :: panic_payload where
  "approval_panic = Payload_String ''Failed to read user input''"

definition prompt_for_user_approval :: "setup_io \<Rightarrow> string \<Rightarrow> setup_state \<Rightarrow> unit setup_result" where
  "prompt_for_user_approval io prompt s =
     rbind (printlns [[], ''*** '' @ prompt @ '' (y/N): ''] s, unwrap_or_panic approval_panic (si_approval_line io))
       (\<lambda>s choice_in.
         let choice = trim choice_in
         in if choice \<noteq> ''y'' \<and> choice \<noteq> ''Y'' then (println ''Aborting'' s, Failed 1) else (s, Done ()))"

section \<open>The command\<close>

text \<open>The keys and passwords that one run derives.\<close>

record derived_keys =
  dk_profile :: setup_profile
  dk_operator :: string
  dk_auditor :: string
  dk_validator :: string
  dk_wrapkey :: string

definition derive_keys :: "setup_crates \<Rightarrow> (string \<Rightarrow> string) \<Rightarrow> mnemonic \<Rightarrow> (nat, derived_keys) outcome" where
  "derive_keys sc now mnemonic =
     obind (derive_roles_from_mnemonic sc now mnemonic) (\<lambda>roles.
     obind (derive_wrap_key_from_mnemonic sc now mnemonic 1) (\<lambda>wrap_key.
     obind (role_password sc mnemonic OPERATOR_ROLE_NAME) (\<lambda>operator_password.
     obind (role_password sc mnemonic AUDITOR_ROLE_NAME) (\<lambda>auditor_password.
     obind (role_password sc mnemonic VALIDATOR_ROLE_NAME) (\<lambda>validator_password.
     obind (derive_secret_from_mnemonic sc mnemonic (wrap_key_path 1)) (\<lambda>wrapkey_material.
       Done \<lparr>dk_profile = \<lparr>pf_audit_off = True, pf_roles = roles, pf_wrap_keys = [wrap_key]\<rparr>,
         dk_operator = operator_password, dk_auditor = auditor_password, dk_validator = validator_password,
         dk_wrapkey = sc_hex_encode sc wrapkey_material\<rparr>))))))"

definition key_report :: "setup_command \<Rightarrow> string \<Rightarrow> mnemonic \<Rightarrow> derived_keys \<Rightarrow> string list" where
  "key_report self serial mnemonic keys =
     (if su_print_only self then
        (if su_restore self
         then [''Below are all keys/passwords derived from your 24-word admin mnemonic:'']
         else [''Below is a randomly generated 24-word admin mnemonic and derived keys/passwords:''])
      else [''This process will *ERASE* the configured YubiHSM2 and reinitialize it:'', [],
            ''- YubiHSM serial: '' @ serial, [],
            ''Authentication keys with the following IDs and passwords will be created:'']) @
     [[], ''- key 0x0001: admin:'', []] @ print_mnemonic mnemonic @
     [[], ''- authkey 0x0002 [operator]:  '' @ dk_operator keys,
      ''- authkey 0x0003 [auditor]:   '' @ dk_auditor keys,
      ''- authkey 0x0004 [validator]: '' @ dk_validator keys,
      ''- wrapkey 0x0001 [primary]:   '' @ dk_wrapkey keys]"

definition setup_mnemonic ::
  "setup_crates \<Rightarrow> hsm_env \<Rightarrow> kms_config \<Rightarrow> setup_io \<Rightarrow> connector \<Rightarrow> setup_command \<Rightarrow> setup_state
     \<Rightarrow> mnemonic setup_result" where
  "setup_mnemonic sc env config io hsm_connector self s =
     (if su_restore self
      then read_mnemonic_from_stdin sc io ''*** Enter mnemonic (separate words with spaces): ''
             (printlns [''Restoring and reprovisioning YubiHSM from existing 24-word mnemonic phrase.'', []] s)
      else (s, generate_mnemonic_from_hsm_and_os_csprngs sc env config io hsm_connector))"

definition report_panic :: panic_payload where
  "report_panic = Payload_String ''couldn't create report file''"

definition report_write_panic :: panic_payload where
  "report_write_panic = Payload_String ''error writing report''"

definition setup_write_report :: "setup_io \<Rightarrow> setup_command \<Rightarrow> string \<Rightarrow> setup_state \<Rightarrow> unit setup_result" where
  "setup_write_report io self report s =
     (case su_write_report self of
        None \<Rightarrow> (s, Done ())
      | Some report_path \<Rightarrow>
          if \<not> si_report_create io then (s, Panicked report_panic)
          else if \<not> si_report_write io then (s\<lparr>su_reports := (su_reports s)(report_path \<mapsto> [])\<rparr>, Panicked report_write_panic)
          else (s\<lparr>su_reports := (su_reports s)(report_path \<mapsto> report)\<rparr>, Done ()))"

text \<open>The part after the keys were printed.\<close>

definition setup_install ::
  "hsm_env \<Rightarrow> kms_config \<Rightarrow> setup_io \<Rightarrow> setup_command \<Rightarrow> setup_profile \<Rightarrow> setup_state \<Rightarrow> unit setup_result" where
  "setup_install env config io self profile s =
     rbind (prompt_for_user_approval io ''Are you SURE you want erase and reinitialize this HSM?'' s) (\<lambda>s _.
     rbind (s, configured_credentials env config) (\<lambda>s credentials.
     rbind (s\<lparr>su_erase_calls := su_erase_calls s @ [(credentials, profile)]\<rparr>, ok_or 1 (si_erase io))
       (\<lambda>s report. setup_write_report io self report s)))"

definition setup_run ::
  "setup_crates \<Rightarrow> hsm_env \<Rightarrow> kms_config \<Rightarrow> setup_io \<Rightarrow> setup_command \<Rightarrow> setup_state \<Rightarrow> unit setup_result" where
  "setup_run sc env config io self s =
     rbind (s, init_connector env config) (\<lambda>s (hsm_connector, _).
     rbind (s, get_hsm_client env config io hsm_connector) (\<lambda>s _.
     rbind (s, unwrap_or_panic setup_panic (si_serial_number io)) (\<lambda>s serial.
     rbind (setup_mnemonic sc env config io hsm_connector self s) (\<lambda>s mnemonic.
     rbind (s, derive_keys sc (si_now io) mnemonic) (\<lambda>s keys.
       let s = printlns (key_report self serial mnemonic keys) s
       in if su_print_only self then (s, Failed 0)
          else setup_install env config io self (dk_profile keys) s)))))"

section \<open>Derivation paths\<close>

lemma path_component_inj:
  assumes "path_component c = Done b" "path_component d = Done e" "b @ x = e @ y"
    and "length c \<le> 256" "length d \<le> 256"
  shows "c = d \<and> x = y"
proof -
  have c: "c \<noteq> []" "b = word_of_nat (length c - 1) # c" and d: "d \<noteq> []" "e = word_of_nat (length d - 1) # d"
    using assms(1,2) by (auto simp: path_component_def split: if_splits)
  then have head: "(word_of_nat (length c - 1) :: u8) = word_of_nat (length d - 1)" and tail: "c @ x = d @ y"
    using assms(3) by auto
  have "unat (word_of_nat (length c - 1) :: u8) = length c - 1" "unat (word_of_nat (length d - 1) :: u8) = length d - 1"
    using assms(4,5) by (simp_all add: unat_of_nat)
  then have "length c - 1 = length d - 1" using head by metis
  then have "length c = length d" using c(1) d(1) by (cases c; cases d) auto
  then show ?thesis using tail by simp
qed

lemma path_components_bytes_inj:
  "path_components_bytes p = Done b \<Longrightarrow> path_components_bytes q = Done b \<Longrightarrow>
     \<forall>c \<in> set p \<union> set q. length c \<le> 256 \<Longrightarrow> p = q"
proof (induction p arbitrary: q b)
  case Nil
  then show ?case by (cases q) (auto simp: obind_Done_iff path_component_def split: if_splits)
next
  case (Cons c p)
  then obtain d q' where q: "q = d # q'"
    by (cases q) (auto simp: obind_Done_iff path_component_def split: if_splits)
  obtain b1 b2 where b: "path_component c = Done b1" "path_components_bytes p = Done b2" "b = b1 @ b2"
    using Cons.prems(1) by (auto simp: obind_Done_iff)
  obtain e1 e2 where e: "path_component d = Done e1" "path_components_bytes q' = Done e2" "b = e1 @ e2"
    using Cons.prems(2) q by (auto simp: obind_Done_iff)
  have "c = d" "b2 = e2" using path_component_inj [OF b(1) e(1), of b2 e2] b(3) e(3) Cons.prems(3) q by auto
  then show ?case using Cons.IH [OF b(2), of q'] e(2) Cons.prems(3) q by auto
qed

lemma path_components_bytes_Done: "(\<exists>b. path_components_bytes p = Done b) \<longleftrightarrow> [] \<notin> set p"
  by (induction p) (auto simp: obind_Done_iff path_component_def)

text \<open>A component of 257 bytes is written like one of a single byte: two paths with the same bytes.\<close>

lemma long_component_ambiguous:
  "construct_derivation_path [[0, 254] @ replicate 255 0] = construct_derivation_path [[0], replicate 255 0]"
  by code_simp

text \<open>
  C33: as long as no component is longer than 256 bytes, the bytes of a derivation path determine its
  components, so that no two keys or passwords of different names are derived from the same path; a path
  has bytes exactly when none of its components is empty.  The bound is needed, since the length of a
  component is cut to one byte; the components that the program uses (versions, roles, key IDs) are short.
\<close>

theorem derivation_path_injective:
  assumes "\<forall>c \<in> set p \<union> set q. length c \<le> 256"
  shows "(construct_derivation_path p = Done b \<and> construct_derivation_path q = Done b \<longrightarrow> p = q) \<and>
    ((\<exists>b. construct_derivation_path p = Done b) \<longleftrightarrow> [] \<notin> set p)"
proof -
  have "path_component DERIVATION_VERSION = Done (0 # DERIVATION_VERSION)"
    by (simp add: path_component_def DERIVATION_VERSION_def str_bytes_def)
  then show ?thesis
    using path_components_bytes_inj [OF _ _ assms] path_components_bytes_Done [of p]
    by (auto simp: construct_derivation_path_def obind_Done_iff)
qed

theorem derivation_path_injective_witness:
  "\<exists>b d. construct_derivation_path [str_bytes ''role'', str_bytes ''operator''] = Done b \<and>
     construct_derivation_path (wrap_key_path 1) = Done d \<and> b \<noteq> d"
proof -
  have short: "\<forall>c \<in> set [str_bytes ''role'', str_bytes ''operator''] \<union> set (wrap_key_path 1). length c \<le> 256"
    by (simp add: str_bytes_def wrap_key_path_def serialize_key_id_def show_hex4_def Let_def)
  have "\<exists>b. construct_derivation_path [str_bytes ''role'', str_bytes ''operator''] = Done b"
    using derivation_path_injective [OF short] by (simp add: str_bytes_def)
  moreover have "\<exists>d. construct_derivation_path (wrap_key_path 1) = Done d"
    using derivation_path_injective [of "wrap_key_path 1" "[]"] short
    by (simp add: str_bytes_def wrap_key_path_def serialize_key_id_def)
  moreover have "[str_bytes ''role'', str_bytes ''operator''] \<noteq> wrap_key_path 1"
    by (simp add: str_bytes_def wrap_key_path_def)
  ultimately show ?thesis using derivation_path_injective [OF short] by blast
qed

section \<open>Printing and restoring a phrase\<close>

lemma split_whitespace_append:
  "is_space c \<Longrightarrow> split_whitespace (a @ c # b) = split_whitespace a @ split_whitespace b"
proof (induction a rule: split_whitespace.induct)
  case (2 d s)
  have *: "takeWhile (\<lambda>x. \<not> is_space x) (s @ c # b) = takeWhile (\<lambda>x. \<not> is_space x) s"
    "dropWhile (\<lambda>x. \<not> is_space x) (s @ c # b) = dropWhile (\<lambda>x. \<not> is_space x) s @ c # b"
    using \<open>is_space c\<close> by (induction s) auto
  show ?case using 2 by (simp add: *)
qed simp

lemma split_whitespace_word:
  assumes "w \<noteq> []" "\<forall>c \<in> set w. \<not> is_space c"
  shows "split_whitespace w = [w]"
proof (cases w)
  case (Cons c s)
  then have *: "takeWhile (\<lambda>x. \<not> is_space x) s = s" "dropWhile (\<lambda>x. \<not> is_space x) s = []"
    using assms(2) by (auto simp: takeWhile_eq_all_conv)
  show ?thesis using Cons assms(2) by (simp add: *)
qed (use assms in simp)

definition plain_word :: "string \<Rightarrow> bool" where
  "plain_word w \<longleftrightarrow> w \<noteq> [] \<and> (\<forall>c \<in> set w. \<not> is_space c)"

lemma split_whitespace_join:
  "\<forall>w \<in> set ws. plain_word w \<Longrightarrow> split_whitespace (join_with '' '' ws) = ws"
proof (induction ws rule: induct_list012)
  case (3 v w ws)
  then show ?case
    using split_whitespace_append [of "CHR '' ''" v "join_with '' '' (w # ws)"] split_whitespace_word [of v]
    by (simp add: is_space_def plain_word_def)
qed (simp_all add: split_whitespace_word plain_word_def)

lemma join_split_on: "join_with [c] (split_on c s) = s"
proof (induction s)
  case (Cons x s)
  then show ?case by (cases "split_on c s" rule: list.exhaust; cases "tl (split_on c s)") auto
qed simp

text \<open>
  The two printed lines of a phrase, typed in one after the other, restore the phrase, and
  with it every password and key, as long as the phrase is a list of words and decodes to itself.
\<close>

theorem printed_phrase_restores:
  assumes "sc_phrase_new sc (mn_phrase m) = Some m"
    and "\<forall>w \<in> set (split_on CHR '' '' (mn_phrase m)). plain_word w"
    and "si_mnemonic_line io = Some (concat (map (\<lambda>l. l @ '' '') (print_mnemonic m)))"
  shows "snd (read_mnemonic_from_stdin sc io prompt s) = Done m"
proof -
  let ?ws = "split_on CHR '' '' (mn_phrase m)" and ?n = "length (split_on CHR '' '' (mn_phrase m)) div 2"
  have sp: "is_space CHR '' ''" by (simp add: is_space_def)
  have "split_whitespace (join_with '' '' (take ?n ?ws)) = take ?n ?ws"
    and "split_whitespace (join_with '' '' (drop ?n ?ws)) = drop ?n ?ws"
    using assms(2) by (auto intro!: split_whitespace_join dest: in_set_takeD in_set_dropD)
  then have "split_whitespace (concat (map (\<lambda>l. l @ '' '') (print_mnemonic m))) = ?ws"
    using split_whitespace_append [OF sp, of "join_with '' '' (take ?n ?ws)"
        "''    '' @ join_with '' '' (drop ?n ?ws) @ '' ''"]
      split_whitespace_append [OF sp, of "join_with '' '' (drop ?n ?ws)" "[]"] sp
    by (simp add: print_mnemonic_def Let_def)
  then show ?thesis
    using assms(1,3) join_split_on [of "CHR '' ''" "mn_phrase m"]
    by (simp add: read_mnemonic_from_stdin_def)
qed

section \<open>Erasing the device\<close>

lemma rbind_reaches:
  "rbind x f = (s', r) \<Longrightarrow> P s' \<Longrightarrow> \<not> P (fst x) \<Longrightarrow> \<exists>s a. x = (s, Done a) \<and> f s a = (s', r)"
  by (cases x; cases "snd x") auto

lemma println_erase_calls [simp]:
  "su_erase_calls (println l s) = su_erase_calls s" "su_erase_calls (printlns ls s) = su_erase_calls s"
  by (simp_all add: println_def printlns_def)

lemma rbind_erase_calls:
  assumes "su_erase_calls (fst x) = su_erase_calls s"
    and "\<And>t a. x = (t, Done a) \<Longrightarrow> su_erase_calls (fst (f t a)) = su_erase_calls s"
  shows "su_erase_calls (fst (rbind x f)) = su_erase_calls s"
  using assms by (cases x; cases "snd x") auto

lemma setup_mnemonic_erase_calls [simp]:
  "su_erase_calls (fst (setup_mnemonic sc env config io c self s)) = su_erase_calls s"
  unfolding setup_mnemonic_def read_mnemonic_from_stdin_def
  by (auto intro!: rbind_erase_calls)

lemma prompt_erase_calls [simp]:
  "su_erase_calls (fst (prompt_for_user_approval io p s)) = su_erase_calls s"
  unfolding prompt_for_user_approval_def by (auto simp: Let_def intro!: rbind_erase_calls)

lemma setup_write_report_frame:
  "setup_write_report io self report s = (s', r) \<Longrightarrow> su_erase_calls s' = su_erase_calls s \<and> su_out s' = su_out s"
  by (auto simp: setup_write_report_def split: option.splits if_splits)

lemma prompt_approved:
  assumes "prompt_for_user_approval io p s = (s', Done ())"
  shows "\<exists>line. si_approval_line io = Some line \<and> trim line \<in> {''y'', ''Y''}" and "prefix (su_out s) (su_out s')"
  using assms
  by (auto simp: prompt_for_user_approval_def printlns_def Let_def dest!: rbind_DoneD split: if_splits)

text \<open>What one run derives is consistent: the printed passwords are those of the roles.\<close>

lemma derive_roles_match:
  assumes "derive_roles_from_mnemonic sc now m = Done roles"
    and "role_password sc m OPERATOR_ROLE_NAME = Done op" and "role_password sc m AUDITOR_ROLE_NAME = Done aud"
    and "role_password sc m VALIDATOR_ROLE_NAME = Done val"
  shows "map (\<lambda>r. (ro_key_id r, ro_password r)) roles =
    [(1, str_bytes (mn_phrase m)), (2, str_bytes op), (3, str_bytes aud), (4, str_bytes val)]"
  using assms(1)
  by (simp add: derive_roles_from_mnemonic_def derive_role_from_mnemonic_def Let_def assms(2-4)
      derive_admin_role_from_mnemonic_def) auto

lemma derive_wrap_key_match:
  assumes "derive_wrap_key_from_mnemonic sc now m k = Done wk"
    and "derive_secret_from_mnemonic sc m (wrap_key_path k) = Done b"
  shows "wk_id wk = k \<and> wk_secret wk = b"
  using assms by (auto simp: derive_wrap_key_from_mnemonic_def split: if_splits)

lemma derive_keys_match:
  assumes "derive_keys sc now m = Done keys"
  shows "map (\<lambda>r. (ro_key_id r, ro_password r)) (pf_roles (dk_profile keys)) =
      [(1, str_bytes (mn_phrase m)), (2, str_bytes (dk_operator keys)), (3, str_bytes (dk_auditor keys)),
       (4, str_bytes (dk_validator keys))] \<and>
    map (\<lambda>k. (wk_id k, sc_hex_encode sc (wk_secret k))) (pf_wrap_keys (dk_profile keys)) = [(1, dk_wrapkey keys)]"
proof -
  obtain roles wk b where roles: "derive_roles_from_mnemonic sc now m = Done roles"
    and wk: "derive_wrap_key_from_mnemonic sc now m 1 = Done wk"
    and pw: "role_password sc m OPERATOR_ROLE_NAME = Done (dk_operator keys)"
      "role_password sc m AUDITOR_ROLE_NAME = Done (dk_auditor keys)"
      "role_password sc m VALIDATOR_ROLE_NAME = Done (dk_validator keys)"
    and b: "derive_secret_from_mnemonic sc m (wrap_key_path 1) = Done b" "dk_wrapkey keys = sc_hex_encode sc b"
    and keys: "pf_roles (dk_profile keys) = roles" "pf_wrap_keys (dk_profile keys) = [wk]"
    using assms unfolding derive_keys_def by (auto dest!: obind_DoneD)
  show ?thesis
    using derive_roles_match [OF roles pw] derive_wrap_key_match [OF wk b(1)] by (simp add: keys b(2))
qed

lemma setup_install_erases:
  assumes run: "setup_install env config io self profile s = (s', r)" and "su_erase_calls s' \<noteq> su_erase_calls s"
  shows "(\<exists>line. si_approval_line io = Some line \<and> trim line \<in> {''y'', ''Y''}) \<and> prefix (su_out s) (su_out s') \<and>
    (\<exists>creds. configured_credentials env config = Done creds \<and>
      su_erase_calls s' = su_erase_calls s @ [(creds, profile)])"
proof -
  note reach = rbind_reaches [where P = "\<lambda>t. su_erase_calls t \<noteq> su_erase_calls s", OF _ assms(2)]
  obtain t where ask: "prompt_for_user_approval io ''Are you SURE you want erase and reinitialize this HSM?'' s = (t, Done ())"
    and 1: "rbind (t, configured_credentials env config) (\<lambda>s credentials.
       rbind (s\<lparr>su_erase_calls := su_erase_calls s @ [(credentials, profile)]\<rparr>, ok_or 1 (si_erase io))
         (\<lambda>s report. setup_write_report io self report s)) = (s', r)"
    using reach [OF run [unfolded setup_install_def]] by auto
  have t: "su_erase_calls t = su_erase_calls s" using prompt_erase_calls [of io _ s] ask by (metis fst_conv)
  obtain creds where creds: "configured_credentials env config = Done creds"
    and 2: "rbind (t\<lparr>su_erase_calls := su_erase_calls t @ [(creds, profile)]\<rparr>, ok_or 1 (si_erase io))
      (\<lambda>s report. setup_write_report io self report s) = (s', r)"
    using reach [OF 1] t by auto
  have "su_erase_calls s' = su_erase_calls t @ [(creds, profile)] \<and> su_out s' = su_out t"
    using 2 by (cases "si_erase io") (auto dest: setup_write_report_frame)
  then show ?thesis using prompt_approved [OF ask] creds t by simp
qed

lemma sublist_printed: "prefix (su_out (printlns ls s)) out \<Longrightarrow> sublist ls out"
  unfolding printlns_def prefix_def by auto

text \<open>
  C31: the device is erased only when printing was not all that was asked for and the user
  answered yes; it is erased once, with the configured credentials, after the passwords of all
  roles and the wrap key were printed, and what is installed are exactly the printed ones.
\<close>

theorem setup_erases_with_consent:
  assumes "setup_run sc env config io self s = (s', r)" and "su_erase_calls s' \<noteq> su_erase_calls s"
  shows "\<not> su_print_only self \<and>
    (\<exists>line. si_approval_line io = Some line \<and> trim line \<in> {''y'', ''Y''}) \<and>
    (\<exists>creds m keys serial. configured_credentials env config = Done creds \<and>
       derive_keys sc (si_now io) m = Done keys \<and>
       su_erase_calls s' = su_erase_calls s @ [(creds, dk_profile keys)] \<and>
       sublist (key_report self serial m keys) (su_out s') \<and>
       map (\<lambda>r. (ro_key_id r, ro_password r)) (pf_roles (dk_profile keys)) =
         [(1, str_bytes (mn_phrase m)), (2, str_bytes (dk_operator keys)), (3, str_bytes (dk_auditor keys)),
          (4, str_bytes (dk_validator keys))] \<and>
       map (\<lambda>k. (wk_id k, sc_hex_encode sc (wk_secret k))) (pf_wrap_keys (dk_profile keys)) = [(1, dk_wrapkey keys)])"
proof -
  note reach = rbind_reaches [where P = "\<lambda>t. su_erase_calls t \<noteq> su_erase_calls s", OF _ assms(2)]
  obtain conn srv where 1: "rbind (s, get_hsm_client env config io conn) (\<lambda>s _.
     rbind (s, unwrap_or_panic setup_panic (si_serial_number io)) (\<lambda>s serial.
     rbind (setup_mnemonic sc env config io conn self s) (\<lambda>s mnemonic.
     rbind (s, derive_keys sc (si_now io) mnemonic) (\<lambda>s keys.
       let s = printlns (key_report self serial mnemonic keys) s
       in if su_print_only self then (s, Failed 0)
          else setup_install env config io self (dk_profile keys) s)))) = (s', r)"
    using reach [OF assms(1) [unfolded setup_run_def]] by auto
  obtain serial where 2: "rbind (setup_mnemonic sc env config io conn self s) (\<lambda>s mnemonic.
     rbind (s, derive_keys sc (si_now io) mnemonic) (\<lambda>s keys.
       let s = printlns (key_report self serial mnemonic keys) s
       in if su_print_only self then (s, Failed 0)
          else setup_install env config io self (dk_profile keys) s)) = (s', r)"
    using reach [OF 1] reach by fastforce
  obtain t m where m: "setup_mnemonic sc env config io conn self s = (t, Done m)"
    and 3: "rbind (t, derive_keys sc (si_now io) m) (\<lambda>s keys.
       let s = printlns (key_report self serial m keys) s
       in if su_print_only self then (s, Failed 0)
          else setup_install env config io self (dk_profile keys) s) = (s', r)"
    using reach [OF 2] by auto
  have t: "su_erase_calls t = su_erase_calls s"
    using setup_mnemonic_erase_calls [of sc env config io conn self s] m by simp
  obtain keys where keys: "derive_keys sc (si_now io) m = Done keys" and po: "\<not> su_print_only self"
    and 4: "setup_install env config io self (dk_profile keys) (printlns (key_report self serial m keys) t) = (s', r)"
    using reach [OF 3] t assms(2) by (auto simp: Let_def split: if_splits)
  from setup_install_erases [OF 4] t assms(2)
  obtain creds where yes: "\<exists>line. si_approval_line io = Some line \<and> trim line \<in> {''y'', ''Y''}"
    and out: "sublist (key_report self serial m keys) (su_out s')" and creds: "configured_credentials env config = Done creds"
    and calls: "su_erase_calls s' = su_erase_calls s @ [(creds, dk_profile keys)]"
    by (auto dest: sublist_printed)
  note match = derive_keys_match [OF keys]
  show ?thesis
    by (intro conjI po yes exI [of _ creds] exI [of _ m] exI [of _ keys] exI [of _ serial] creds keys calls out
        match [THEN conjunct1] match [THEN conjunct2])
qed

text \<open>A world in which the user restores from a phrase and agrees.\<close>

definition setup_sample_crates :: setup_crates where
  "setup_sample_crates = \<lparr>sc_phrase_new = (\<lambda>p. Some \<lparr>mn_phrase = p, mn_entropy = str_bytes p\<rparr>),
     sc_phrase_from_entropy = (\<lambda>e. \<lparr>mn_phrase = map (\<lambda>b. char_of (unat b)) e, mn_entropy = e\<rparr>),
     sc_hkdf_expand = (\<lambda>ikm info. take 32 (ikm @ info)), sc_key_material = Some, sc_path_new = Some,
     sc_derive_subkey = (\<lambda>ikm path. take 32 (path @ ikm @ replicate 32 0)),
     sc_bech32_encode = (\<lambda>hrp b. hrp @ map (\<lambda>x. char_of (unat x)) b),
     sc_hex_encode = map (\<lambda>x. char_of (unat x)), sc_wrap_key_ok = (\<lambda>k. length k = 32), sc_label_from = take 40\<rparr>"

definition setup_sample_io :: setup_io where
  "setup_sample_io = \<lparr>si_open = (\<lambda>_ _. True), si_serial_number = Some ''0123456789'', si_hsm_random = Some (replicate 32 1),
     si_os_random = (\<lambda>n. Some (replicate n 2)), si_mnemonic_line = Some ''    abandon ability     able about '',
     si_approval_line = Some ('' y'' @ [CHR 0x0A]), si_erase = Some ''{}'', si_report_create = True, si_report_write = True,
     si_now = (\<lambda>_. ''now'')\<rparr>"

definition restore_command :: setup_command where
  "restore_command = \<lparr>su_print_only = False, su_restore = True, su_write_report = None\<rparr>"

definition empty_setup :: setup_state where
  "empty_setup = \<lparr>su_out = [], su_erase_calls = [], su_reports = Map.empty\<rparr>"

theorem printed_phrase_restores_witness:
  "snd (read_mnemonic_from_stdin setup_sample_crates setup_sample_io [] empty_setup) =
     Done \<lparr>mn_phrase = ''abandon ability able about'', mn_entropy = str_bytes ''abandon ability able about''\<rparr>"
proof -
  have "\<forall>w \<in> set (split_on CHR '' '' ''abandon ability able about''). plain_word w" by code_simp
  moreover have "concat (map (\<lambda>l. l @ '' '') (print_mnemonic \<lparr>mn_phrase = ''abandon ability able about'',
      mn_entropy = str_bytes ''abandon ability able about''\<rparr>)) = ''    abandon ability     able about ''"
    by code_simp
  ultimately show ?thesis
    by (intro printed_phrase_restores) (simp_all add: setup_sample_crates_def setup_sample_io_def)
qed

lemma setup_sample_credentials:
  "configured_credentials (terminal True) server_kms = Done \<lparr>crd_key_id = 1, crd_password = str_bytes ''secret''\<rparr>"
  by (simp add: configured_credentials_def hsm_config_def server_kms_def server_hsm_def auth_credentials_def)

lemma setup_sample_connector:
  "init_connector (terminal True) server_kms = Done (Http_connector ''localhost'' 12345, None)"
  by (simp add: init_connector_def hsm_config_def terminal_def server_kms_def server_hsm_def connect_http_def)

lemma setup_sample_keys: "\<exists>keys. derive_keys setup_sample_crates now m = Done keys"
  by (simp add: derive_keys_def derive_roles_from_mnemonic_def derive_role_from_mnemonic_def role_password_def
      derive_secret_from_mnemonic_def derive_wrap_key_from_mnemonic_def setup_sample_crates_def wrap_key_path_def
      construct_derivation_path_def path_component_def str_bytes_def serialize_key_id_def show_hex4_def Let_def
      DERIVATION_VERSION_def OPERATOR_ROLE_NAME_def AUDITOR_ROLE_NAME_def VALIDATOR_ROLE_NAME_def KEY_SIZE_def min_def)

lemma setup_sample_erases:
  "su_erase_calls (fst (setup_run setup_sample_crates (terminal True) server_kms setup_sample_io restore_command
     empty_setup)) \<noteq> su_erase_calls empty_setup"
proof -
  have yes: "trim ('' y'' @ [CHR 0x0A]) = ''y''" by code_simp
  obtain k where k: "\<And>m. derive_keys setup_sample_crates (si_now setup_sample_io) m = Done (k m)"
    using setup_sample_keys by metis
  have phrase: "sc_phrase_new setup_sample_crates p = Some \<lparr>mn_phrase = p, mn_entropy = str_bytes p\<rparr>" for p
    by (simp add: setup_sample_crates_def)
  have io: "si_open setup_sample_io c creds" "si_serial_number setup_sample_io = Some ''0123456789''"
    "\<exists>l. si_mnemonic_line setup_sample_io = Some l" "si_approval_line setup_sample_io = Some ('' y'' @ [CHR 0x0A])"
    "si_erase setup_sample_io = Some ''{}''" for c creds
    by (simp_all add: setup_sample_io_def)
  then obtain l where l: "si_mnemonic_line setup_sample_io = Some l" by blast
  have command: "su_restore restore_command" "\<not> su_print_only restore_command" "su_write_report restore_command = None"
    by (simp_all add: restore_command_def)
  show ?thesis
    by (simp add: setup_run_def setup_sample_connector get_hsm_client_def setup_sample_credentials setup_mnemonic_def
        read_mnemonic_from_stdin_def setup_install_def prompt_for_user_approval_def setup_write_report_def
        k phrase io(1,2,4,5) l command yes [simplified] Let_def)
qed

theorem setup_erases_with_consent_witness:
  "\<exists>keys :: derived_keys. su_erase_calls (fst (setup_run setup_sample_crates (terminal True) server_kms setup_sample_io restore_command empty_setup)) =
     [(\<lparr>crd_key_id = 1, crd_password = str_bytes ''secret''\<rparr>, dk_profile keys)] \<and>
     map ro_key_id (pf_roles (dk_profile keys)) = [1, 2, 3, 4]"
proof -
  let ?run = "setup_run setup_sample_crates (terminal True) server_kms setup_sample_io restore_command empty_setup"
  from setup_erases_with_consent [of setup_sample_crates "terminal True" server_kms setup_sample_io restore_command
      empty_setup "fst ?run" "snd ?run", OF surjective_pairing setup_sample_erases]
  obtain creds and keys :: derived_keys and m :: mnemonic
  where creds: "configured_credentials (terminal True) server_kms = Done creds"
    and erased: "su_erase_calls (fst ?run) = su_erase_calls empty_setup @ [(creds, dk_profile keys)]"
    and pw: "map (\<lambda>r. (ro_key_id r, ro_password r)) (pf_roles (dk_profile keys)) =
      [(1, str_bytes (mn_phrase m)), (2, str_bytes (dk_operator keys)), (3, str_bytes (dk_auditor keys)),
       (4, str_bytes (dk_validator keys))]"
    by (elim exE conjE) (rule that, assumption+)
  have "creds = \<lparr>crd_key_id = 1, crd_password = str_bytes ''secret''\<rparr>"
    using creds by (simp add: setup_sample_credentials)
  moreover have "su_erase_calls empty_setup = []" by (simp add: empty_setup_def)
  ultimately show ?thesis using erased arg_cong [OF pw, of "map fst"]
    by (intro exI [of _ keys]) (auto simp: comp_def)
qed

end
