(* ===== verification/Yubihsm_Keys.thy ===== *)
theory Yubihsm_Keys
  imports Yubihsm_Setup "HOL-Library.Multiset"
begin

text \<open>
  The commands \<^verbatim>\<open>tmkms yubihsm keys generate\<close>, \<^verbatim>\<open>import\<close>, \<^verbatim>\<open>export\<close> and \<^verbatim>\<open>list\<close>
  (\<^verbatim>\<open>src/commands/yubihsm/keys.rs\<close> and \<^verbatim>\<open>keys/\<close>), \<^verbatim>\<open>tmkms yubihsm detect\<close> and \<^verbatim>\<open>test\<close>.  What the
  device answers is an argument; the calls that change it are recorded in the state, beside the
  files and what is displayed.  \<^verbatim>\<open>process::exit(n)\<close> is the error \<open>n\<close>.
\<close>

section \<open>The device and the state\<close>

definition DEFAULT_DOMAINS :: "domain set" where "DEFAULT_DOMAINS = {DOM1}"
definition DEFAULT_CAPABILITIES :: "capability set" where "DEFAULT_CAPABILITIES = {SIGN_EDDSA}"
definition DEFAULT_WRAP_KEY :: u16 where "DEFAULT_WRAP_KEY = 1"

text \<open>The algorithms and object types that the source names, and the others.\<close>

datatype hsm_algorithm = EcK256 | Alg_Ed25519 | Other_algorithm nat

datatype object_type = AsymmetricKey | Other_object nat

record object_entry =
  oe_object_id :: u16
  oe_object_type :: object_type

record hsm_device =
  hd_generate :: "u16 \<Rightarrow> bool"
  hd_put :: "u16 \<Rightarrow> bool"
  hd_public_key :: "u16 \<Rightarrow> (hsm_algorithm \<times> bytes) option"
  hd_export_wrapped :: "u16 \<Rightarrow> object_type \<Rightarrow> u16 \<Rightarrow> bytes option"
  hd_import_wrapped :: "u16 \<Rightarrow> bytes \<Rightarrow> object_entry option"
  hd_serial_number :: "string option"
  hd_list_objects :: "object_entry list option"
  hd_object_label :: "u16 \<Rightarrow> string option"

text \<open>
  The crates: object labels, the text of a wrapped message, JSON key files, the compression of a
  public key, hexadecimal text and \<^verbatim>\<open>{:?}\<close>.
\<close>

record hsm_crates =
  hc_label_from :: "string \<Rightarrow> string"
  hc_message_ok :: "bytes \<Rightarrow> bool"
  hc_parse_json :: "string \<Rightarrow> private_key option"
  hc_compress :: "bytes \<Rightarrow> bytes"
  hc_hex :: "public_key \<Rightarrow> string"
  hc_debug_key :: "hsm_algorithm \<Rightarrow> bytes \<Rightarrow> string"
  hc_debug_type :: "object_type \<Rightarrow> string"
  hc_now :: string

datatype hsm_call =
    Generate_asymmetric_key u16 string "domain set" "capability set" hsm_algorithm
  | Put_asymmetric_key u16 string "domain set" "capability set" hsm_algorithm bytes
  | Import_wrapped_call u16 bytes

text \<open>\<^verbatim>\<open>status_ok!\<close>, \<^verbatim>\<open>status_attr_ok!\<close> and \<^verbatim>\<open>status_attr_err!\<close> display an attribute and a text.\<close>

datatype display_line = Plain string | Status_ok string string | Attr_ok string string | Attr_err string

record keys_state =
  km_calls :: "hsm_call list"
  km_files :: file_system
  km_out :: "display_line list"

record keys_env =
  ke_accepts :: "connector \<Rightarrow> credentials \<Rightarrow> bool \<Rightarrow> bool"
  ke_hsm :: hsm_env
  ke_config :: kms_config
  ke_device :: hsm_device
  ke_crates :: hsm_crates
  ke_crypto :: crypto_crate
  ke_display :: key_display
  ke_write :: secret_write

type_synonym 'a keys_run = "(keys_state, nat, 'a) run"

definition display :: "display_line \<Rightarrow> keys_state \<Rightarrow> keys_state" where
  "display l s = s\<lparr>km_out := km_out s @ [l]\<rparr>"

definition call_hsm :: "hsm_call \<Rightarrow> bool \<Rightarrow> keys_state \<Rightarrow> unit keys_run" where
  "call_hsm c accepted s = (s\<lparr>km_calls := km_calls s @ [c]\<rparr>, if accepted then Done () else Failed 1)"

definition hsm_client :: "keys_env \<Rightarrow> (nat, unit) outcome" where
  "hsm_client env = obind (init_client (ke_accepts env) (ke_hsm env) (ke_config env)) (\<lambda>_. Done ())"

definition write_secret :: "keys_env \<Rightarrow> path \<Rightarrow> bytes \<Rightarrow> keys_state \<Rightarrow> unit keys_run" where
  "write_secret env path data s =
     (case write_base64_secret (ke_crypto env) (ke_write env) path data (km_files s) of
        (fs, r) \<Rightarrow> (s\<lparr>km_files := fs\<rparr>, map_err (\<lambda>_. 1) r))"

section \<open>Key identifiers\<close>

text \<open>\<^verbatim>\<open>char::to_digit\<close> and \<^verbatim>\<open>u16::from_str_radix\<close>: a sign alone is refused, so is what does not fit.\<close>

definition to_digit :: "nat \<Rightarrow> char \<Rightarrow> nat option" where
  "to_digit radix c =
     (let n = of_char c :: nat;
          d = (if 48 \<le> n \<and> n \<le> 57 then n - 48
               else if 97 \<le> n \<and> n \<le> 122 then n - 87
               else if 65 \<le> n \<and> n \<le> 90 then n - 55 else radix)
      in if d < radix then Some d else None)"

fun digits_u16 :: "nat \<Rightarrow> nat \<Rightarrow> string \<Rightarrow> u16 option" where
  "digits_u16 radix acc [] = Some (word_of_nat acc)"
| "digits_u16 radix acc (c # cs) =
     (case to_digit radix c of
        None \<Rightarrow> None
      | Some d \<Rightarrow> if acc * radix + d < 2 ^ 16 then digits_u16 radix (acc * radix + d) cs else None)"

definition from_str_radix :: "nat \<Rightarrow> string \<Rightarrow> u16 option" where
  "from_str_radix radix src =
     (if src = [] \<or> src = ''+'' \<or> src = ''-'' then None
      else if hd src = CHR ''+'' then digits_u16 radix 0 (tl src) else digits_u16 radix 0 src)"

section \<open>Generating a key\<close>

record generate_command =
  gc_label :: "string option"
  gc_bech32_prefix :: "string option"
  gc_key_type :: "string option"
  gc_non_exportable :: bool
  gc_backup_file :: "path option"
  gc_wrap_key_id :: "u16 option"
  gc_key_ids :: "string list"

definition parse_key_id :: "generate_command \<Rightarrow> (nat, u16) outcome" where
  "parse_key_id self =
     (case gc_key_ids self of
        [key_id_str] \<Rightarrow>
          ok_or 1 (if take 2 key_id_str = ''0x'' then from_str_radix 16 (drop 2 key_id_str)
                   else from_str_radix 10 key_id_str)
      | _ \<Rightarrow> Failed 1)"

definition parse_key_type :: "generate_command \<Rightarrow> (nat, key_type) outcome" where
  "parse_key_type self =
     (case gc_key_type self of
        None \<Rightarrow> Done Consensus
      | Some t \<Rightarrow> if t = ''account'' then Done Account else if t = ''consensus'' then Done Consensus else Failed 1)"

fun key_type_display :: "key_type \<Rightarrow> string" where
  "key_type_display Account = ''account''"
| "key_type_display Consensus = ''consensus''"

fun key_algorithm :: "key_type \<Rightarrow> hsm_algorithm" where
  "key_algorithm Account = EcK256"
| "key_algorithm Consensus = Alg_Ed25519"

definition generate_label :: "hsm_crates \<Rightarrow> generate_command \<Rightarrow> key_type \<Rightarrow> string" where
  "generate_label hc self key_type =
     hc_label_from hc
       (case gc_label self of
          Some l \<Rightarrow> l
        | None \<Rightarrow> (case gc_bech32_prefix self of
                     Some pfx \<Rightarrow> pfx @ '':'' @ hc_now hc
                   | None \<Rightarrow> key_type_display key_type @ '':'' @ hc_now hc))"

definition create_encrypted_backup :: "keys_env \<Rightarrow> u16 \<Rightarrow> path \<Rightarrow> u16 \<Rightarrow> keys_state \<Rightarrow> unit keys_run" where
  "create_encrypted_backup env key_id backup_file_path wrap_key_id s =
     rbind (s, ok_or 1 (hd_export_wrapped (ke_device env) wrap_key_id AsymmetricKey key_id)) (\<lambda>s wrapped_bytes.
     rbind (write_secret env backup_file_path wrapped_bytes s) (\<lambda>s _.
       (display (Status_ok ''Wrote'' (''backup of key '' @ show_nat (unat key_id) @ '' (encrypted under wrap key '' @
          show_nat (unat wrap_key_id) @ '') to '' @ path_display backup_file_path)) s, Done ())))"

definition generated_line :: "keys_env \<Rightarrow> generate_command \<Rightarrow> key_type \<Rightarrow> u16 \<Rightarrow> (nat, display_line) outcome" where
  "generated_line env self key_type key_id =
     (case key_type of
        Account \<Rightarrow> Done (Status_ok ''Generated'' (''account (secp256k1) key 0x'' @ show_hex4 key_id))
      | Consensus \<Rightarrow>
          obind (ok_or 1 (hd_public_key (ke_device env) key_id)) (\<lambda>(_, raw).
          obind (unwrap_or_panic key_panic (from_raw_ed25519 (ke_crypto env) raw)) (\<lambda>public_key.
            Done (Status_ok ''Generated'' (''consensus (ed25519) key 0x'' @ show_hex4 key_id @ '': '' @
              (case gc_bech32_prefix self of
                 Some pfx \<Rightarrow> kd_key_bech32 (ke_display env) pfx public_key
               | None \<Rightarrow> hc_hex (ke_crates env) public_key))))))"

definition generate_run :: "keys_env \<Rightarrow> generate_command \<Rightarrow> keys_state \<Rightarrow> unit keys_run" where
  "generate_run env self s =
     rbind (s, parse_key_id self) (\<lambda>s key_id.
     rbind (s, parse_key_type self) (\<lambda>s key_type.
     rbind (s, hsm_client env) (\<lambda>s _.
       let capabilities = DEFAULT_CAPABILITIES \<union> (if gc_non_exportable self then {} else {EXPORTABLE_UNDER_WRAP})
       in rbind (call_hsm (Generate_asymmetric_key key_id (generate_label (ke_crates env) self key_type)
                   DEFAULT_DOMAINS capabilities (key_algorithm key_type)) (hd_generate (ke_device env) key_id) s)
            (\<lambda>s _.
          rbind (s, generated_line env self key_type key_id) (\<lambda>s line.
            let s = display line s
            in case gc_backup_file self of
                 None \<Rightarrow> (s, Done ())
               | Some backup_file \<Rightarrow>
                   create_encrypted_backup env key_id backup_file
                     (case gc_wrap_key_id self of Some w \<Rightarrow> w | None \<Rightarrow> DEFAULT_WRAP_KEY) s)))))"

section \<open>Exporting and importing\<close>

record export_command =
  ec_key_id :: u16
  ec_wrap_key_id :: "u16 option"
  ec_path :: path

definition export_run :: "keys_env \<Rightarrow> export_command \<Rightarrow> keys_state \<Rightarrow> unit keys_run" where
  "export_run env self s =
     (let wrap_key_id = (case ec_wrap_key_id self of Some w \<Rightarrow> w | None \<Rightarrow> DEFAULT_WRAP_KEY)
      in rbind (s, hsm_client env) (\<lambda>s _.
         rbind (s, ok_or 1 (hd_export_wrapped (ke_device env) wrap_key_id AsymmetricKey (ec_key_id self)))
           (\<lambda>s wrapped_bytes.
         rbind (write_secret env (ec_path self) wrapped_bytes s) (\<lambda>s _.
           (display (Status_ok ''Exported'' (''key 0x'' @ show_hex4 (ec_key_id self) @
              '' (encrypted under wrap key 0x'' @ show_hex4 wrap_key_id @ '') to '' @ path_display (ec_path self))) s,
            Done ())))))"

record hsm_import_command =
  ic_key_id :: "u16 option"
  ic_wrap_key_id :: "u16 option"
  ic_key_type :: "string option"
  ic_label :: "string option"
  ic_path :: path

text \<open>Wrapped keys keep the identifier and the label they were exported with.\<close>

definition import_wrapped :: "keys_env \<Rightarrow> hsm_import_command \<Rightarrow> string \<Rightarrow> keys_state \<Rightarrow> unit keys_run" where
  "import_wrapped env self wrapped_key_base64 s =
     (let wrap_key_id = (case ic_wrap_key_id self of Some w \<Rightarrow> w | None \<Rightarrow> DEFAULT_WRAP_KEY)
      in rbind (s, ok_or 1 (base64_decode (ke_crypto env) wrapped_key_base64)) (\<lambda>s ciphertext.
         rbind (s, if hc_message_ok (ke_crates env) ciphertext then Done () else Failed 1) (\<lambda>s _.
         rbind (s, hsm_client env) (\<lambda>s _.
         let answer = hd_import_wrapped (ke_device env) wrap_key_id ciphertext
         in rbind (call_hsm (Import_wrapped_call wrap_key_id ciphertext) (answer \<noteq> None) s) (\<lambda>s _.
            rbind (s, ok_or 1 answer) (\<lambda>s obj.
            if oe_object_type obj \<noteq> AsymmetricKey
            then (display (Status_ok ''Imported'' (''object 0x'' @ show_hex4 (oe_object_id obj) @ '' ('' @
                    hc_debug_type (ke_crates env) (oe_object_type obj) @ '')'')) s, Failed 0)
            else rbind (s, ok_or 1 (hd_public_key (ke_device env) (oe_object_id obj))) (\<lambda>s (alg, raw).
                 rbind (s, case alg of
                             Alg_Ed25519 \<Rightarrow> obind (unwrap_or_panic key_panic (from_raw_ed25519 (ke_crypto env) raw))
                                             (\<lambda>pk. Done (hc_hex (ke_crates env) pk))
                           | _ \<Rightarrow> Done (hc_debug_key (ke_crates env) alg raw)) (\<lambda>s key_info.
                   (display (Status_ok ''Imported'' (''key 0x'' @ show_hex4 (oe_object_id obj) @ '': '' @ key_info)) s,
                    Done ())))))))))"

definition put_consensus_key :: "keys_env \<Rightarrow> hsm_import_command \<Rightarrow> u16 \<Rightarrow> bytes \<Rightarrow> keys_state \<Rightarrow> unit keys_run" where
  "put_consensus_key env self key_id secret s =
     rbind (s, hsm_client env) (\<lambda>s _.
     rbind (call_hsm (Put_asymmetric_key key_id
              (hc_label_from (ke_crates env) (case ic_label self of Some l \<Rightarrow> l | None \<Rightarrow> []))
              DEFAULT_DOMAINS (DEFAULT_CAPABILITIES \<union> {EXPORTABLE_UNDER_WRAP}) Alg_Ed25519 secret)
            (hd_put (ke_device env) key_id) s) (\<lambda>s _.
       (display (Status_ok ''Imported'' (''key 0x'' @ show_hex4 key_id)) s, Done ())))"

definition import_priv_validator_json :: "keys_env \<Rightarrow> hsm_import_command \<Rightarrow> string \<Rightarrow> keys_state \<Rightarrow> unit keys_run" where
  "import_priv_validator_json env self json_data s =
     rbind (s, ok_or 1 (ic_key_id self)) (\<lambda>s key_id.
     rbind (s, ok_or 1 (hc_parse_json (ke_crates env) json_data)) (\<lambda>s private_key.
       case private_key of
         Ed25519_private seed public \<Rightarrow> put_consensus_key env self key_id seed s
       | Other_private \<Rightarrow> (s, Panicked unreachable_panic)))"

definition import_base64 :: "keys_env \<Rightarrow> hsm_import_command \<Rightarrow> string \<Rightarrow> keys_state \<Rightarrow> unit keys_run" where
  "import_base64 env self base64_data s =
     rbind (s, ok_or 1 (ic_key_id self)) (\<lambda>s key_id.
     rbind (s, ok_or 1 (base64_decode (ke_crypto env) (trim_end base64_data))) (\<lambda>s key_bytes.
     rbind (s, if ed25519_secret (ke_crypto env) key_bytes then Done key_bytes else Failed 1) (\<lambda>s secret.
       put_consensus_key env self key_id secret s)))"

definition path_ends_with :: "path \<Rightarrow> string \<Rightarrow> bool" where
  "path_ends_with p child \<longleftrightarrow> path_components p \<noteq> [] \<and> last (path_components p) = child"

definition hsm_import_run :: "keys_env \<Rightarrow> hsm_import_command \<Rightarrow> keys_state \<Rightarrow> unit keys_run" where
  "hsm_import_run env self s =
     rbind (s, ok_or 1 (km_files s (ic_path self))) (\<lambda>s contents.
       case ic_key_type self of
         Some t \<Rightarrow>
           if t = ''wrap'' then import_wrapped env self contents s
           else if t = ''json'' then import_priv_validator_json env self contents s
           else if t = ''base64'' then import_base64 env self contents s
           else (s, Failed 1)
       | None \<Rightarrow>
           if path_ends_with (ic_path self) ''priv_validator_key.json''
           then import_priv_validator_json env self contents s
           else import_wrapped env self contents s)"

section \<open>Listing keys\<close>

fun load_chain_formatters ::
  "chain_config list \<Rightarrow> (chain_id \<rightharpoonup> key_format_display) \<Rightarrow> (nat, chain_id \<rightharpoonup> key_format_display) outcome" where
  "load_chain_formatters [] m = Done m"
| "load_chain_formatters (chain # cs) m =
     (if m (cc_id chain) \<noteq> None then Failed 1
      else load_chain_formatters cs (m(cc_id chain \<mapsto> cc_key_format chain)))"

fun load_key_formatters ::
  "(chain_id \<rightharpoonup> key_format_display) \<Rightarrow> yubihsm_key_config list \<Rightarrow> (u16 \<rightharpoonup> key_format_display)
     \<Rightarrow> (nat, u16 \<rightharpoonup> key_format_display) outcome" where
  "load_key_formatters chain_formatters [] m = Done m"
| "load_key_formatters chain_formatters (key_config # configs) m =
     (case (if length (yk_chain_ids key_config) = 1 then chain_formatters (yk_chain_ids key_config ! 0) else None) of
        Some formatter \<Rightarrow>
          if m (yk_key key_config) \<noteq> None then Failed 1
          else load_key_formatters chain_formatters configs (m(yk_key key_config \<mapsto> formatter))
      | None \<Rightarrow> load_key_formatters chain_formatters configs m)"

definition key_formatters :: "kms_config \<Rightarrow> (nat, u16 \<rightharpoonup> key_format_display) outcome" where
  "key_formatters config =
     obind (load_chain_formatters (kc_chain config) Map.empty) (\<lambda>chain_formatters.
     obind (hsm_config config) (\<lambda>cfg. load_key_formatters chain_formatters (yc_keys cfg) Map.empty))"

definition slice_length_panic :: panic_payload where
  "slice_length_panic = Payload_String ''assertion failed: left == right''"

text \<open>The device returns a secp256k1 key as its two coordinates, which are compressed first.\<close>

definition listed_key :: "keys_env \<Rightarrow> hsm_algorithm \<Rightarrow> bytes \<Rightarrow> (nat, tendermint_key option) outcome" where
  "listed_key env alg raw =
     (case alg of
        EcK256 \<Rightarrow>
          if length raw \<noteq> 64 then Panicked slice_length_panic
          else obind (unwrap_or_panic key_panic (from_raw_secp256k1 (ke_crypto env) (hc_compress (ke_crates env) raw)))
                 (\<lambda>pk. Done (Some (AccountKey pk)))
      | Alg_Ed25519 \<Rightarrow>
          obind (unwrap_or_panic key_panic (from_raw_ed25519 (ke_crypto env) raw)) (\<lambda>pk. Done (Some (ConsensusKey pk)))
      | Other_algorithm n \<Rightarrow> Done None)"

fun key_tag :: "tendermint_key \<Rightarrow> string" where
  "key_tag (AccountKey pk) = ''acct''"
| "key_tag (ConsensusKey pk) = ''cons''"

definition display_key_info ::
  "keys_env \<Rightarrow> (u16 \<rightharpoonup> key_format_display) \<Rightarrow> object_entry \<Rightarrow> keys_state \<Rightarrow> unit keys_run" where
  "display_key_info env formatters key s =
     rbind (s, ok_or 1 (hd_object_label (ke_device env) (oe_object_id key))) (\<lambda>s label.
     rbind (s, ok_or 1 (hd_public_key (ke_device env) (oe_object_id key))) (\<lambda>s (alg, raw).
     let key_id = ''- 0x'' @ show_hex4 (oe_object_id key)
     in rbind (s, listed_key env alg raw) (\<lambda>s k.
          case k of
            None \<Rightarrow> (display (Attr_err key_id) s, Done ())
          | Some tendermint_key \<Rightarrow>
              let key_serialized = (case formatters (oe_object_id key) of
                    Some key_formatter \<Rightarrow> format_serialize (ke_display env) key_formatter tendermint_key
                  | None \<Rightarrow> kd_hex (ke_display env) tendermint_key)
              in (display (Plain (''   label: '' @ [CHR 0x22] @ label @ [CHR 0x22]))
                    (display (Attr_ok key_id (''['' @ key_tag tendermint_key @ ''] '' @ key_serialized)) s), Done ()))))"

definition listed_keys :: "object_entry list \<Rightarrow> object_entry list" where
  "listed_keys objects = sort_key oe_object_id (filter (\<lambda>obj. oe_object_type obj = AsymmetricKey) objects)"

definition list_run :: "keys_env \<Rightarrow> keys_state \<Rightarrow> unit keys_run" where
  "list_run env s =
     rbind (s, key_formatters (ke_config env)) (\<lambda>s formatters.
     rbind (s, hsm_client env) (\<lambda>s _.
     rbind (s, ok_or 1 (hd_serial_number (ke_device env))) (\<lambda>s serial_number.
     rbind (s, ok_or 1 (hd_list_objects (ke_device env))) (\<lambda>s objects.
     let keys = listed_keys objects
     in if keys = [] then (s, Failed 0)
        else for_each (display_key_info env formatters) keys
               (display (Plain (''Listing keys in YubiHSM #'' @ serial_number @ '':'')) s)))))"

section \<open>Detecting and testing\<close>

definition detect_run :: "(string \<times> nat) list option \<Rightarrow> string list \<Rightarrow> (string list, nat, unit) run" where
  "detect_run detected out =
     rbind (out, ok_or 1 detected) (\<lambda>out devices.
       if devices = [] then (out, Failed 1)
       else (out @ ''Detected YubiHSM2 USB devices:'' #
               map (\<lambda>(serial, bus). ''- Serial #'' @ serial @ '' (bus '' @ show_nat bus @ '')'') devices, Done ()))"

text \<open>
  The signing test never ends: for the answers to the first signatures it gives the messages that
  were signed and \<open>None\<close>, still running.
\<close>

definition TEST_MESSAGE :: bytes where
  "TEST_MESSAGE = replicate 128 0"

fun test_loop :: "u16 \<Rightarrow> bool list \<Rightarrow> (u16 \<times> bytes \<times> bool) list" where
  "test_loop key_id [] = []"
| "test_loop key_id (answer # answers) = (key_id, TEST_MESSAGE, answer) # test_loop key_id answers"

definition test_run :: "keys_env \<Rightarrow> u16 \<Rightarrow> bool list \<Rightarrow> (u16 \<times> bytes \<times> bool) list \<times> (nat, unit) outcome option" where
  "test_run env key_id answers =
     (if key_id = 0 then ([], Some (Failed 1))
      else case hsm_client env of
             Done _ \<Rightarrow> (test_loop key_id answers, None)
           | Failed e \<Rightarrow> ([], Some (Failed e))
           | Panicked p \<Rightarrow> ([], Some (Panicked p)))"

section \<open>Key identifiers read back\<close>

lemma to_digit_hex [simp]: "d < 16 \<Longrightarrow> to_digit 16 (hex_digit d) = Some d"
  by (auto simp: to_digit_def hex_digit_def Let_def)

lemma to_digit_dec [simp]: "d < 10 \<Longrightarrow> to_digit 10 (char_of (48 + d)) = Some d"
  by (auto simp: to_digit_def Let_def)

lemma digits_step:
  "to_digit radix c = Some d \<Longrightarrow> acc * radix + d < 2 ^ 16 \<Longrightarrow>
     digits_u16 radix acc (c # cs) = digits_u16 radix (acc * radix + d) cs"
  by simp

lemma digits_show_nat: "n < 2 ^ 16 \<Longrightarrow> digits_u16 10 0 (show_nat n @ cs) = digits_u16 10 n cs"
proof (induction n arbitrary: cs rule: less_induct)
  case (less n)
  show ?case
  proof (cases "n < 10")
    case True
    then show ?thesis using less.prems by (simp add: show_nat.simps [of n])
  next
    case False
    have "n div 10 * 10 + n mod 10 = n" by simp
    with False show ?thesis
      using less.IH [of "n div 10"] less.prems by (simp add: show_nat.simps [of n])
  qed
qed

lemma show_nat_not_Nil [simp]: "show_nat n \<noteq> []"
  by (simp add: show_nat.simps [of n])

lemma show_nat_plain: "CHR ''+'' \<notin> set (show_nat n)" "CHR ''-'' \<notin> set (show_nat n)" "CHR ''x'' \<notin> set (show_nat n)"
  using show_nat_digits [of _ n] by force+

lemma from_str_radix_show_nat: "n < 2 ^ 16 \<Longrightarrow> from_str_radix 10 (show_nat n) = Some (word_of_nat n)"
  using show_nat_plain [of n] digits_show_nat [of n "[]"]
  by (cases "show_nat n") (auto simp: from_str_radix_def)

lemma hex_digit_plain: "d < 16 \<Longrightarrow> hex_digit d \<noteq> CHR ''+''"
proof
  assume "d < 16" "hex_digit d = CHR ''+''"
  then have "to_digit 16 CHR ''+'' = Some d" using to_digit_hex [of d] by simp
  then show False by (simp add: to_digit_def)
qed

lemma from_str_radix_show_hex4: "from_str_radix 16 (show_hex4 w) = Some w"
proof -
  let ?n = "unat w"
  have n: "?n < 65536" using unsigned_less [where 'a = nat, of w] by simp
  then have top: "?n div 4096 < 16" by simp
  have digits: "?n div 4096 * 16 + ?n div 256 mod 16 = ?n div 256" "?n div 256 * 16 + ?n div 16 mod 16 = ?n div 16"
    "?n div 16 * 16 + ?n mod 16 = ?n"
    using div_mult_mod_eq [of "?n div 256" 16] div_mult_mod_eq [of "?n div 16" 16] div_mult_mod_eq [of ?n 16]
      div_mult2_eq [of ?n 256 16] div_mult2_eq [of ?n 16 16]
    by simp_all
  have small: "?n div 4096 < 65536" "?n div 256 < 65536" "?n div 16 < 65536" using n by auto
  have "digits_u16 16 0 (show_hex4 w) = Some (word_of_nat ?n)"
    using digits_step [OF to_digit_hex [OF top], of 0] digits_step [OF to_digit_hex, of "?n div 256 mod 16" "?n div 4096"]
      digits_step [OF to_digit_hex, of "?n div 16 mod 16" "?n div 256"] digits_step [OF to_digit_hex, of "?n mod 16" "?n div 16"]
    by (simp add: show_hex4_def Let_def digits small n del: digits_u16.simps(2))
  then show ?thesis
    using hex_digit_plain [OF top] by (simp add: from_str_radix_def show_hex4_def Let_def del: digits_u16.simps(2))
qed

text \<open>
  Every key identifier is read back from both ways the tool writes it, in hexadecimal with
  \<^verbatim>\<open>0x\<close> and in decimal.
\<close>

theorem key_id_roundtrip:
  "parse_key_id (self\<lparr>gc_key_ids := [serialize_key_id key_id]\<rparr>) = Done key_id \<and>
   parse_key_id (self\<lparr>gc_key_ids := [show_nat (unat key_id)]\<rparr>) = Done key_id"
proof -
  have "take 2 (show_nat (unat key_id)) \<noteq> ''0x''"
    using show_nat_plain(3) [of "unat key_id"] in_set_takeD [of "CHR ''x''" 2 "show_nat (unat key_id)"] by force
  then show ?thesis
    using from_str_radix_show_nat [of "unat key_id"] unsigned_less [where 'a = nat, of key_id]
    by (simp add: parse_key_id_def serialize_key_id_def from_str_radix_show_hex4)
qed

section \<open>Generated keys and backups\<close>


lemma display_frame [simp]:
  "km_calls (display l s) = km_calls s" "km_files (display l s) = km_files s" "km_out (display l s) = km_out s @ [l]"
  by (simp_all add: display_def)

lemma write_secret_DoneD:
  assumes "write_secret env p data s = (s', Done ())"
  shows "km_calls s' = km_calls s \<and> km_out s' = km_out s \<and> km_files s' p = Some (base64_encode (ke_crypto env) data)"
  using assms
  by (auto simp: write_secret_def write_base64_secret_def Let_def split: secret_write.splits prod.splits)

lemma create_encrypted_backup_DoneD:
  assumes "create_encrypted_backup env key_id p w s = (s', Done ())"
  shows "km_calls s' = km_calls s \<and> (\<exists>b. hd_export_wrapped (ke_device env) w AsymmetricKey key_id = Some b \<and>
    km_files s' p = Some (base64_encode (ke_crypto env) b))"
  using assms unfolding create_encrypted_backup_def by (auto dest!: rbind_DoneD dest: write_secret_DoneD)

lemma generate_run_backup:
  assumes "generate_run env self s = (s', Done ())" and "gc_backup_file self = Some p" and "parse_key_id self = Done key_id"
  shows "\<exists>b. hd_export_wrapped (ke_device env) (case gc_wrap_key_id self of Some w \<Rightarrow> w | None \<Rightarrow> DEFAULT_WRAP_KEY)
      AsymmetricKey key_id = Some b \<and> km_files s' p = Some (base64_encode (ke_crypto env) b)"
  using assms unfolding generate_run_def Let_def
  by (auto dest!: rbind_DoneD create_encrypted_backup_DoneD)


lemma export_run_DoneD:
  assumes "export_run env self s = (s', Done ())" and "w = (case ec_wrap_key_id self of Some w \<Rightarrow> w | None \<Rightarrow> DEFAULT_WRAP_KEY)"
  shows "km_calls s' = km_calls s \<and> (\<exists>b. hd_export_wrapped (ke_device env) w AsymmetricKey (ec_key_id self) = Some b \<and>
    km_files s' (ec_path self) = Some (base64_encode (ke_crypto env) b))"
  using assms unfolding export_run_def Let_def by (auto dest!: rbind_DoneD dest: write_secret_DoneD)

lemma import_wrapped_calls:
  assumes "base64_decode (ke_crypto env) text = Some b" and "hc_message_ok (ke_crates env) b" and "hsm_client env = Done ()"
    and "w = (case ic_wrap_key_id self of Some w \<Rightarrow> w | None \<Rightarrow> DEFAULT_WRAP_KEY)"
  shows "km_calls (fst (import_wrapped env self text s)) = km_calls s @ [Import_wrapped_call w b]"
proof -
  let ?answer = "hd_import_wrapped (ke_device env) w b"
  show ?thesis
  proof (cases ?answer)
    case None
    then show ?thesis using assms by (simp add: import_wrapped_def Let_def call_hsm_def)
  next
    case (Some obj)
    then show ?thesis
      using assms
      by (cases "hd_public_key (ke_device env) (oe_object_id obj)")
        (auto simp: import_wrapped_def Let_def call_hsm_def rbind_split split: outcome.splits hsm_algorithm.splits)
  qed
qed

text \<open>
  What \<^verbatim>\<open>keys import\<close> relies on in a command that writes a backup: when it succeeds, the file holds the
  text of what the device exported.  \<open>target\<close> is the key, the file and the wrap key of a command
  that writes one.
\<close>

locale wrapped_backup =
  fixes backup :: "keys_env \<Rightarrow> 'c \<Rightarrow> keys_state \<Rightarrow> unit keys_run"
    and target :: "'c \<Rightarrow> (u16 \<times> path \<times> u16) option"
  assumes backup_written:
    "backup env c s = (s', Done ()) \<Longrightarrow> target c = Some (key_id, p, w) \<Longrightarrow>
       \<exists>b. hd_export_wrapped (ke_device env) w AsymmetricKey key_id = Some b \<and>
         km_files s' p = Some (base64_encode (ke_crypto env) b)"
begin

lemma backup_imports:
  assumes "base64_roundtrip (ke_crypto env)" and "ke_crypto env' = ke_crypto env"
    and "backup env c s = (s', Done ())" and "target c = Some (key_id, ic_path i, w)" and "km_files t = km_files s'"
    and "w = (case ic_wrap_key_id i of Some w \<Rightarrow> w | None \<Rightarrow> DEFAULT_WRAP_KEY)"
    and "ic_key_type i = Some ''wrap'' \<or> ic_key_type i = None \<and> \<not> path_ends_with (ic_path i) ''priv_validator_key.json''"
    and "\<And>b. hd_export_wrapped (ke_device env) w AsymmetricKey key_id = Some b \<Longrightarrow> hc_message_ok (ke_crates env') b"
    and "hsm_client env' = Done ()"
  shows "\<exists>b. hd_export_wrapped (ke_device env) w AsymmetricKey key_id = Some b \<and>
    km_calls (fst (hsm_import_run env' i t)) = km_calls t @ [Import_wrapped_call w b]"
proof -
  obtain b where b: "hd_export_wrapped (ke_device env) w AsymmetricKey key_id = Some b"
    and stored: "km_files t (ic_path i) = Some (base64_encode (ke_crypto env) b)"
    using backup_written [OF assms(3,4)] assms(5) by auto
  have "base64_decode (ke_crypto env') (base64_encode (ke_crypto env) b) = Some b" "hc_message_ok (ke_crates env') b"
    using assms(1,2,8) b by (auto simp: base64_roundtrip_def)
  from import_wrapped_calls [OF this assms(9,6), of t]
  have "km_calls (fst (hsm_import_run env' i t)) = km_calls t @ [Import_wrapped_call w b]"
    using assms(7) stored by (auto simp: hsm_import_run_def)
  then show ?thesis using b by auto
qed

end

definition export_target :: "export_command \<Rightarrow> (u16 \<times> path \<times> u16) option" where
  "export_target e =
     Some (ec_key_id e, ec_path e, case ec_wrap_key_id e of Some w \<Rightarrow> w | None \<Rightarrow> DEFAULT_WRAP_KEY)"

definition generate_target :: "generate_command \<Rightarrow> (u16 \<times> path \<times> u16) option" where
  "generate_target g =
     (case (parse_key_id g, gc_backup_file g) of
        (Done key_id, Some p) \<Rightarrow> Some (key_id, p, case gc_wrap_key_id g of Some w \<Rightarrow> w | None \<Rightarrow> DEFAULT_WRAP_KEY)
      | _ \<Rightarrow> None)"

interpretation exported: wrapped_backup export_run export_target
  using export_run_DoneD by unfold_locales (fastforce simp: export_target_def)

interpretation generated: wrapped_backup generate_run generate_target
proof
  fix env c s s' key_id p w
  assume run: "generate_run env c s = (s', Done ())" and "generate_target c = Some (key_id, p, w)"
  then have "parse_key_id c = Done key_id" "gc_backup_file c = Some p"
    "w = (case gc_wrap_key_id c of Some w \<Rightarrow> w | None \<Rightarrow> DEFAULT_WRAP_KEY)"
    by (auto simp: generate_target_def split: outcome.splits option.splits)
  then show "\<exists>b. hd_export_wrapped (ke_device env) w AsymmetricKey key_id = Some b \<and>
      km_files s' p = Some (base64_encode (ke_crypto env) b)"
    using generate_run_backup [OF run] by auto
qed

text \<open>
  C34: the file that \<^verbatim>\<open>keys export\<close> writes is what \<^verbatim>\<open>keys import\<close> hands to a device, possibly another
  one: the bytes that the first device exported, under the same wrap key, and nothing else.
\<close>

theorem exported_key_imports:
  assumes "base64_roundtrip (ke_crypto env)" and "ke_crypto env' = ke_crypto env"
    and "export_run env e s = (s', Done ())" and "km_files t = km_files s'"
    and "ic_path i = ec_path e" and "ic_wrap_key_id i = ec_wrap_key_id e"
    and "ic_key_type i = Some ''wrap'' \<or> ic_key_type i = None \<and> \<not> path_ends_with (ec_path e) ''priv_validator_key.json''"
    and "\<forall>b. hd_export_wrapped (ke_device env) (case ec_wrap_key_id e of Some w \<Rightarrow> w | None \<Rightarrow> DEFAULT_WRAP_KEY) AsymmetricKey (ec_key_id e)
           = Some b \<longrightarrow> hc_message_ok (ke_crates env') b"
    and "hsm_client env' = Done ()"
  shows "\<exists>b. hd_export_wrapped (ke_device env) (case ec_wrap_key_id e of Some w \<Rightarrow> w | None \<Rightarrow> DEFAULT_WRAP_KEY) AsymmetricKey (ec_key_id e)
      = Some b \<and>
    km_calls (fst (hsm_import_run env' i t)) =
      km_calls t @ [Import_wrapped_call (case ec_wrap_key_id e of Some w \<Rightarrow> w | None \<Rightarrow> DEFAULT_WRAP_KEY) b]"
proof -
  let ?w = "case ec_wrap_key_id e of Some w \<Rightarrow> w | None \<Rightarrow> DEFAULT_WRAP_KEY"
  have "export_target e = Some (ec_key_id e, ic_path i, ?w)" and "?w = (case ic_wrap_key_id i of Some w \<Rightarrow> w | None \<Rightarrow> DEFAULT_WRAP_KEY)"
    using assms(5,6) by (simp_all add: export_target_def)
  then show ?thesis
    using exported.backup_imports [OF assms(1-3) _ assms(4), of "ec_key_id e" i ?w] assms(5,7-9) by simp
qed

text \<open>The same holds for the backup that \<^verbatim>\<open>keys generate\<close> writes.\<close>

lemma generated_backup_imports:
  assumes "base64_roundtrip (ke_crypto env)" and "generate_run env g s = (s', Done ())"
    and "parse_key_id g = Done key_id" and "gc_backup_file g = Some (ic_path i)" and "gc_wrap_key_id g = ic_wrap_key_id i"
    and "ic_key_type i = Some ''wrap''" and "\<And>b. hc_message_ok (ke_crates env) b" and "hsm_client env = Done ()"
  shows "\<exists>w b. hd_export_wrapped (ke_device env) w AsymmetricKey key_id = Some b \<and>
    km_calls (fst (hsm_import_run env i s')) = km_calls s' @ [Import_wrapped_call w b]"
  using generated.backup_imports [OF assms(1) refl assms(2) _ refl refl, of key_id i] assms(3-8)
  by (auto simp: generate_target_def)

section \<open>Listing\<close>

fun key_attr :: "display_line \<Rightarrow> string list" where
  "key_attr (Attr_ok key_id t) = [key_id]"
| "key_attr (Attr_err key_id) = [key_id]"
| "key_attr l = []"

definition displayed_keys :: "keys_state \<Rightarrow> string list" where
  "displayed_keys s = concat (map key_attr (km_out s))"

lemma display_key_info_DoneD:
  assumes "display_key_info env formatters key s = (s', Done ())"
  shows "km_calls s' = km_calls s \<and> displayed_keys s' = displayed_keys s @ [''- 0x'' @ show_hex4 (oe_object_id key)]"
  using assms unfolding display_key_info_def Let_def displayed_keys_def
  by (auto dest!: rbind_DoneD split: option.splits)

lemma display_all_DoneD:
  "for_each (display_key_info env formatters) keys s = (s', Done ()) \<Longrightarrow>
     km_calls s' = km_calls s \<and>
     displayed_keys s' = displayed_keys s @ map (\<lambda>k. ''- 0x'' @ show_hex4 (oe_object_id k)) keys"
proof (induction keys arbitrary: s)
  case (Cons key keys)
  then obtain t where t: "display_key_info env formatters key s = (t, Done ())"
    and "for_each (display_key_info env formatters) keys t = (s', Done ())"
    by (auto dest!: rbind_DoneD)
  then show ?case using Cons.IH [of t] display_key_info_DoneD [OF t] by simp
qed simp

lemma load_chain_formatters_DoneD:
  "load_chain_formatters cs m = Done m' \<Longrightarrow> distinct (map cc_id cs) \<and> set (map cc_id cs) \<inter> dom m = {}"
proof (induction cs m rule: load_chain_formatters.induct)
  case (2 chain cs m)
  then have new: "m (cc_id chain) = None" and rest: "load_chain_formatters cs (m(cc_id chain \<mapsto> cc_key_format chain)) = Done m'"
    by (auto split: if_splits)
  from 2(1) [OF _ rest] new show ?case by auto
qed simp

text \<open>
  A run of \<^verbatim>\<open>keys list\<close> that succeeds displays the asymmetric keys of the device, each as often
  as the device lists it and no other object, by rising identifier; it changes nothing on the
  device and succeeds only if no two chains of the configuration have the same identifier.
\<close>

theorem keys_listed_in_order:
  assumes "list_run env s = (s', Done ())"
  shows "\<exists>objects. hd_list_objects (ke_device env) = Some objects \<and>
    displayed_keys s' = displayed_keys s @ map (\<lambda>i. ''- 0x'' @ show_hex4 i)
      (sort (map oe_object_id (filter (\<lambda>obj. oe_object_type obj = AsymmetricKey) objects))) \<and>
    km_calls s' = km_calls s \<and> distinct (map cc_id (kc_chain (ke_config env)))"
proof -
  obtain formatters serial objects where f: "key_formatters (ke_config env) = Done formatters"
    and objects: "hd_list_objects (ke_device env) = Some objects"
    and run: "for_each (display_key_info env formatters) (listed_keys objects)
      (display (Plain (''Listing keys in YubiHSM #'' @ serial @ '':'')) s) = (s', Done ())"
    using assms unfolding list_run_def Let_def by (auto dest!: rbind_DoneD split: if_splits)
  have "distinct (map cc_id (kc_chain (ke_config env)))"
    using f by (auto simp: key_formatters_def obind_Done_iff dest: load_chain_formatters_DoneD)
  moreover have "map oe_object_id (listed_keys objects) =
      sort (map oe_object_id (filter (\<lambda>obj. oe_object_type obj = AsymmetricKey) objects))"
    unfolding listed_keys_def by (rule sym, rule properties_for_sort) simp_all
  moreover have "map (\<lambda>k. ''- 0x'' @ show_hex4 (oe_object_id k)) (listed_keys objects) =
      map (\<lambda>i. ''- 0x'' @ show_hex4 i) (map oe_object_id (listed_keys objects))"
    by simp
  ultimately show ?thesis
    using display_all_DoneD [OF run] objects by (simp add: displayed_keys_def)
qed

section \<open>Examples\<close>

text \<open>A device that accepts every call, holds the keys 7 and 9 and an object of another kind.\<close>

definition sample_device :: hsm_device where
  "sample_device = \<lparr>hd_generate = (\<lambda>_. True), hd_put = (\<lambda>_. True), hd_public_key = (\<lambda>i. Some (Alg_Ed25519, [ucast i])),
     hd_export_wrapped = (\<lambda>w t i. Some [ucast w, ucast i]), hd_import_wrapped = (\<lambda>w b. None),
     hd_serial_number = Some ''0001'',
     hd_list_objects = Some [\<lparr>oe_object_id = 9, oe_object_type = AsymmetricKey\<rparr>,
       \<lparr>oe_object_id = 8, oe_object_type = Other_object 0\<rparr>, \<lparr>oe_object_id = 7, oe_object_type = AsymmetricKey\<rparr>],
     hd_object_label = (\<lambda>i. Some ''key'')\<rparr>"

definition keys_sample_crates :: hsm_crates where
  "keys_sample_crates = \<lparr>hc_label_from = take 40, hc_message_ok = (\<lambda>b. b \<noteq> []), hc_parse_json = (\<lambda>_. None),
     hc_compress = take 33, hc_hex = (\<lambda>_. ''hex''), hc_debug_key = (\<lambda>_ _. []), hc_debug_type = (\<lambda>_. []),
     hc_now = ''now''\<rparr>"

definition keys_sample_env :: keys_env where
  "keys_sample_env = \<lparr>ke_accepts = (\<lambda>_ _ _. True), ke_hsm = terminal True, ke_config = server_kms,
     ke_device = sample_device, ke_crates = keys_sample_crates, ke_crypto = sample_crypto,
     ke_display = \<lparr>kd_account_id = (\<lambda>_. []), kd_bech32 = (\<lambda>p _. p), kd_key_bech32 = (\<lambda>p _. p),
       kd_cosmos_json = (\<lambda>_. []), kd_hex = (\<lambda>_. ''hex'')\<rparr>, ke_write = Secret_written\<rparr>"

definition empty_keys :: keys_state where
  "empty_keys = \<lparr>km_calls = [], km_files = Map.empty, km_out = []\<rparr>"


lemma keys_sample_client: "hsm_client keys_sample_env = Done ()"
  by (simp add: hsm_client_def keys_sample_env_def init_client_def client_config_def hsm_config_def server_kms_def
      server_hsm_def terminal_def prompt_for_auth_key_password_def init_connector_def connect_http_def)




definition export_sample :: export_command where
  "export_sample = \<lparr>ec_key_id = 7, ec_wrap_key_id = None, ec_path = key_path\<rparr>"

definition import_sample :: hsm_import_command where
  "import_sample = \<lparr>ic_key_id = None, ic_wrap_key_id = None, ic_key_type = None, ic_label = None, ic_path = key_path\<rparr>"

theorem exported_key_imports_witness:
  "km_calls (fst (hsm_import_run keys_sample_env import_sample
     (fst (export_run keys_sample_env export_sample empty_keys)))) = [Import_wrapped_call 1 [1, 7]]"
proof -
  let ?s = "fst (export_run keys_sample_env export_sample empty_keys)"
  have run: "export_run keys_sample_env export_sample empty_keys = (?s, Done ())"
    by (simp add: export_run_def keys_sample_client Let_def)
      (simp add: keys_sample_env_def sample_device_def export_sample_def write_secret_def write_base64_secret_def)
  have calls: "km_calls ?s = []"
    using export_run_DoneD [OF run refl] by (simp add: empty_keys_def)
  have export: "hd_export_wrapped (ke_device keys_sample_env)
      (case ec_wrap_key_id export_sample of Some w \<Rightarrow> w | None \<Rightarrow> DEFAULT_WRAP_KEY) AsymmetricKey
      (ec_key_id export_sample) = Some [1, 7]"
    by (simp add: keys_sample_env_def sample_device_def export_sample_def DEFAULT_WRAP_KEY_def)
  have message: "hc_message_ok (ke_crates keys_sample_env) [1, 7]"
    by (simp add: keys_sample_env_def keys_sample_crates_def)
  have base64: "base64_roundtrip (ke_crypto keys_sample_env)"
    using sample_base64 by (simp add: keys_sample_env_def)
  have i: "ic_path import_sample = ec_path export_sample" "ic_wrap_key_id import_sample = ec_wrap_key_id export_sample"
    "ic_key_type import_sample = None" "\<not> path_ends_with (ec_path export_sample) ''priv_validator_key.json''"
    "ec_wrap_key_id export_sample = None"
    by (simp_all add: import_sample_def export_sample_def path_ends_with_def key_path_def)
  show ?thesis
    using exported_key_imports [OF base64 refl run refl i(1,2) _ _ keys_sample_client] export message i(3-5) calls
    by (simp add: DEFAULT_WRAP_KEY_def)
qed

theorem keys_listed_in_order_witness:
  "displayed_keys (fst (list_run keys_sample_env empty_keys)) = [''- 0x0007'', ''- 0x0009'']"
proof -
  let ?s = "fst (list_run keys_sample_env empty_keys)"
  have "snd (list_run keys_sample_env empty_keys) = Done ()"
    by (simp add: list_run_def keys_sample_client)
      (simp add: keys_sample_env_def sample_device_def key_formatters_def server_kms_def softsign_kms_def hsm_config_def
        server_hsm_def listed_keys_def display_key_info_def listed_key_def sample_crypto_def Let_def)
  then have run: "list_run keys_sample_env empty_keys = (?s, Done ())" by (simp add: prod_eq_iff)
  have "displayed_keys empty_keys = []" by (simp add: displayed_keys_def empty_keys_def)
  moreover have "show_hex4 7 = ''0007''" "show_hex4 9 = ''0009''" by code_simp+
  ultimately show ?thesis
    using keys_listed_in_order [OF run] by (auto simp: keys_sample_env_def sample_device_def)
qed

end
