(* ===== verification/Command_Line.thy ===== *)
theory Command_Line
  imports Key_Commands Yubihsm_Keys
begin

text \<open>
  The subcommands of the program (\<^verbatim>\<open>src/commands.rs\<close>, \<^verbatim>\<open>src/commands/yubihsm.rs\<close>,
  \<^verbatim>\<open>src/commands/yubihsm/keys.rs\<close>, \<^verbatim>\<open>src/commands/ledger.rs\<close>, \<^verbatim>\<open>src/commands/softsign.rs\<close>): which
  configuration file a command reads, whether it logs verbosely, and how asking a YubiHSM command
  for its configuration file marks the process as a command-line client, which decides how the
  device is reached afterwards.
\<close>

section \<open>Subcommands\<close>

text \<open>
  The options that every subcommand repeats, the configuration file and verbose logging, are
  arguments of the constructors, beside the other options of the subcommand.
\<close>

datatype keys_command =
    Export "path option" export_command
  | Generate "path option" generate_command
  | Import "path option" hsm_import_command
  | List_keys "path option"

datatype yubihsm_command =
    Detect bool
  | Keys keys_command
  | Setup "path option" bool setup_command
  | Test "path option" bool u16

datatype ledger_command = Initialise "path option" ledger_init_command

datatype softsign_command = Keygen keygen_command | Softsign_import import_command

datatype kms_command =
    Init_cmd init_command
  | Ledger_cmd ledger_command
  | Softsign_cmd softsign_command
  | Start_cmd "path option" bool
  | Version_cmd
  | Yubihsm_cmd yubihsm_command

fun keys_config_path :: "keys_command \<Rightarrow> path option" where
  "keys_config_path (Export config cmd) = config"
| "keys_config_path (Generate config cmd) = config"
| "keys_config_path (List_keys config) = config"
| "keys_config_path (Import config cmd) = config"

text \<open>The path, and the flag \<^verbatim>\<open>CLI_COMMAND\<close> of \<^verbatim>\<open>src/yubihsm.rs\<close>, which is never cleared.\<close>

definition mark_cli_command :: "bool \<Rightarrow> bool" where
  "mark_cli_command cli_command = True"

definition yubihsm_config_path :: "yubihsm_command \<Rightarrow> bool \<Rightarrow> path option \<times> bool" where
  "yubihsm_config_path self cli_command =
     (case self of
        Keys keys \<Rightarrow> keys_config_path keys
      | Setup config verbose cmd \<Rightarrow> config
      | Test config verbose key_id \<Rightarrow> config
      | Detect verbose \<Rightarrow> None,
      mark_cli_command cli_command)"

fun yubihsm_verbose :: "yubihsm_command \<Rightarrow> bool" where
  "yubihsm_verbose (Detect verbose) = verbose"
| "yubihsm_verbose (Setup config verbose cmd) = verbose"
| "yubihsm_verbose (Test config verbose key_id) = verbose"
| "yubihsm_verbose (Keys keys) = False"

fun ledger_config_path :: "ledger_command \<Rightarrow> path option" where
  "ledger_config_path (Initialise config cmd) = config"

definition verbose :: "kms_command \<Rightarrow> bool" where
  "verbose self = (case self of Start_cmd config v \<Rightarrow> v | Yubihsm_cmd y \<Rightarrow> yubihsm_verbose y | _ \<Rightarrow> False)"

text \<open>\<open>var\<close> is the value of the environment variable \<^verbatim>\<open>TMKMS_CONFIG_FILE\<close>.\<close>

definition or_default_path :: "string option \<Rightarrow> path option \<Rightarrow> path" where
  "or_default_path var config =
     (case config of
        Some p \<Rightarrow> p
      | None \<Rightarrow> (case var of Some v \<Rightarrow> path_from v | None \<Rightarrow> path_from CONFIG_FILE_NAME))"

definition config_path :: "string option \<Rightarrow> kms_command \<Rightarrow> bool \<Rightarrow> path option \<times> bool" where
  "config_path var self cli_command =
     (case self of
        Start_cmd config v \<Rightarrow> (Some (or_default_path var config), cli_command)
      | Yubihsm_cmd y \<Rightarrow>
          (case yubihsm_config_path y cli_command of
             (config, cli_command) \<Rightarrow> (Some (or_default_path var config), cli_command))
      | Ledger_cmd l \<Rightarrow> (Some (or_default_path var (ledger_config_path l)), cli_command)
      | _ \<Rightarrow> (None, cli_command))"

section \<open>How the device is reached\<close>

text \<open>
  The framework asks the command for its configuration file before it runs the command, so the
  command sees the flag as that left it.
\<close>

definition command_env :: "string option \<Rightarrow> kms_command \<Rightarrow> hsm_env \<Rightarrow> hsm_env" where
  "command_env var self env = env\<lparr>he_cli_command := snd (config_path var self (he_cli_command env))\<rparr>"

lemma config_path_marks:
  "snd (config_path var self cli) \<longleftrightarrow> cli \<or> (\<exists>y. self = Yubihsm_cmd y)"
  by (cases self) (auto simp: config_path_def yubihsm_config_path_def mark_cli_command_def)

text \<open>
  When the configuration starts a connector server with an override for commands, every
  \<^verbatim>\<open>tmkms yubihsm\<close> command reaches the device through that server with the overriding key and
  typed-in password, while \<^verbatim>\<open>tmkms start\<close>, in a process of its own, opens the configured adapter
  and serves that address.
\<close>

theorem commands_share_connector:
  assumes "init_client accepts (command_env var self env) config = Done (connector, creds, reconnect)"
    and "pc_yubihsm (kc_providers config) = [cfg]" and "he_server env" and "\<not> he_cli_command env"
    and "yc_connector_server cfg = Some \<lparr>cs_laddr = Tcp peer host port, cs_cli = Some \<lparr>cli_auth_key = Some k\<rparr>\<rparr>"
  shows "(case self of
       Yubihsm_cmd y \<Rightarrow> connector = Http_connector host port \<and> crd_key_id creds = k \<and> \<not> reconnect \<and>
         init_connector (command_env var self env) config = Done (connector, None)
     | _ \<Rightarrow> auth_credentials (he_files env) (yc_auth cfg) = Done creds \<and> reconnect \<and>
         init_connector (command_env var self env) config = Done (connector, Some (host, port)))"
proof -
  have flag: "he_cli_command (command_env var self env) \<longleftrightarrow> (\<exists>y. self = Yubihsm_cmd y)"
    using config_path_marks [of var self "he_cli_command env"] assms(4) by (simp add: command_env_def)
  have rest: "he_server (command_env var self env)" "he_files (command_env var self env) = he_files env"
    using assms(3) by (simp_all add: command_env_def)
  show ?thesis
    using client_follows_mode [OF assms(1,2) rest(1) assms(5)] flag rest(2) by (cases self) auto
qed

theorem commands_share_connector_witness:
  "init_connector (command_env None (Yubihsm_cmd (Detect False)) (terminal False)) server_kms =
     Done (Http_connector ''localhost'' 12345, None) \<and>
   init_connector (command_env None (Start_cmd None False) (terminal False)) server_kms =
     Done (Usb_connector None 1000, Some (''localhost'', 12345))"
proof -
  have cfg: "pc_yubihsm (kc_providers server_kms) = [server_hsm]"
    and server: "yc_connector_server server_hsm =
      Some \<lparr>cs_laddr = Tcp None ''localhost'' 12345, cs_cli = Some \<lparr>cli_auth_key = Some 2\<rparr>\<rparr>"
    and t: "he_server (terminal False)" "\<not> he_cli_command (terminal False)"
    by (simp_all add: server_kms_def server_hsm_def terminal_def)
  note run = init_client_def client_config_def hsm_config_def server_kms_def server_hsm_def terminal_def
    prompt_for_auth_key_password_def init_connector_def connect_http_def command_env_def config_path_def
    yubihsm_config_path_def mark_cli_command_def auth_credentials_def
  have "init_client (\<lambda>_ _ _. True) (command_env None (Yubihsm_cmd (Detect False)) (terminal False)) server_kms =
      Done (Http_connector ''localhost'' 12345, \<lparr>crd_key_id = 2, crd_password = str_bytes ''typed''\<rparr>, False)"
    by (simp add: run)
  from commands_share_connector [OF this cfg t server]
  have 1: "init_connector (command_env None (Yubihsm_cmd (Detect False)) (terminal False)) server_kms =
      Done (Http_connector ''localhost'' 12345, None)" by simp
  have "init_client (\<lambda>_ _ _. True) (command_env None (Start_cmd None False) (terminal False)) server_kms =
      Done (Usb_connector None 1000, \<lparr>crd_key_id = 1, crd_password = str_bytes ''secret''\<rparr>, True)"
    by (simp add: run)
  from commands_share_connector [OF this cfg t server] 1 show ?thesis by simp
qed

end
