(* ===== verification/Kms_Application.thy ===== *)
theory Kms_Application
  imports Command_Line Tx_Signer
begin

text \<open>
  The shell around the program: the application object (\<^verbatim>\<open>src/application.rs\<close>), the \<^verbatim>\<open>start\<close> and \<^verbatim>\<open>version\<close>
  commands as a whole (\<^verbatim>\<open>src/commands/start.rs\<close>, \<^verbatim>\<open>src/commands/version.rs\<close>), the connector server of the
  YubiHSM and the build variants of \<^verbatim>\<open>src/yubihsm.rs\<close>.  What \<^verbatim>\<open>abscissa\<close> provides is an argument.
\<close>

section \<open>The application object\<close>

text \<open>
  The framework: its own components for a command, the component of the asynchronous executor, the
  registry that takes components and hands them the configuration, and the configuration cell.
\<close>

record ('comp, 'reg, 'cell) framework =
  fw_components :: "kms_command \<Rightarrow> (unit, 'comp list) outcome"
  fw_tokio_new :: "(unit, 'comp) outcome"
  fw_register :: "'comp list \<Rightarrow> 'reg \<Rightarrow> (unit, 'reg) outcome"
  fw_after_config :: "kms_config \<Rightarrow> 'reg \<Rightarrow> (unit, 'reg) outcome"
  fw_set_once :: "kms_config \<Rightarrow> 'cell \<Rightarrow> (unit, 'cell) outcome"
  fw_read :: "'cell \<Rightarrow> (unit, kms_config) outcome"

record ('reg, 'cell) kms_application =
  app_config_cell :: 'cell
  app_registry :: 'reg

datatype trace_config = Trace_verbose | Trace_default

definition app_config :: "('comp, 'reg, 'cell) framework \<Rightarrow> ('reg, 'cell) kms_application \<Rightarrow> (unit, kms_config) outcome" where
  "app_config fw self = fw_read fw (app_config_cell self)"

text \<open>With the transaction signer built in (\<open>tx_signer\<close>) the executor is one more component.\<close>

definition register_components ::
  "bool \<Rightarrow> ('comp, 'reg, 'cell) framework \<Rightarrow> kms_command \<Rightarrow> ('reg, 'cell) kms_application
     \<Rightarrow> (unit, ('reg, 'cell) kms_application) outcome" where
  "register_components tx_signer fw command self =
     obind (fw_components fw command) (\<lambda>components.
     obind (if tx_signer then obind (fw_tokio_new fw) (\<lambda>tokio. Done (components @ [tokio])) else Done components)
       (\<lambda>components.
     obind (fw_register fw components (app_registry self)) (\<lambda>registry.
       Done (self\<lparr>app_registry := registry\<rparr>))))"

definition after_config ::
  "('comp, 'reg, 'cell) framework \<Rightarrow> kms_config \<Rightarrow> ('reg, 'cell) kms_application
     \<Rightarrow> (unit, ('reg, 'cell) kms_application) outcome" where
  "after_config fw config self =
     obind (fw_after_config fw config (app_registry self)) (\<lambda>registry.
     obind (fw_set_once fw config (app_config_cell self)) (\<lambda>cell.
       Done (self\<lparr>app_registry := registry, app_config_cell := cell\<rparr>)))"

definition tracing_config :: "kms_command \<Rightarrow> trace_config" where
  "tracing_config command = (if verbose command then Trace_verbose else Trace_default)"

section \<open>Starting and waiting\<close>

text \<open>
  The clients' results are what their threads return; the executor runs the signer until it fails,
  and \<open>executor\<close> says whether the executor itself reported an error.
\<close>

definition run_app_plain :: "(error_kind, unit) outcome list \<Rightarrow> (nat, unit) outcome" where
  "run_app_plain results = blocking_wait True results"

definition run_async_executor ::
  "(tx_signer_config \<Rightarrow> (start_failure, tx_signer) outcome) \<Rightarrow> (tx_signer \<Rightarrow> bool) \<Rightarrow> tx_signer_config \<Rightarrow> (nat, unit) outcome" where
  "run_async_executor new_signer executor config =
     obind (map_err (\<lambda>_. 1) (new_signer config)) (\<lambda>signer.
       if executor signer then Done () else Failed 1)"

definition run_app_all ::
  "(tx_signer_config \<Rightarrow> (start_failure, tx_signer) outcome) \<Rightarrow> (tx_signer \<Rightarrow> bool) \<Rightarrow> kms_config
     \<Rightarrow> (error_kind, unit) outcome list \<Rightarrow> (nat, unit) outcome" where
  "run_app_all new_signer executor config results =
     obind (run_app config) (\<lambda>mode.
       case mode of
         Run_tx_signer cfg \<Rightarrow> run_async_executor new_signer executor cfg
       | Wait_for_clients \<Rightarrow> blocking_wait True results)"

text \<open>\<open>results\<close> gives the outcome of a client's thread.\<close>

definition start_run ::
  "tendermint_crate \<Rightarrow> state_json \<Rightarrow> (chain_config \<Rightarrow> chain_env) \<Rightarrow> key_sources
     \<Rightarrow> (tx_signer_config \<Rightarrow> (start_failure, tx_signer) outcome) \<Rightarrow> (tx_signer \<Rightarrow> bool)
     \<Rightarrow> (registry \<Rightarrow> validator_config \<Rightarrow> (error_kind, unit) outcome) \<Rightarrow> (nat \<Rightarrow> bool) \<Rightarrow> kms_config \<Rightarrow> disk
     \<Rightarrow> ((registry \<times> disk) \<times> validator_config list, nat, unit) run" where
  "start_run tm js env ks new_signer executor results threads config disk =
     rbind (spawn_clients threads tm js env ks config disk) (\<lambda>s _.
       case s of ((registry, d), clients) \<Rightarrow>
         (s, run_app_all new_signer executor config (map (results registry) clients)))"

text \<open>The version command prints the version the program was built with and exits with 0.\<close>

definition version_run :: "string option \<Rightarrow> string \<times> nat" where
  "version_run pkg_version = (case pkg_version of None \<Rightarrow> ''unknown'' | Some v \<Rightarrow> v, 0)"

section \<open>Build variants of the YubiHSM client\<close>

definition is_cli_command :: "hsm_env \<Rightarrow> bool" where
  "is_cli_command env = he_cli_command env"

definition client_config_no_server :: "hsm_env \<Rightarrow> kms_config \<Rightarrow> (nat, credentials \<times> bool) outcome" where
  "client_config_no_server env config =
     obind (hsm_config config) (\<lambda>cfg.
     obind (auth_credentials (he_files env) (yc_auth cfg)) (\<lambda>credentials. Done (credentials, True)))"

lemma client_config_variants: "\<not> he_server env \<Longrightarrow> client_config env config = client_config_no_server env config"
  by (simp add: client_config_def client_config_no_server_def)

text \<open>
  The connector server: one server after the other, for each whether it could be made and how its
  run ended; \<open>None\<close> is the thread still running.
\<close>

definition server_panic :: panic_payload where
  "server_panic = Payload_String ''couldn't start yubihsm connector HTTP server''"

fun run_connector_server :: "(bool \<times> (unit, unit) outcome) list \<Rightarrow> (unit, unit) outcome option" where
  "run_connector_server [] = None"
| "run_connector_server ((made, run) # servers) =
     (if \<not> made then Some (Panicked server_panic)
      else case run of
             Panicked p \<Rightarrow> Some (Panicked p)
           | _ \<Rightarrow> run_connector_server servers)"

lemma connector_server_restarts:
  "\<forall>(made, run) \<in> set servers. made \<and> \<not> is_panic run \<Longrightarrow>
     run_connector_server (servers @ rest) = run_connector_server rest"
proof (induction servers)
  case (Cons s servers)
  then show ?case by (cases s; cases "snd s") auto
qed simp

section \<open>The configuration the program runs with\<close>

text \<open>What is relied on in the configuration cell: it keeps what was set, and refuses to be set again.\<close>

definition keeps_config :: "('comp, 'reg, 'cell) framework \<Rightarrow> bool" where
  "keeps_config fw \<longleftrightarrow>
     (\<forall>config cell cell'. fw_set_once fw config cell = Done cell' \<longrightarrow> fw_read fw cell' = Done config) \<and>
     (\<forall>config config' cell. fw_read fw cell = Done config \<longrightarrow> is_panic (fw_set_once fw config' cell))"

lemma after_config_loads:
  assumes "keeps_config fw" and "after_config fw config self = Done self'"
  shows "app_config fw self' = Done config" and "after_config fw config' self' \<noteq> Done self''"
proof -
  have "fw_set_once fw config (app_config_cell self) = Done (app_config_cell self')"
    using assms(2) by (auto simp: after_config_def obind_Done_iff)
  then show cfg: "app_config fw self' = Done config"
    using assms(1) by (simp add: app_config_def keeps_config_def)
  then have "is_panic (fw_set_once fw config' (app_config_cell self'))"
    using assms(1) by (auto simp: app_config_def keeps_config_def)
  then show "after_config fw config' self' \<noteq> Done self''"
    by (auto simp: after_config_def obind_Done_iff)
qed

section \<open>How the start command ends\<close>

lemma main_loop_fails: "main_loop cs fs config ios w = (w', Some r) \<Longrightarrow> \<exists>e. r = Failed e"
proof (induction ios arbitrary: w)
  case (Cons io ios)
  obtain v s where run: "run_client cs fs config io w = (v, s)" by (metis surj_pair)
  then consider "s = None" | e where "s = Some (Failed e)"
    using run_client_result [of cs fs config io w] by auto
  then show ?case using Cons run by cases (auto split: if_splits)
qed simp

lemma blocking_wait_errors:
  "\<forall>r \<in> set results. \<exists>e. r = Failed e \<Longrightarrow> results \<noteq> [] \<or> \<not> success \<Longrightarrow> blocking_wait success results = Failed 1"
proof (induction results arbitrary: success)
  case (Cons r results)
  then obtain e where "r = Failed e" by auto
  then show ?case using Cons by simp
qed simp

text \<open>
  A KMS with validators and no transaction signer ends with exit code 1, and only when every one
  of its clients has stopped: the results it waits for are all errors, so it neither reports a
  successful shutdown nor panics.
\<close>

theorem start_ends_with_error:
  assumes "kc_tx_signer config = []" and "results \<noteq> []"
    and "\<forall>r \<in> set results. \<exists>cs fs vc ios w w'. main_loop cs fs vc ios w = (w', Some r)"
  shows "run_app_all new_signer executor config results = Failed 1"
proof -
  have "\<forall>r \<in> set results. \<exists>e. r = Failed e" using assms(3) main_loop_fails by blast
  then have "blocking_wait True results = Failed 1" using assms(2) by (intro blocking_wait_errors) simp_all
  then show ?thesis using assms(1) by (simp add: run_app_all_def run_app_def)
qed

definition one_validator :: kms_config where
  "one_validator = \<lparr>kc_chain = [], kc_providers = kc_providers server_kms, kc_validator = [sample_validator],
     kc_tx_signer = []\<rparr>"

theorem start_ends_with_error_witness:
  "run_app_all (\<lambda>_. Failed (Start_error ConfigError)) (\<lambda>_. False) one_validator [Failed PoisonError] = Failed 1"
proof -
  have "\<exists>cs fs vc ios w w'. main_loop cs fs vc ios w = (w', Some (Failed PoisonError))"
    using poisoned_client_ends by blast
  then show ?thesis
    using start_ends_with_error [of one_validator "[Failed PoisonError]"] by (simp add: one_validator_def)
qed

end
