(* ===== verification/Wire_Format.thy ===== *)
theory Wire_Format
  imports Kms_Prelude
begin

text \<open>
  The wire format that both families of messages share: a message is a sequence of fields, each a
  key (field number and wire type) and a value, a number of variable length, eight bytes or a
  length-delimited string of bytes.  A field that holds its default is left out.  The encoders of
  the program are derived by the \<^verbatim>\<open>prost\<close> crates and stay parameters of the model; this theory and
  \<open>Wire_Messages\<close> give one instance of them in the documented format, which is compared with the
  test vectors of the sources.  Every field is read back, with what follows it handed on, so that
  the round trips of fields compose.  The readers are for what the encoders write: a field that occurs
  twice or with another wire type, which the derived decoders merge, take last or refuse, does not occur
  there, and nothing is said of such input.
\<close>

named_theorems field_simps \<open>looking up one field in a sequence of fields\<close>

section \<open>Numbers\<close>

text \<open>Seven bits in each byte, the low ones first, the top bit set in all but the last byte.\<close>

function varint :: "nat \<Rightarrow> bytes" where
  "varint n = (if n < 128 then [word_of_nat n] else word_of_nat (128 + n mod 128) # varint (n div 128))"
  by auto

termination
  by (relation "measure id") auto

declare varint.simps [simp del]

fun read_varint :: "bytes \<Rightarrow> (nat \<times> bytes) option" where
  "read_varint [] = None"
| "read_varint (b # bs) =
     (if unat b < 128 then Some (unat b, bs)
      else map_option (\<lambda>(m, r). (unat b - 128 + 128 * m, r)) (read_varint bs))"

lemma unat_byte: "n < 256 \<Longrightarrow> unat (word_of_nat n :: u8) = n"
  by (simp add: unat_of_nat)

lemma read_varint_varint [simp]: "read_varint (varint n @ r) = Some (n, r)"
proof (induction n rule: varint.induct)
  case (1 n)
  show ?case
  proof (cases "n < 128")
    case True
    then show ?thesis by (simp add: varint.simps [of n] unat_byte)
  next
    case False
    have "unat (word_of_nat (128 + n mod 128) :: u8) = 128 + n mod 128" by (rule unat_byte) simp
    then show ?thesis using 1 [OF False] False by (simp add: varint.simps [of n] del: of_nat_add)
  qed
qed

lemma read_varint_shorter: "read_varint bs = Some (n, r) \<Longrightarrow> length r < length bs"
  by (induction bs arbitrary: n) (auto split: if_splits)

lemma varint_not_Nil [simp]: "varint n \<noteq> []"
  by (simp add: varint.simps [of n])

text \<open>A number in a fixed number of bytes, the low ones first.\<close>

fun le_bytes :: "nat \<Rightarrow> nat \<Rightarrow> bytes" where
  "le_bytes 0 n = []"
| "le_bytes (Suc k) n = word_of_nat (n mod 256) # le_bytes k (n div 256)"

fun le_nat :: "bytes \<Rightarrow> nat" where
  "le_nat [] = 0"
| "le_nat (b # bs) = unat b + 256 * le_nat bs"

lemma length_le_bytes [simp]: "length (le_bytes k n) = k"
  by (induction k arbitrary: n) auto

lemma le_nat_le_bytes: "n < 256 ^ k \<Longrightarrow> le_nat (le_bytes k n) = n"
proof (induction k arbitrary: n)
  case (Suc k)
  then have "n div 256 < 256 ^ k" by (simp add: less_mult_imp_div_less mult.commute)
  then show ?case using Suc.IH by (simp add: unat_byte)
qed simp

section \<open>Fields\<close>

datatype wire_value = Varint nat | Fixed64 u64 | Delimited bytes

type_synonym wire_field = "nat \<times> wire_value"

fun wire_type :: "wire_value \<Rightarrow> nat" where
  "wire_type (Varint n) = 0"
| "wire_type (Fixed64 w) = 1"
| "wire_type (Delimited b) = 2"

definition delimited :: "bytes \<Rightarrow> bytes" where
  "delimited b = varint (length b) @ b"

fun encode_value :: "wire_value \<Rightarrow> bytes" where
  "encode_value (Varint n) = varint n"
| "encode_value (Fixed64 w) = le_bytes 8 (unat w)"
| "encode_value (Delimited b) = delimited b"

definition encode_field :: "wire_field \<Rightarrow> bytes" where
  "encode_field f = varint (8 * fst f + wire_type (snd f)) @ encode_value (snd f)"

definition encode_fields :: "wire_field list \<Rightarrow> bytes" where
  "encode_fields fs = concat (map encode_field fs)"

definition read_delimited :: "bytes \<Rightarrow> (bytes \<times> bytes) option" where
  "read_delimited bs =
     Option.bind (read_varint bs) (\<lambda>(n, r). if length r < n then None else Some (take n r, drop n r))"

definition read_value :: "nat \<Rightarrow> bytes \<Rightarrow> (wire_value \<times> bytes) option" where
  "read_value w bs =
     (if w = 0 then map_option (\<lambda>(n, r). (Varint n, r)) (read_varint bs)
      else if w = 1 then (if length bs < 8 then None else Some (Fixed64 (word_of_nat (le_nat (take 8 bs))), drop 8 bs))
      else if w = 2 then map_option (\<lambda>(b, r). (Delimited b, r)) (read_delimited bs)
      else None)"

definition read_field :: "bytes \<Rightarrow> (wire_field \<times> bytes) option" where
  "read_field bs =
     Option.bind (read_varint bs) (\<lambda>(key, r).
       map_option (\<lambda>(v, r). ((key div 8, v), r)) (read_value (key mod 8) r))"

lemma read_delimited_delimited [simp]: "read_delimited (delimited b @ r) = Some (b, r)"
  by (simp add: read_delimited_def delimited_def)

lemma read_value_encode: "read_value (wire_type v) (encode_value v @ r) = Some (v, r)"
proof (cases v)
  case (Fixed64 w)
  have "le_nat (le_bytes 8 (unat w)) = unat w"
    using unsigned_less [where 'a = nat, of w] by (intro le_nat_le_bytes) simp
  then show ?thesis using Fixed64 by (simp add: read_value_def)
qed (simp_all add: read_value_def)

lemma read_field_encode [simp]: "read_field (encode_field f @ r) = Some (f, r)"
proof -
  have "wire_type (snd f) < 8" by (cases "snd f") simp_all
  then show ?thesis by (simp add: read_field_def encode_field_def read_value_encode)
qed

lemma read_delimited_shorter: "read_delimited bs = Some (b, r) \<Longrightarrow> length r < length bs"
  by (auto simp: read_delimited_def bind_eq_Some_conv dest!: read_varint_shorter split: if_splits)

lemma read_value_shorter: "read_value w bs = Some (v, r) \<Longrightarrow> length r < length bs"
  by (auto simp: read_value_def dest: read_varint_shorter read_delimited_shorter split: if_splits)

lemma read_field_shorter: "read_field bs = Some (f, r) \<Longrightarrow> length r < length bs"
  by (fastforce simp: read_field_def bind_eq_Some_conv dest: read_varint_shorter read_value_shorter)

section \<open>Messages\<close>

text \<open>All fields of a message; reading ends because every field takes at least one byte.\<close>

function read_fields :: "bytes \<Rightarrow> wire_field list option" where
  "read_fields bs =
     (if bs = [] then Some []
      else case read_field bs of
             None \<Rightarrow> None
           | Some (f, r) \<Rightarrow> map_option ((#) f) (read_fields r))"
  by auto

termination
  by (relation "measure length") (auto dest: read_field_shorter)

declare read_fields.simps [simp del]

lemma encode_field_not_Nil [simp]: "encode_field f \<noteq> []"
  by (simp add: encode_field_def)

lemma read_fields_encode [simp]: "read_fields (encode_fields fs) = Some fs"
proof (induction fs)
  case Nil
  then show ?case by (simp add: encode_fields_def read_fields.simps)
next
  case (Cons f fs)
  then show ?case
    using read_fields.simps [of "encode_field f @ encode_fields fs"] by (simp add: encode_fields_def)
qed

lemma encode_fields_inj: "encode_fields fs = encode_fields gs \<longleftrightarrow> fs = gs"
  by (metis option.inject read_fields_encode)

lemma delimited_inj: "delimited a = delimited b \<longleftrightarrow> a = b"
  by (metis append_Nil2 option.inject prod.inject read_delimited_delimited)

text \<open>The fields of a message, each left out when it holds its default, and how they are found.\<close>

definition uint_field :: "nat \<Rightarrow> nat \<Rightarrow> wire_field list" where
  "uint_field t n = (if n = 0 then [] else [(t, Varint n)])"

definition fixed_field :: "nat \<Rightarrow> u64 \<Rightarrow> wire_field list" where
  "fixed_field t w = (if w = 0 then [] else [(t, Fixed64 w)])"

definition bytes_field :: "nat \<Rightarrow> bytes \<Rightarrow> wire_field list" where
  "bytes_field t b = (if b = [] then [] else [(t, Delimited b)])"

definition message_field :: "nat \<Rightarrow> bytes option \<Rightarrow> wire_field list" where
  "message_field t m = (case m of None \<Rightarrow> [] | Some b \<Rightarrow> [(t, Delimited b)])"

definition get_uint :: "nat \<Rightarrow> wire_field list \<Rightarrow> nat" where
  "get_uint t fs = (case map_of fs t of Some (Varint n) \<Rightarrow> n | _ \<Rightarrow> 0)"

definition get_fixed :: "nat \<Rightarrow> wire_field list \<Rightarrow> u64" where
  "get_fixed t fs = (case map_of fs t of Some (Fixed64 w) \<Rightarrow> w | _ \<Rightarrow> 0)"

definition get_bytes :: "nat \<Rightarrow> wire_field list \<Rightarrow> bytes" where
  "get_bytes t fs = (case map_of fs t of Some (Delimited b) \<Rightarrow> b | _ \<Rightarrow> [])"

definition get_message :: "nat \<Rightarrow> wire_field list \<Rightarrow> bytes option" where
  "get_message t fs = (case map_of fs t of Some (Delimited b) \<Rightarrow> Some b | _ \<Rightarrow> None)"

lemmas field_list_defs = uint_field_def fixed_field_def bytes_field_def message_field_def

lemmas get_field_defs = get_uint_def get_fixed_def get_bytes_def get_message_def

text \<open>Fields with another number are skipped; the field itself is found, or what follows if it was left out.\<close>

lemma get_other [field_simps]:
  "s \<noteq> t \<Longrightarrow> get_uint t (uint_field s n @ fs) = get_uint t fs"
  "s \<noteq> t \<Longrightarrow> get_uint t (fixed_field s w @ fs) = get_uint t fs"
  "s \<noteq> t \<Longrightarrow> get_uint t (bytes_field s b @ fs) = get_uint t fs"
  "s \<noteq> t \<Longrightarrow> get_uint t (message_field s m @ fs) = get_uint t fs"
  "s \<noteq> t \<Longrightarrow> get_fixed t (uint_field s n @ fs) = get_fixed t fs"
  "s \<noteq> t \<Longrightarrow> get_fixed t (fixed_field s w @ fs) = get_fixed t fs"
  "s \<noteq> t \<Longrightarrow> get_fixed t (bytes_field s b @ fs) = get_fixed t fs"
  "s \<noteq> t \<Longrightarrow> get_fixed t (message_field s m @ fs) = get_fixed t fs"
  "s \<noteq> t \<Longrightarrow> get_bytes t (uint_field s n @ fs) = get_bytes t fs"
  "s \<noteq> t \<Longrightarrow> get_bytes t (fixed_field s w @ fs) = get_bytes t fs"
  "s \<noteq> t \<Longrightarrow> get_bytes t (bytes_field s b @ fs) = get_bytes t fs"
  "s \<noteq> t \<Longrightarrow> get_bytes t (message_field s m @ fs) = get_bytes t fs"
  "s \<noteq> t \<Longrightarrow> get_message t (uint_field s n @ fs) = get_message t fs"
  "s \<noteq> t \<Longrightarrow> get_message t (fixed_field s w @ fs) = get_message t fs"
  "s \<noteq> t \<Longrightarrow> get_message t (bytes_field s b @ fs) = get_message t fs"
  "s \<noteq> t \<Longrightarrow> get_message t (message_field s m @ fs) = get_message t fs"
  by (simp_all add: field_list_defs get_field_defs split: option.splits)

lemma get_other_last [field_simps]:
  "s \<noteq> t \<Longrightarrow> get_uint t (uint_field s n) = 0"
  "s \<noteq> t \<Longrightarrow> get_uint t (fixed_field s w) = 0"
  "s \<noteq> t \<Longrightarrow> get_uint t (bytes_field s b) = 0"
  "s \<noteq> t \<Longrightarrow> get_uint t (message_field s m) = 0"
  "s \<noteq> t \<Longrightarrow> get_fixed t (uint_field s n) = 0"
  "s \<noteq> t \<Longrightarrow> get_fixed t (fixed_field s w) = 0"
  "s \<noteq> t \<Longrightarrow> get_fixed t (bytes_field s b) = 0"
  "s \<noteq> t \<Longrightarrow> get_fixed t (message_field s m) = 0"
  "s \<noteq> t \<Longrightarrow> get_bytes t (uint_field s n) = []"
  "s \<noteq> t \<Longrightarrow> get_bytes t (fixed_field s w) = []"
  "s \<noteq> t \<Longrightarrow> get_bytes t (bytes_field s b) = []"
  "s \<noteq> t \<Longrightarrow> get_bytes t (message_field s m) = []"
  "s \<noteq> t \<Longrightarrow> get_message t (uint_field s n) = None"
  "s \<noteq> t \<Longrightarrow> get_message t (fixed_field s w) = None"
  "s \<noteq> t \<Longrightarrow> get_message t (bytes_field s b) = None"
  "s \<noteq> t \<Longrightarrow> get_message t (message_field s m) = None"
  by (simp_all add: field_list_defs get_field_defs split: option.splits)

lemma get_own [field_simps]:
  "get_uint t fs = 0 \<Longrightarrow> get_uint t (uint_field t n @ fs) = n"
  "get_fixed t fs = 0 \<Longrightarrow> get_fixed t (fixed_field t w @ fs) = w"
  "get_bytes t fs = [] \<Longrightarrow> get_bytes t (bytes_field t b @ fs) = b"
  "get_message t fs = None \<Longrightarrow> get_message t (message_field t m @ fs) = m"
  by (simp_all add: field_list_defs get_field_defs split: option.splits)

lemma get_own_last [field_simps]:
  "get_uint t (uint_field t n) = n" "get_fixed t (fixed_field t w) = w"
  "get_bytes t (bytes_field t b) = b" "get_message t (message_field t m) = m"
  by (simp_all add: field_list_defs get_field_defs split: option.splits)

text \<open>Text is stored as its bytes.\<close>

definition bytes_str :: "bytes \<Rightarrow> string" where
  "bytes_str b = map (\<lambda>x. char_of (unat x)) b"

lemma bytes_str_str_bytes [simp]: "bytes_str (str_bytes s) = s"
proof -
  have "char_of (unat (word_of_nat (of_char c) :: u8)) = c" for c
    using unat_byte [of "of_char c"] by simp
  then show ?thesis by (simp add: bytes_str_def str_bytes_def comp_def)
qed

end
