(* ===== verification/Wire_Messages.thy ===== *)
theory Wire_Messages
  imports Rpc Wire_Format
begin

text \<open>
  The messages of the program in the wire format: the field numbers and types are those of the
  \<^verbatim>\<open>prost_amino\<close> attributes in \<^verbatim>\<open>src/amino_types\<close>, and of the published protocol buffer schema for the
  canonical messages of \<^verbatim>\<open>tendermint_proto\<close>.  They instantiate the encoders that the model takes as
  parameters.  What is proved for the instance: every message is read back, so that the bytes that
  are signed determine what was signed.
\<close>

section \<open>Building blocks\<close>

text \<open>Signed numbers are written as their 64-bit two's complement.\<close>

definition int64_field :: "nat \<Rightarrow> i64 \<Rightarrow> wire_field list" where
  "int64_field t x = uint_field t (unat x)"

definition int32_field :: "nat \<Rightarrow> i32 \<Rightarrow> wire_field list" where
  "int32_field t x = uint_field t (unat (sext_64 x))"

definition uint32_field :: "nat \<Rightarrow> u32 \<Rightarrow> wire_field list" where
  "uint32_field t x = uint_field t (unat x)"

definition get_int64 :: "nat \<Rightarrow> wire_field list \<Rightarrow> i64" where
  "get_int64 t fs = word_of_nat (get_uint t fs)"

definition get_int32 :: "nat \<Rightarrow> wire_field list \<Rightarrow> i32" where
  "get_int32 t fs = trunc_32 (word_of_nat (get_uint t fs))"

definition get_uint32 :: "nat \<Rightarrow> wire_field list \<Rightarrow> u32" where
  "get_uint32 t fs = word_of_nat (get_uint t fs)"

text \<open>A nested message that may be absent.\<close>

definition nested_field :: "nat \<Rightarrow> ('m \<Rightarrow> bytes) \<Rightarrow> 'm option \<Rightarrow> wire_field list" where
  "nested_field t enc m = message_field t (map_option enc m)"

definition get_nested :: "nat \<Rightarrow> (bytes \<Rightarrow> 'm option) \<Rightarrow> wire_field list \<Rightarrow> 'm option option" where
  "get_nested t rd fs =
     (case get_message t fs of None \<Rightarrow> Some None | Some b \<Rightarrow> map_option Some (rd b))"

lemma get_nested_own [field_simps]:
  "(\<And>x. rd (enc x) = Some x) \<Longrightarrow> get_message t fs = None \<Longrightarrow>
     get_nested t rd (message_field t (map_option enc m) @ fs) = Some m"
  "(\<And>x. rd (enc x) = Some x) \<Longrightarrow> get_nested t rd (message_field t (map_option enc m)) = Some m"
  by (cases m; simp add: get_nested_def get_own get_own_last)+

lemma get_nested_other [field_simps]:
  "s \<noteq> t \<Longrightarrow> get_nested t rd (uint_field s n @ fs) = get_nested t rd fs"
  "s \<noteq> t \<Longrightarrow> get_nested t rd (fixed_field s w @ fs) = get_nested t rd fs"
  "s \<noteq> t \<Longrightarrow> get_nested t rd (bytes_field s b @ fs) = get_nested t rd fs"
  "s \<noteq> t \<Longrightarrow> get_nested t rd (message_field s k @ fs) = get_nested t rd fs"
  by (simp_all add: get_nested_def get_other)

lemmas field_defs = int64_field_def int32_field_def uint32_field_def nested_field_def

lemmas get_defs = get_int64_def get_int32_def get_uint32_def

lemmas read_back = field_defs get_defs field_simps

section \<open>Time stamps and block IDs\<close>

definition time_bytes :: "time_msg \<Rightarrow> bytes" where
  "time_bytes t = encode_fields (int64_field 1 (tm_seconds t) @ int32_field 2 (tm_nanos t))"

definition read_time :: "bytes \<Rightarrow> time_msg option" where
  "read_time b = map_option (\<lambda>fs. \<lparr>tm_seconds = get_int64 1 fs, tm_nanos = get_int32 2 fs\<rparr>) (read_fields b)"

lemma read_time_bytes [simp]: "read_time (time_bytes t) = Some t"
  by (simp add: read_time_def time_bytes_def read_back)

definition parts_header_bytes :: "parts_set_header \<Rightarrow> bytes" where
  "parts_header_bytes h = encode_fields (int64_field 1 (psh_total h) @ bytes_field 2 (psh_hash h))"

definition read_parts_header :: "bytes \<Rightarrow> parts_set_header option" where
  "read_parts_header b =
     map_option (\<lambda>fs. \<lparr>psh_total = get_int64 1 fs, psh_hash = get_bytes 2 fs\<rparr>) (read_fields b)"

definition block_id_bytes :: "amino_block_id \<Rightarrow> bytes" where
  "block_id_bytes i =
     encode_fields (bytes_field 1 (bid_hash i) @ nested_field 2 parts_header_bytes (bid_parts_header i))"

definition read_block_id :: "bytes \<Rightarrow> amino_block_id option" where
  "read_block_id b =
     Option.bind (read_fields b) (\<lambda>fs.
     Option.bind (get_nested 2 read_parts_header fs) (\<lambda>h.
       Some \<lparr>bid_hash = get_bytes 1 fs, bid_parts_header = h\<rparr>))"

text \<open>The canonical forms, in which the parts header has its fields in the other order.\<close>

definition canonical_parts_header_bytes :: "canonical_part_set_header \<Rightarrow> bytes" where
  "canonical_parts_header_bytes h = encode_fields (bytes_field 1 (cpsh_hash h) @ int64_field 2 (cpsh_total h))"

definition read_canonical_parts_header :: "bytes \<Rightarrow> canonical_part_set_header option" where
  "read_canonical_parts_header b =
     map_option (\<lambda>fs. \<lparr>cpsh_hash = get_bytes 1 fs, cpsh_total = get_int64 2 fs\<rparr>) (read_fields b)"

definition canonical_block_id_bytes :: "canonical_block_id \<Rightarrow> bytes" where
  "canonical_block_id_bytes i =
     encode_fields (bytes_field 1 (cbid_hash i) @ nested_field 2 canonical_parts_header_bytes (cbid_parts_header i))"

definition read_canonical_block_id :: "bytes \<Rightarrow> canonical_block_id option" where
  "read_canonical_block_id b =
     Option.bind (read_fields b) (\<lambda>fs.
     Option.bind (get_nested 2 read_canonical_parts_header fs) (\<lambda>h.
       Some \<lparr>cbid_hash = get_bytes 1 fs, cbid_parts_header = h\<rparr>))"

definition pb_parts_header_bytes :: "pb_part_set_header \<Rightarrow> bytes" where
  "pb_parts_header_bytes h = encode_fields (uint32_field 1 (pb_total h) @ bytes_field 2 (pb_psh_hash h))"

definition read_pb_parts_header :: "bytes \<Rightarrow> pb_part_set_header option" where
  "read_pb_parts_header b =
     map_option (\<lambda>fs. \<lparr>pb_total = get_uint32 1 fs, pb_psh_hash = get_bytes 2 fs\<rparr>) (read_fields b)"

definition pb_block_id_bytes :: "pb_block_id \<Rightarrow> bytes" where
  "pb_block_id_bytes i =
     encode_fields (bytes_field 1 (pb_hash i) @ nested_field 2 pb_parts_header_bytes (pb_part_set_header i))"

definition read_pb_block_id :: "bytes \<Rightarrow> pb_block_id option" where
  "read_pb_block_id b =
     Option.bind (read_fields b) (\<lambda>fs.
     Option.bind (get_nested 2 read_pb_parts_header fs) (\<lambda>h.
       Some \<lparr>pb_hash = get_bytes 1 fs, pb_part_set_header = h\<rparr>))"

lemma read_parts_header_bytes [simp]: "read_parts_header (parts_header_bytes h) = Some h"
  by (simp add: read_parts_header_def parts_header_bytes_def read_back)

lemma read_canonical_parts_header_bytes [simp]:
  "read_canonical_parts_header (canonical_parts_header_bytes h) = Some h"
  by (simp add: read_canonical_parts_header_def canonical_parts_header_bytes_def read_back)

lemma read_pb_parts_header_bytes [simp]: "read_pb_parts_header (pb_parts_header_bytes h) = Some h"
  by (simp add: read_pb_parts_header_def pb_parts_header_bytes_def read_back)

lemma read_block_id_bytes [simp]: "read_block_id (block_id_bytes i) = Some i"
  by (simp add: read_block_id_def block_id_bytes_def read_back)

lemma read_canonical_block_id_bytes [simp]: "read_canonical_block_id (canonical_block_id_bytes i) = Some i"
  by (simp add: read_canonical_block_id_def canonical_block_id_bytes_def read_back)

lemma read_pb_block_id_bytes [simp]: "read_pb_block_id (pb_block_id_bytes i) = Some i"
  by (simp add: read_pb_block_id_def pb_block_id_bytes_def read_back)

section \<open>Canonical messages\<close>

definition canonical_vote_bytes :: "canonical_vote \<Rightarrow> bytes" where
  "canonical_vote_bytes v = encode_fields
     (uint32_field 1 (cv_vote_type v) @ fixed_field 2 (cv_height v) @ fixed_field 3 (cv_round v) @
      nested_field 4 canonical_block_id_bytes (cv_block_id v) @ nested_field 5 time_bytes (cv_timestamp v) @
      bytes_field 6 (str_bytes (cv_chain_id v)))"

definition read_canonical_vote :: "bytes \<Rightarrow> canonical_vote option" where
  "read_canonical_vote b =
     Option.bind (read_fields b) (\<lambda>fs.
     Option.bind (get_nested 4 read_canonical_block_id fs) (\<lambda>i.
     Option.bind (get_nested 5 read_time fs) (\<lambda>t.
       Some \<lparr>cv_vote_type = get_uint32 1 fs, cv_height = get_fixed 2 fs, cv_round = get_fixed 3 fs,
         cv_block_id = i, cv_timestamp = t, cv_chain_id = bytes_str (get_bytes 6 fs)\<rparr>)))"

definition canonical_proposal_bytes :: "canonical_proposal \<Rightarrow> bytes" where
  "canonical_proposal_bytes p = encode_fields
     (uint32_field 1 (cp_msg_type p) @ fixed_field 2 (cp_height p) @ fixed_field 3 (cp_round p) @
      fixed_field 4 (cp_pol_round p) @ nested_field 5 canonical_block_id_bytes (cp_block_id p) @
      nested_field 6 time_bytes (cp_timestamp p) @ bytes_field 7 (str_bytes (cp_chain_id p)))"

definition read_canonical_proposal :: "bytes \<Rightarrow> canonical_proposal option" where
  "read_canonical_proposal b =
     Option.bind (read_fields b) (\<lambda>fs.
     Option.bind (get_nested 5 read_canonical_block_id fs) (\<lambda>i.
     Option.bind (get_nested 6 read_time fs) (\<lambda>t.
       Some \<lparr>cp_msg_type = get_uint32 1 fs, cp_height = get_fixed 2 fs, cp_round = get_fixed 3 fs,
         cp_pol_round = get_fixed 4 fs, cp_block_id = i, cp_timestamp = t,
         cp_chain_id = bytes_str (get_bytes 7 fs)\<rparr>)))"

text \<open>The same messages in the protocol buffer schema, where the message type is an enumeration.\<close>

definition pb_time_bytes :: "pb_timestamp \<Rightarrow> bytes" where
  "pb_time_bytes t = time_bytes (time_from_pb t)"

definition read_pb_time :: "bytes \<Rightarrow> pb_timestamp option" where
  "read_pb_time b = map_option time_to_pb (read_time b)"

definition pb_canonical_vote_bytes :: "pb_canonical_vote \<Rightarrow> bytes" where
  "pb_canonical_vote_bytes v = encode_fields
     (int32_field 1 (pcv_type v) @ fixed_field 2 (pcv_height v) @ fixed_field 3 (pcv_round v) @
      nested_field 4 pb_block_id_bytes (pcv_block_id v) @ nested_field 5 pb_time_bytes (pcv_timestamp v) @
      bytes_field 6 (str_bytes (pcv_chain_id v)))"

definition read_pb_canonical_vote :: "bytes \<Rightarrow> pb_canonical_vote option" where
  "read_pb_canonical_vote b =
     Option.bind (read_fields b) (\<lambda>fs.
     Option.bind (get_nested 4 read_pb_block_id fs) (\<lambda>i.
     Option.bind (get_nested 5 read_pb_time fs) (\<lambda>t.
       Some \<lparr>pcv_type = get_int32 1 fs, pcv_height = get_fixed 2 fs, pcv_round = get_fixed 3 fs,
         pcv_block_id = i, pcv_timestamp = t, pcv_chain_id = bytes_str (get_bytes 6 fs)\<rparr>)))"

definition pb_canonical_proposal_bytes :: "pb_canonical_proposal \<Rightarrow> bytes" where
  "pb_canonical_proposal_bytes p = encode_fields
     (int32_field 1 (pcp_type p) @ fixed_field 2 (pcp_height p) @ fixed_field 3 (pcp_round p) @
      int64_field 4 (pcp_pol_round p) @ nested_field 5 pb_block_id_bytes (pcp_block_id p) @
      nested_field 6 pb_time_bytes (pcp_timestamp p) @ bytes_field 7 (str_bytes (pcp_chain_id p)))"

definition read_pb_canonical_proposal :: "bytes \<Rightarrow> pb_canonical_proposal option" where
  "read_pb_canonical_proposal b =
     Option.bind (read_fields b) (\<lambda>fs.
     Option.bind (get_nested 5 read_pb_block_id fs) (\<lambda>i.
     Option.bind (get_nested 6 read_pb_time fs) (\<lambda>t.
       Some \<lparr>pcp_type = get_int32 1 fs, pcp_height = get_fixed 2 fs, pcp_round = get_fixed 3 fs,
         pcp_pol_round = get_int64 4 fs, pcp_block_id = i, pcp_timestamp = t,
         pcp_chain_id = bytes_str (get_bytes 7 fs)\<rparr>)))"

lemma read_pb_time_bytes [simp]: "read_pb_time (pb_time_bytes t) = Some t"
  by (simp add: read_pb_time_def pb_time_bytes_def)

lemma read_canonical_vote_bytes [simp]: "read_canonical_vote (canonical_vote_bytes v) = Some v"
  by (simp add: read_canonical_vote_def canonical_vote_bytes_def read_back)

lemma read_canonical_proposal_bytes [simp]: "read_canonical_proposal (canonical_proposal_bytes p) = Some p"
  by (simp add: read_canonical_proposal_def canonical_proposal_bytes_def read_back)

lemma read_pb_canonical_vote_bytes [simp]: "read_pb_canonical_vote (pb_canonical_vote_bytes v) = Some v"
  by (simp add: read_pb_canonical_vote_def pb_canonical_vote_bytes_def read_back)

lemma read_pb_canonical_proposal_bytes [simp]: "read_pb_canonical_proposal (pb_canonical_proposal_bytes p) = Some p"
  by (simp add: read_pb_canonical_proposal_def pb_canonical_proposal_bytes_def read_back)

text \<open>The encoders of the canonical messages, with the length in front.\<close>

definition wire_codec :: canonical_codec where
  "wire_codec = \<lparr>pb_encode_canonical_vote = \<lambda>v. Some (delimited (pb_canonical_vote_bytes v)),
     pb_encode_canonical_proposal = \<lambda>p. Some (delimited (pb_canonical_proposal_bytes p)),
     amino_encode_canonical_vote = \<lambda>v. Some (delimited (canonical_vote_bytes v)),
     amino_encode_canonical_proposal = \<lambda>p. Some (delimited (canonical_proposal_bytes p))\<rparr>"

lemma wire_codec_total: "encoders_total wire_codec"
  by (simp add: encoders_total_def wire_codec_def)

section \<open>What the signed bytes say\<close>

text \<open>What is relied on: an encoder gives different messages different bytes.\<close>

definition decodable :: "('m \<Rightarrow> bytes option) \<Rightarrow> bool" where
  "decodable enc \<longleftrightarrow> (\<forall>m n b. enc m = Some b \<and> enc n = Some b \<longrightarrow> m = n)"

definition encoders_decodable :: "canonical_codec \<Rightarrow> bool" where
  "encoders_decodable cc \<longleftrightarrow>
     decodable (pb_encode_canonical_vote cc) \<and> decodable (pb_encode_canonical_proposal cc) \<and>
     decodable (amino_encode_canonical_vote cc) \<and> decodable (amino_encode_canonical_proposal cc)"

lemma decodableD: "decodable enc \<Longrightarrow> enc m = Some b \<Longrightarrow> enc n = Some b \<Longrightarrow> m = n"
  unfolding decodable_def by blast

lemma decodable_delimited: "(\<And>m. rd (enc m) = Some m) \<Longrightarrow> decodable (\<lambda>m. Some (delimited (enc m)))"
  unfolding decodable_def by (metis delimited_inj option.inject)

lemma wire_codec_decodable: "encoders_decodable wire_codec"
  unfolding encoders_decodable_def wire_codec_def canonical_codec.simps
  by (intro conjI decodable_delimited) (rule read_pb_canonical_vote_bytes read_pb_canonical_proposal_bytes
      read_canonical_vote_bytes read_canonical_proposal_bytes)+

lemma canonical_block_id_of_inj: "canonical_block_id_of i = canonical_block_id_of j \<Longrightarrow> i = j"
  by (cases i; cases j)
    (auto simp: canonical_block_id_of_def amino_block_id.equality parts_set_header.equality
      map_option_case split: option.splits)

lemma canonical_vote_determines:
  assumes "canonical_vote_new v c = canonical_vote_new w d"
  shows "c = d \<and> v_vote_type v = v_vote_type w \<and> v_height v = v_height w \<and> v_round v = v_round w \<and>
    v_block_id v = v_block_id w"
  using assms canonical_block_id_of_inj [of "v_block_id v" "v_block_id w"] by (simp add: canonical_vote_new_def)

text \<open>
  C7: the bytes to sign for a vote determine the chain, the type, the height, the round and the block
  that is voted for: under one protocol a signature for one vote is not a signature for a vote
  that differs in any of them, on this chain or another.
\<close>

theorem sign_bytes_bind_vote:
  assumes "encoders_decodable cc"
    and "vote_sign_bytes cc c version r = Done b" and "vote_sign_bytes cc d version q = Done b"
  shows "\<exists>v w. svr_vote r = Some v \<and> svr_vote q = Some w \<and> c = d \<and> v_vote_type v = v_vote_type w \<and>
    v_height v = v_height w \<and> v_round v = v_round w \<and>
    pb_canonical_block_id (v_block_id v) = pb_canonical_block_id (v_block_id w)"
proof -
  obtain v w where vw: "svr_vote r = Some v" "svr_vote q = Some w"
    using assms(2,3) by (auto simp: vote_sign_bytes_def Let_def obind_Done_iff)
  show ?thesis
  proof (cases "is_protobuf version")
    case True
    have "pb_canonical_vote_of (v\<lparr>v_signature := []\<rparr>) c = pb_canonical_vote_of (w\<lparr>v_signature := []\<rparr>) d"
      using assms vw True
      by (intro decodableD [of "pb_encode_canonical_vote cc" _ b])
        (auto simp: encoders_decodable_def vote_sign_bytes_def Let_def)
    then show ?thesis using vw by (simp add: pb_canonical_vote_of_def)
  next
    case False
    have "canonical_vote_new (v\<lparr>v_signature := []\<rparr>) c = canonical_vote_new (w\<lparr>v_signature := []\<rparr>) d"
      using assms vw False
      by (intro decodableD [of "amino_encode_canonical_vote cc" _ b])
        (auto simp: encoders_decodable_def vote_sign_bytes_def Let_def)
    from canonical_vote_determines [OF this] show ?thesis using vw by simp
  qed
qed

text \<open>A pre-vote for nil, without and with a signature in it: the signature is not part of the bytes.\<close>

definition bare_vote :: vote where
  "bare_vote = \<lparr>v_vote_type = 1, v_height = 5, v_round = 0, v_block_id = None, v_timestamp = None,
     v_validator_address = [], v_validator_index = 0, v_signature = []\<rparr>"

theorem sign_bytes_bind_vote_witness:
  "\<exists>b v w. vote_sign_bytes wire_codec ''a'' Legacy \<lparr>svr_vote = Some bare_vote\<rparr> = Done b \<and>
     vote_sign_bytes wire_codec ''a'' Legacy \<lparr>svr_vote = Some (bare_vote\<lparr>v_signature := [1]\<rparr>)\<rparr> = Done b \<and>
     Some v = Some bare_vote \<and> Some w = Some (bare_vote\<lparr>v_signature := [1]\<rparr>) \<and> v_height v = v_height w"
proof -
  obtain b where b: "vote_sign_bytes wire_codec ''a'' Legacy \<lparr>svr_vote = Some bare_vote\<rparr> = Done b"
    "vote_sign_bytes wire_codec ''a'' Legacy \<lparr>svr_vote = Some (bare_vote\<lparr>v_signature := [1]\<rparr>)\<rparr> = Done b"
    by (simp add: vote_sign_bytes_def wire_codec_def)
  show ?thesis using sign_bytes_bind_vote [OF wire_codec_decodable b] b by auto
qed

section \<open>Votes are not proposals\<close>

text \<open>The message type of signed bytes: the first field of the message.\<close>

definition signed_type :: "bytes \<Rightarrow> nat option" where
  "signed_type b = Option.bind (read_delimited b) (\<lambda>(m, r). map_option (get_uint 1) (read_fields m))"

lemma signed_type_delimited:
  "signed_type (delimited (encode_fields fs)) = Some (get_uint 1 fs)"
  using read_delimited_delimited [of "encode_fields fs" "[]"] by (simp add: signed_type_def)

lemma signed_type_vote:
  assumes "vote_sign_bytes wire_codec c version r = Done b" and "vote_validate r = Done ()"
  shows "signed_type b \<in> {Some 1, Some 2}"
proof -
  obtain v where v: "svr_vote r = Some v" "v_vote_type v \<in> {1, 2}"
    using assms(2) by (auto simp: vote_validate_def vote_validate_basic_def vote_msg_type_def
        split: option.splits if_splits)
  then have "unat (v_vote_type v) \<in> {1, 2}" "unat (sext_64 (v_vote_type v)) \<in> {1, 2}" by auto
  then show ?thesis
    using assms(1) v
    by (auto simp: vote_sign_bytes_def Let_def wire_codec_def pb_canonical_vote_bytes_def canonical_vote_bytes_def
        pb_canonical_vote_of_def canonical_vote_new_def signed_type_delimited read_back split: if_splits)
qed

lemma signed_type_proposal:
  assumes "proposal_sign_bytes wire_codec c version r = Done b"
  shows "signed_type b = Some 32"
  using assms
  by (auto simp: proposal_sign_bytes_def Let_def wire_codec_def pb_canonical_proposal_bytes_def
      canonical_proposal_bytes_def pb_canonical_proposal_of_def canonical_proposal_of_def obind_Done_iff
      signed_type_delimited read_back split: if_splits)

text \<open>
  C21: in the wire format a valid vote and a proposal never have the same bytes to sign, whatever
  protocol each is signed under.
\<close>

theorem vote_bytes_not_proposal_bytes:
  assumes "vote_validate r = Done ()" and "vote_sign_bytes wire_codec c version r = Done b"
    and "proposal_sign_bytes wire_codec d version' q = Done b'"
  shows "b \<noteq> b'"
  using signed_type_vote [OF assms(2,1)] signed_type_proposal [OF assms(3)] by auto

definition plain_vote :: vote where
  "plain_vote = bare_vote\<lparr>v_validator_address := replicate 20 0\<rparr>"

theorem vote_bytes_not_proposal_bytes_witness:
  "\<exists>b b'. vote_sign_bytes wire_codec ''c'' Legacy \<lparr>svr_vote = Some plain_vote\<rparr> = Done b \<and>
     proposal_sign_bytes wire_codec ''c'' Legacy plain_proposal = Done b' \<and> b \<noteq> b'"
proof -
  have valid: "vote_validate \<lparr>svr_vote = Some plain_vote\<rparr> = Done ()" by code_simp
  obtain b b' where b: "vote_sign_bytes wire_codec ''c'' Legacy \<lparr>svr_vote = Some plain_vote\<rparr> = Done b"
    and b': "proposal_sign_bytes wire_codec ''c'' Legacy plain_proposal = Done b'"
    by (simp add: vote_sign_bytes_def proposal_sign_bytes_def wire_codec_def plain_proposal_def)
  show ?thesis using vote_bytes_not_proposal_bytes [OF valid b b'] b b' by blast
qed

section \<open>Requests and responses\<close>

definition vote_bytes :: "vote \<Rightarrow> bytes" where
  "vote_bytes v = encode_fields
     (uint32_field 1 (v_vote_type v) @ int64_field 2 (v_height v) @ int64_field 3 (v_round v) @
      nested_field 4 block_id_bytes (v_block_id v) @ nested_field 5 time_bytes (v_timestamp v) @
      bytes_field 6 (v_validator_address v) @ int64_field 7 (v_validator_index v) @ bytes_field 8 (v_signature v))"

definition read_vote :: "bytes \<Rightarrow> vote option" where
  "read_vote b =
     Option.bind (read_fields b) (\<lambda>fs.
     Option.bind (get_nested 4 read_block_id fs) (\<lambda>i.
     Option.bind (get_nested 5 read_time fs) (\<lambda>t.
       Some \<lparr>v_vote_type = get_uint32 1 fs, v_height = get_int64 2 fs, v_round = get_int64 3 fs, v_block_id = i,
         v_timestamp = t, v_validator_address = get_bytes 6 fs, v_validator_index = get_int64 7 fs,
         v_signature = get_bytes 8 fs\<rparr>)))"

definition proposal_bytes :: "proposal \<Rightarrow> bytes" where
  "proposal_bytes p = encode_fields
     (uint32_field 1 (p_msg_type p) @ int64_field 2 (p_height p) @ int64_field 3 (p_round p) @
      int64_field 4 (p_pol_round p) @ nested_field 5 block_id_bytes (p_block_id p) @
      nested_field 6 time_bytes (p_timestamp p) @ bytes_field 7 (p_signature p))"

definition read_proposal :: "bytes \<Rightarrow> proposal option" where
  "read_proposal b =
     Option.bind (read_fields b) (\<lambda>fs.
     Option.bind (get_nested 5 read_block_id fs) (\<lambda>i.
     Option.bind (get_nested 6 read_time fs) (\<lambda>t.
       Some \<lparr>p_msg_type = get_uint32 1 fs, p_height = get_int64 2 fs, p_round = get_int64 3 fs,
         p_pol_round = get_int64 4 fs, p_block_id = i, p_timestamp = t, p_signature = get_bytes 7 fs\<rparr>)))"

lemma read_vote_bytes [simp]: "read_vote (vote_bytes v) = Some v"
  by (simp add: read_vote_def vote_bytes_def read_back)

lemma read_proposal_bytes [simp]: "read_proposal (proposal_bytes p) = Some p"
  by (simp add: read_proposal_def proposal_bytes_def read_back)

text \<open>A message registered under a name: its length and the prefix of the name stand in front.\<close>

definition registered :: "(bytes \<Rightarrow> bytes) \<Rightarrow> string \<Rightarrow> bytes \<Rightarrow> bytes" where
  "registered sha256 name m = delimited (compute_prefix sha256 name @ m)"

definition read_registered :: "(bytes \<Rightarrow> bytes) \<Rightarrow> string \<Rightarrow> bytes \<Rightarrow> bytes option" where
  "read_registered sha256 name b =
     Option.bind (read_delimited b) (\<lambda>(m, r).
       let pfx = compute_prefix sha256 name
       in if take (length pfx) m = pfx then Some (drop (length pfx) m) else None)"

lemma read_registered_registered [simp]: "read_registered sha256 name (registered sha256 name m) = Some m"
  using read_delimited_delimited [of "compute_prefix sha256 name @ m" "[]"]
  by (simp add: read_registered_def registered_def Let_def)

definition sign_vote_request_bytes :: "(bytes \<Rightarrow> bytes) \<Rightarrow> sign_vote_request \<Rightarrow> bytes" where
  "sign_vote_request_bytes sha256 r =
     registered sha256 VOTE_AMINO_NAME (encode_fields (nested_field 1 vote_bytes (svr_vote r)))"

definition read_sign_vote_request :: "(bytes \<Rightarrow> bytes) \<Rightarrow> bytes \<Rightarrow> sign_vote_request option" where
  "read_sign_vote_request sha256 b =
     Option.bind (read_registered sha256 VOTE_AMINO_NAME b) (\<lambda>m.
     Option.bind (read_fields m) (\<lambda>fs.
     Option.bind (get_nested 1 read_vote fs) (\<lambda>v. Some \<lparr>svr_vote = v\<rparr>)))"

definition sign_proposal_request_bytes :: "(bytes \<Rightarrow> bytes) \<Rightarrow> sign_proposal_request \<Rightarrow> bytes" where
  "sign_proposal_request_bytes sha256 r =
     registered sha256 PROPOSAL_AMINO_NAME (encode_fields (nested_field 1 proposal_bytes (spr_proposal r)))"

definition read_sign_proposal_request :: "(bytes \<Rightarrow> bytes) \<Rightarrow> bytes \<Rightarrow> sign_proposal_request option" where
  "read_sign_proposal_request sha256 b =
     Option.bind (read_registered sha256 PROPOSAL_AMINO_NAME b) (\<lambda>m.
     Option.bind (read_fields m) (\<lambda>fs.
     Option.bind (get_nested 1 read_proposal fs) (\<lambda>p. Some \<lparr>spr_proposal = p\<rparr>)))"

lemma read_requests [simp]:
  "read_sign_vote_request sha256 (sign_vote_request_bytes sha256 r) = Some r"
  "read_sign_proposal_request sha256 (sign_proposal_request_bytes sha256 q) = Some q"
  by (simp_all add: read_sign_vote_request_def sign_vote_request_bytes_def read_sign_proposal_request_def
      sign_proposal_request_bytes_def read_back)

text \<open>Requests without fields.\<close>

definition empty_request_bytes :: "(bytes \<Rightarrow> bytes) \<Rightarrow> string \<Rightarrow> bytes" where
  "empty_request_bytes sha256 name = registered sha256 name []"

definition read_empty_request :: "(bytes \<Rightarrow> bytes) \<Rightarrow> string \<Rightarrow> bytes \<Rightarrow> unit option" where
  "read_empty_request sha256 name b =
     Option.bind (read_registered sha256 name b) (\<lambda>m. map_option (\<lambda>_. ()) (read_fields m))"

lemma read_empty_request_bytes [simp]:
  "read_empty_request sha256 name (empty_request_bytes sha256 name) = Some ()"
  by (simp add: read_empty_request_def empty_request_bytes_def read_fields.simps)

text \<open>The error of a response; its code is written in the zigzag form.\<close>

definition zigzag :: "i32 \<Rightarrow> nat" where
  "zigzag x = (if 0 \<le> sint x then nat (2 * sint x) else nat (- 2 * sint x - 1))"

definition unzigzag :: "nat \<Rightarrow> i32" where
  "unzigzag n = (if even n then word_of_int (int (n div 2)) else word_of_int (- int (n div 2) - 1))"

lemma unzigzag_zigzag [simp]: "unzigzag (zigzag x) = x"
proof (cases "0 \<le> sint x")
  case True
  then have "nat (2 * sint x) = 2 * nat (sint x)" by (simp add: nat_mult_distrib)
  with True show ?thesis by (simp add: zigzag_def unzigzag_def)
next
  case False
  then have "nat (- 2 * sint x - 1) = 2 * nat (- sint x - 1) + 1" by simp
  with False show ?thesis by (simp add: zigzag_def unzigzag_def)
qed

definition remote_error_bytes :: "remote_error \<Rightarrow> bytes" where
  "remote_error_bytes e =
     encode_fields (uint_field 1 (zigzag (re_code e)) @ bytes_field 2 (str_bytes (re_description e)))"

definition read_remote_error :: "bytes \<Rightarrow> remote_error option" where
  "read_remote_error b = map_option
     (\<lambda>fs. \<lparr>re_code = unzigzag (get_uint 1 fs), re_description = bytes_str (get_bytes 2 fs)\<rparr>) (read_fields b)"

lemma read_remote_error_bytes [simp]: "read_remote_error (remote_error_bytes e) = Some e"
  by (simp add: read_remote_error_def remote_error_bytes_def read_back)

definition SIGNED_VOTE_NAME :: string where
  "SIGNED_VOTE_NAME = ''tendermint/remotesigner/SignedVoteResponse''"

definition SIGNED_PROPOSAL_NAME :: string where
  "SIGNED_PROPOSAL_NAME = ''tendermint/remotesigner/SignedProposalResponse''"

definition PING_RESPONSE_NAME :: string where
  "PING_RESPONSE_NAME = ''tendermint/remotesigner/PingResponse''"

definition PUBKEY_RESPONSE_NAME :: string where
  "PUBKEY_RESPONSE_NAME = ''tendermint/remotesigner/PubKeyResponse''"

definition PUBKEY_ED25519_NAME :: string where
  "PUBKEY_ED25519_NAME = ''tendermint/PubKeyEd25519''"

definition signed_vote_bytes :: "(bytes \<Rightarrow> bytes) \<Rightarrow> signed_vote_response \<Rightarrow> bytes" where
  "signed_vote_bytes sha256 r = registered sha256 SIGNED_VOTE_NAME
     (encode_fields (nested_field 1 vote_bytes (sv_vote r) @ nested_field 2 remote_error_bytes (sv_err r)))"

definition read_signed_vote :: "(bytes \<Rightarrow> bytes) \<Rightarrow> bytes \<Rightarrow> signed_vote_response option" where
  "read_signed_vote sha256 b =
     Option.bind (read_registered sha256 SIGNED_VOTE_NAME b) (\<lambda>m.
     Option.bind (read_fields m) (\<lambda>fs.
     Option.bind (get_nested 1 read_vote fs) (\<lambda>v.
     Option.bind (get_nested 2 read_remote_error fs) (\<lambda>e. Some \<lparr>sv_vote = v, sv_err = e\<rparr>))))"

definition signed_proposal_bytes :: "(bytes \<Rightarrow> bytes) \<Rightarrow> signed_proposal_response \<Rightarrow> bytes" where
  "signed_proposal_bytes sha256 r = registered sha256 SIGNED_PROPOSAL_NAME
     (encode_fields (nested_field 1 proposal_bytes (sp_proposal r) @ nested_field 2 remote_error_bytes (sp_err r)))"

definition read_signed_proposal :: "(bytes \<Rightarrow> bytes) \<Rightarrow> bytes \<Rightarrow> signed_proposal_response option" where
  "read_signed_proposal sha256 b =
     Option.bind (read_registered sha256 SIGNED_PROPOSAL_NAME b) (\<lambda>m.
     Option.bind (read_fields m) (\<lambda>fs.
     Option.bind (get_nested 1 read_proposal fs) (\<lambda>p.
     Option.bind (get_nested 2 read_remote_error fs) (\<lambda>e. Some \<lparr>sp_proposal = p, sp_err = e\<rparr>))))"

text \<open>The public key is a field that is registered itself: its prefix and its length stand in front.\<close>

definition pub_key_response_bytes :: "(bytes \<Rightarrow> bytes) \<Rightarrow> pub_key_response \<Rightarrow> bytes" where
  "pub_key_response_bytes sha256 r = registered sha256 PUBKEY_RESPONSE_NAME
     (encode_fields [(1, Delimited (compute_prefix sha256 PUBKEY_ED25519_NAME @ delimited (pkr_pub_key_ed25519 r)))])"

definition read_pub_key_response :: "(bytes \<Rightarrow> bytes) \<Rightarrow> bytes \<Rightarrow> pub_key_response option" where
  "read_pub_key_response sha256 b =
     Option.bind (read_registered sha256 PUBKEY_RESPONSE_NAME b) (\<lambda>m.
     Option.bind (read_fields m) (\<lambda>fs.
       let pfx = compute_prefix sha256 PUBKEY_ED25519_NAME; key = get_bytes 1 fs
       in if take (length pfx) key = pfx
          then map_option (\<lambda>(k, _). \<lparr>pkr_pub_key_ed25519 = k\<rparr>) (read_delimited (drop (length pfx) key))
          else None))"

lemma read_responses [simp]:
  "read_signed_vote sha256 (signed_vote_bytes sha256 r) = Some r"
  "read_signed_proposal sha256 (signed_proposal_bytes sha256 q) = Some q"
  "read_pub_key_response sha256 (pub_key_response_bytes sha256 k) = Some k"
proof -
  show "read_signed_vote sha256 (signed_vote_bytes sha256 r) = Some r"
    by (simp add: read_signed_vote_def signed_vote_bytes_def read_back)
  show "read_signed_proposal sha256 (signed_proposal_bytes sha256 q) = Some q"
    by (simp add: read_signed_proposal_def signed_proposal_bytes_def read_back)
  show "read_pub_key_response sha256 (pub_key_response_bytes sha256 k) = Some k"
    using read_delimited_delimited [of "pkr_pub_key_ed25519 k" "[]"]
    by (simp add: read_pub_key_response_def pub_key_response_bytes_def Let_def get_bytes_def)
qed

section \<open>The legacy protocol on the wire\<close>

text \<open>The amino half of the message codec.\<close>

definition amino_wire :: "rpc_codec \<Rightarrow> rpc_codec" where
  "amino_wire rc = rc\<lparr>decode_varint := \<lambda>b. map_option snd (read_varint b),
     amino_decode_sign_vote := read_sign_vote_request (rpc_sha256 rc),
     amino_decode_sign_proposal := read_sign_proposal_request (rpc_sha256 rc),
     amino_decode_pub_key_request := read_empty_request (rpc_sha256 rc) PUBKEY_AMINO_NAME,
     amino_decode_ping_request := read_empty_request (rpc_sha256 rc) PING_AMINO_NAME,
     amino_encode_signed_vote := \<lambda>r. Some (signed_vote_bytes (rpc_sha256 rc) r),
     amino_encode_signed_proposal := \<lambda>r. Some (signed_proposal_bytes (rpc_sha256 rc) r),
     amino_encode_ping_response := Some (empty_request_bytes (rpc_sha256 rc) PING_RESPONSE_NAME),
     amino_encode_pub_key := \<lambda>r. Some (pub_key_response_bytes (rpc_sha256 rc) r)\<rparr>"

lemma amino_wire_simps [simp]:
  "data_max_size (amino_wire rc) = data_max_size rc"
  "rpc_sha256 (amino_wire rc) = rpc_sha256 rc"
  "amino_decode_sign_vote (amino_wire rc) = read_sign_vote_request (rpc_sha256 rc)"
  "amino_decode_sign_proposal (amino_wire rc) = read_sign_proposal_request (rpc_sha256 rc)"
  "amino_decode_pub_key_request (amino_wire rc) = read_empty_request (rpc_sha256 rc) PUBKEY_AMINO_NAME"
  "amino_decode_ping_request (amino_wire rc) = read_empty_request (rpc_sha256 rc) PING_AMINO_NAME"
  by (simp_all add: amino_wire_def)

text \<open>The requests as the validator writes them.\<close>

fun request_bytes :: "(bytes \<Rightarrow> bytes) \<Rightarrow> request \<Rightarrow> bytes" where
  "request_bytes sha256 (SignVote r) = sign_vote_request_bytes sha256 r"
| "request_bytes sha256 (SignProposal r) = sign_proposal_request_bytes sha256 r"
| "request_bytes sha256 ShowPublicKey = empty_request_bytes sha256 PUBKEY_AMINO_NAME"
| "request_bytes sha256 ReplyPing = empty_request_bytes sha256 PING_AMINO_NAME"

fun request_name :: "request \<Rightarrow> string" where
  "request_name (SignVote _) = VOTE_AMINO_NAME"
| "request_name (SignProposal _) = PROPOSAL_AMINO_NAME"
| "request_name ShowPublicKey = PUBKEY_AMINO_NAME"
| "request_name ReplyPing = PING_AMINO_NAME"

text \<open>
  The four names the dispatch compares: the prefixes have to be complete and different, which is
  a fact about the hash function.
\<close>

definition request_names :: "string list" where
  "request_names = [VOTE_AMINO_NAME, PROPOSAL_AMINO_NAME, PUBKEY_AMINO_NAME, PING_AMINO_NAME]"

definition prefixes_apart :: "(bytes \<Rightarrow> bytes) \<Rightarrow> bool" where
  "prefixes_apart sha256 \<longleftrightarrow>
     (let ps = map (compute_prefix sha256) request_names in list_all (\<lambda>p. length p = 4) ps \<and> distinct ps)"

lemma amino_prefix_registered:
  assumes "length (compute_prefix (rpc_sha256 rc) name) = 4"
  shows "parse_amino_prefix (amino_wire rc) (registered (rpc_sha256 rc) name m) =
    Done (compute_prefix (rpc_sha256 rc) name)"
  using assms by (simp add: parse_amino_prefix_def amino_wire_def registered_def delimited_def)

lemmas request_bytes_defs = sign_vote_request_bytes_def sign_proposal_request_bytes_def empty_request_bytes_def

lemma request_read_wire:
  assumes "\<not> is_protobuf version" and "prefixes_apart (rpc_sha256 rc)"
    and "length (request_bytes (rpc_sha256 rc) r) \<le> data_max_size rc"
  shows "request_read (amino_wire rc) version (Some (request_bytes (rpc_sha256 rc) r)) = Done r"
proof -
  let ?rc = "amino_wire rc" and ?sha = "rpc_sha256 rc"
  have msg: "read_msg ?rc (Some (request_bytes ?sha r)) = Done (request_bytes ?sha r)"
    using assms(3) by (simp add: read_msg_def)
  have names: "\<forall>name \<in> set request_names. length (compute_prefix ?sha name) = 4"
    "distinct (map (compute_prefix ?sha) request_names)"
    using assms(2) by (simp_all add: prefixes_apart_def Let_def list_all_iff)
  have pfx: "parse_amino_prefix ?rc (request_bytes ?sha r) = Done (compute_prefix ?sha (request_name r))"
    using names(1) by (cases r) (simp_all add: request_bytes_defs amino_prefix_registered request_names_def)
  show ?thesis using names(2)
    by (simp add: request_read_def msg pfx assms(1) request_names_def) (cases r; auto)
qed

text \<open>
  C22: the legacy protocol delivers requests: whatever votes, proposals, key requests and pings a
  validator writes, the bytes are read back as exactly that request, if they fit into one read and
  the four registered names have different prefixes.
\<close>

theorem legacy_request_roundtrip:
  assumes "\<not> is_protobuf version" and "prefixes_apart (rpc_sha256 rc)"
    and "length (request_bytes (rpc_sha256 rc) r) \<le> data_max_size rc"
  shows "request_read (amino_wire rc) version (Some (request_bytes (rpc_sha256 rc) r)) = Done r"
  using assms by (rule request_read_wire)

text \<open>The SHA-256 digests of the registered names, as a table: the hash function at the inputs that matter.\<close>

definition name_digests :: "(string \<times> bytes) list" where
  "name_digests =
    [(VOTE_AMINO_NAME,
      [183, 249, 142, 243, 244, 18, 4, 82, 138, 68, 115, 152, 42, 113, 100, 163,
       125, 154, 42, 67, 138, 16, 68, 234, 127, 30, 178, 60, 108, 46, 121, 200]),
     (PROPOSAL_AMINO_NAME,
      [123, 121, 181, 189, 228, 152, 226, 226, 148, 36, 32, 95, 132, 212, 208, 34,
       1, 116, 154, 119, 201, 22, 21, 221, 73, 219, 226, 67, 214, 24, 176, 29]),
     (PUBKEY_AMINO_NAME,
      [43, 188, 158, 203, 148, 214, 32, 225, 165, 133, 197, 222, 116, 8, 118, 128,
       143, 237, 50, 10, 74, 177, 247, 33, 222, 104, 206, 114, 147, 234, 225, 133]),
     (PING_AMINO_NAME,
      [197, 202, 198, 27, 173, 182, 13, 241, 46, 22, 132, 254, 169, 168, 3, 124,
       251, 81, 147, 178, 40, 245, 46, 227, 159, 183, 216, 151, 214, 234, 247, 239]),
     (PUBKEY_RESPONSE_NAME,
      [49, 4, 104, 23, 14, 213, 124, 142, 137, 193, 76, 67, 186, 82, 167, 113,
       102, 20, 163, 93, 30, 221, 205, 171, 33, 56, 213, 93, 126, 111, 237, 233]),
     (PUBKEY_ED25519_NAME,
      [172, 38, 121, 22, 36, 222, 100, 65, 102, 53, 49, 121, 126, 239, 176, 39,
       95, 212, 231, 19, 75, 178, 94, 175, 135, 209, 38, 233, 21, 249, 242, 10])]"

definition table_sha256 :: "bytes \<Rightarrow> bytes" where
  "table_sha256 b =
     (case map_of (map (\<lambda>(n, d). (str_bytes n, d)) name_digests) b of None \<Rightarrow> [] | Some d \<Rightarrow> d)"

definition table_codec :: rpc_codec where
  "table_codec = \<lparr>data_max_size = 262144, pb_decode_message = \<lambda>_. None, pb_encode_message = \<lambda>_. None,
     rpc_sha256 = table_sha256, decode_varint = \<lambda>_. None, amino_decode_sign_vote = \<lambda>_. None,
     amino_decode_sign_proposal = \<lambda>_. None, amino_decode_pub_key_request = \<lambda>_. None,
     amino_decode_ping_request = \<lambda>_. None, amino_encode_signed_vote = \<lambda>_. None,
     amino_encode_signed_proposal = \<lambda>_. None, amino_encode_ping_response = None, amino_encode_pub_key = \<lambda>_. None\<rparr>"

lemma table_prefixes_apart: "prefixes_apart table_sha256"
  by code_simp

theorem legacy_request_roundtrip_witness:
  "request_read (amino_wire table_codec) Legacy
     (Some (request_bytes table_sha256 (SignVote \<lparr>svr_vote = Some plain_vote\<rparr>))) =
   Done (SignVote \<lparr>svr_vote = Some plain_vote\<rparr>)"
proof -
  have "length (request_bytes table_sha256 (SignVote \<lparr>svr_vote = Some plain_vote\<rparr>)) \<le> 200" by code_simp
  then show ?thesis
    using legacy_request_roundtrip [of Legacy table_codec "SignVote \<lparr>svr_vote = Some plain_vote\<rparr>"]
      table_prefixes_apart by (simp add: table_codec_def)
qed

text \<open>
  Over the legacy protocol the validator learns the outcome: the bytes of the reply to a vote or
  proposal read back as the message with its signature, or as the error that was the reason to
  refuse it, with its code and its text.
\<close>

theorem legacy_reply_roundtrip:
  assumes "\<not> is_protobuf version"
  shows "(\<exists>b. response_encode (amino_wire rc) version (vote_build_response r err) = Done b \<and>
      read_signed_vote (rpc_sha256 rc) b =
        Some (if err = None then \<lparr>sv_vote = svr_vote r, sv_err = None\<rparr> else \<lparr>sv_vote = None, sv_err = err\<rparr>)) \<and>
    (\<exists>b. response_encode (amino_wire rc) version (proposal_build_response q err) = Done b \<and>
      read_signed_proposal (rpc_sha256 rc) b =
        Some (if err = None then \<lparr>sp_proposal = spr_proposal q, sp_err = None\<rparr>
              else \<lparr>sp_proposal = None, sp_err = err\<rparr>))"
  using assms by (cases err)
    (simp_all add: response_encode_def amino_wire_def vote_build_response_def proposal_build_response_def)

theorem legacy_reply_roundtrip_witness:
  "\<exists>b. response_encode (amino_wire table_codec) Legacy
      (vote_build_response \<lparr>svr_vote = Some plain_vote\<rparr> (Some (remote_error_double_sign 3))) = Done b \<and>
    read_signed_vote table_sha256 b = Some \<lparr>sv_vote = None, sv_err = Some (remote_error_double_sign 3)\<rparr>"
  using legacy_reply_roundtrip [of Legacy table_codec "\<lparr>svr_vote = Some plain_vote\<rparr>"
      "Some (remote_error_double_sign 3)" plain_proposal]
  by (simp add: table_codec_def)

end
