(* ===== verification/Wire_Sessions.thy ===== *)
theory Wire_Sessions
  imports Wire_Messages Signing_Properties
begin

text \<open>
  One turn of a session over the bytes of the legacy protocol: \<^verbatim>\<open>Session::handle_request\<close> with the
  wire format in place of the codecs, from the bytes the validator writes to the bytes it reads; and
  the same turn over protocol buffers, with any codec.
\<close>

text \<open>What a turn does with a vote when its bytes arrive whole and the answer can be written.\<close>

definition wire_turn :: "rpc_codec \<Rightarrow> validator_config \<Rightarrow> request \<Rightarrow> turn \<Rightarrow> bool" where
  "wire_turn rc config r t \<longleftrightarrow>
     \<not> is_protobuf (vc_protocol_version config) \<and> prefixes_apart (rpc_sha256 rc) \<and>
     length (request_bytes (rpc_sha256 rc) r) \<le> data_max_size rc \<and>
     io_read t = Some (request_bytes (rpc_sha256 rc) r) \<and> io_write_ok t"

lemma wire_vote_turn:
  assumes "wire_turn rc config (SignVote r) t"
    and "session_sign js (io_state_file t) (vote_request tm cc) config r w = (w', Done (SignedVote resp))"
  shows "handle_request tm cc (amino_wire rc) js config t w =
    (w'\<lparr>w_sent := w_sent w' @ [signed_vote_bytes (rpc_sha256 rc) resp]\<rparr>, Done True)"
proof -
  have "request_read (amino_wire rc) (vc_protocol_version config) (io_read t) = Done (SignVote r)"
    using assms(1) request_read_wire [of "vc_protocol_version config" rc "SignVote r"] by (simp add: wire_turn_def)
  moreover have "response_encode (amino_wire rc) (vc_protocol_version config) (SignedVote resp) =
      Done (signed_vote_bytes (rpc_sha256 rc) resp)"
    using assms(1) by (simp add: wire_turn_def response_encode_def amino_wire_def)
  ultimately show ?thesis
    using assms by (simp add: handle_request_def wire_turn_def)
qed

text \<open>
  C23: over the legacy protocol a validator is told that its vote contradicts an earlier one: to the
  bytes of such a vote the session answers with bytes that read back as the double-sign error for
  that height, and stays open; registry and state file are as before.
\<close>

theorem legacy_double_sign_reported:
  assumes "wire_turn rc config (SignVote r) t" and "vote_validate r = Done ()"
    and "check_max_height (vote_request tm cc) config r = Done ()"
    and "w_registry w (vc_chain_id config) = Some chain" and "\<not> poisoned (ch_state chain)"
    and "parse_request (vote_request tm cc) r = Done (k, q)"
    and "consensus_check (st_consensus_state (guarded (ch_state chain))) q = Failed State_DoubleSign"
  shows "\<exists>b. handle_request tm cc (amino_wire rc) js config t w = (w\<lparr>w_sent := w_sent w @ [b]\<rparr>, Done True) \<and>
    read_signed_vote (rpc_sha256 rc) b =
      Some \<lparr>sv_vote = None, sv_err = Some (remote_error_double_sign (cs_height q))\<rparr>"
proof -
  have "session_sign js (io_state_file t) (vote_request tm cc) config r w =
      (w, Done (SignedVote \<lparr>sv_vote = None, sv_err = Some (remote_error_double_sign (cs_height q))\<rparr>))"
    using vote_rq.conflict_refused [OF _ assms(3-7)] assms(2) by (simp add: vote_request_def vote_build_response_def)
  from wire_vote_turn [OF assms(1) this] show ?thesis using read_responses(1) by blast
qed

text \<open>The nil vote against the chain that has signed for a block, over a connection of the legacy protocol.\<close>

definition legacy_validator :: validator_config where
  "legacy_validator = sample_validator\<lparr>vc_protocol_version := Legacy\<rparr>"

definition legacy_turn :: turn where
  "legacy_turn = \<lparr>io_read = Some (request_bytes table_sha256 (SignVote (nil_request None))), io_write_ok = True,
     io_state_file = Write_ok\<rparr>"

theorem legacy_double_sign_reported_witness:
  "\<exists>b. handle_request sample_tm sample_codec (amino_wire table_codec) sample_json legacy_validator legacy_turn
      (world_at block_state Map.empty) =
      ((world_at block_state Map.empty)\<lparr>w_sent := w_sent (world_at block_state Map.empty) @ [b]\<rparr>, Done True) \<and>
    read_signed_vote table_sha256 b = Some \<lparr>sv_vote = None, sv_err = Some (remote_error_double_sign 5)\<rparr>"
proof -
  have "length (request_bytes table_sha256 (SignVote (nil_request None))) \<le> 200" by code_simp
  then have turn: "wire_turn table_codec legacy_validator (SignVote (nil_request None)) legacy_turn"
    using table_prefixes_apart
    by (simp add: wire_turn_def legacy_turn_def legacy_validator_def table_codec_def)
  have valid: "vote_validate (nil_request None) = Done ()"
    by (simp add: vote_validate_def vote_validate_basic_def vote_msg_type_def VALIDATOR_ADDR_SIZE_def
        vote_for_def request_for_def)
  have below: "check_max_height (vote_request sample_tm sample_codec) legacy_validator (nil_request None) = Done ()"
    by (simp add: check_max_height_def vote_operation_defs vote_for_def request_for_def
        legacy_validator_def sample_validator_def)
  have chain: "w_registry (world_at block_state Map.empty) (vc_chain_id legacy_validator) = Some (chain_at block_state)"
    "\<not> poisoned (ch_state (chain_at block_state))"
    by (simp_all add: legacy_validator_def sample_validator_def chain_at_def mutex_new_def)
  have "consensus_check (st_consensus_state (guarded (ch_state (chain_at block_state)))) sample_state =
      Failed State_DoubleSign"
    by (simp add: consensus_check_def chain_at_def mutex_new_def block_state_def sample_state_def)
  from legacy_double_sign_reported [OF turn valid below chain sample_parse [OF unseen_None] this]
  show ?thesis by (simp add: table_codec_def sample_state_def)
qed

section \<open>The same conflict over protocol buffers\<close>

text \<open>
  C39: a validator that speaks protocol buffers is not told that its vote contradicts an earlier one.
  Where the legacy session answers with the double-sign error, a turn of this session, whatever the
  codec, sends a signed-vote message that holds neither a vote nor an error: the same bytes for every
  conflicting vote.  Registry and state file are as before, and the session stays open.
\<close>

theorem protobuf_double_sign_unreported:
  assumes "is_protobuf (vc_protocol_version config)" and "io_read t = Some b" and "io_write_ok t"
    and "pb_decode_message rc (take (data_max_size rc) b) = Some (Some (Pb_SignVoteRequest (Some v)))"
    and "vote_validate \<lparr>svr_vote = Some (vote_from_pb v)\<rparr> = Done ()"
    and "check_max_height (vote_request tm cc) config \<lparr>svr_vote = Some (vote_from_pb v)\<rparr> = Done ()"
    and "w_registry w (vc_chain_id config) = Some chain" and "\<not> poisoned (ch_state chain)"
    and "parse_request (vote_request tm cc) \<lparr>svr_vote = Some (vote_from_pb v)\<rparr> = Done (k, q)"
    and "consensus_check (st_consensus_state (guarded (ch_state chain))) q = Failed State_DoubleSign"
    and "pb_encode_message rc (Pb_SignedVoteResponse None None) = Some empty_reply"
  shows "handle_request tm cc rc js config t w = (w\<lparr>w_sent := w_sent w @ [empty_reply]\<rparr>, Done True)"
proof -
  let ?r = "\<lparr>svr_vote = Some (vote_from_pb v)\<rparr>"
  have "request_read rc (vc_protocol_version config) (io_read t) = Done (SignVote ?r)"
    using assms(1,2,4) by (simp add: request_read_def read_msg_def)
  moreover have "session_sign js (io_state_file t) (vote_request tm cc) config ?r w =
      (w, Done (SignedVote \<lparr>sv_vote = None, sv_err = Some (remote_error_double_sign (cs_height q))\<rparr>))"
    using vote_rq.conflict_refused [OF _ assms(6-10)] assms(5) by (simp add: vote_request_def vote_build_response_def)
  moreover have "response_encode rc (vc_protocol_version config)
      (SignedVote \<lparr>sv_vote = None, sv_err = Some (remote_error_double_sign (cs_height q))\<rparr>) = Done empty_reply"
    using assms(1,11) by (simp add: response_encode_def)
  ultimately show ?thesis using assms(3) by (simp add: handle_request_def)
qed

text \<open>The nil vote against the chain that has signed for a block, with a codec that knows one request.\<close>

definition one_vote_codec :: rpc_codec where
  "one_vote_codec = table_codec\<lparr>pb_decode_message := (\<lambda>_. Some (Some (Pb_SignVoteRequest (Some (vote_to_pb (nil_vote None)))))),
     pb_encode_message := (\<lambda>m. case m of Pb_SignedVoteResponse None None \<Rightarrow> Some [1] | _ \<Rightarrow> Some [0])\<rparr>"

theorem protobuf_double_sign_unreported_witness:
  "handle_request sample_tm sample_codec one_vote_codec sample_json sample_validator
      \<lparr>io_read = Some [], io_write_ok = True, io_state_file = Write_ok\<rparr> (world_at block_state Map.empty) =
    ((world_at block_state Map.empty)\<lparr>w_sent := w_sent (world_at block_state Map.empty) @ [[1]]\<rparr>, Done True)"
proof (rule protobuf_double_sign_unreported [where chain = "chain_at block_state" and q = sample_state and k = PreVote
      and v = "vote_to_pb (nil_vote None)" and b = "[]"])
  have same: "vote_from_pb (vote_to_pb (nil_vote None)) = nil_vote None" by code_simp
  show "vote_validate \<lparr>svr_vote = Some (vote_from_pb (vote_to_pb (nil_vote None)))\<rparr> = Done ()" by code_simp
  show "check_max_height (vote_request sample_tm sample_codec) sample_validator
      \<lparr>svr_vote = Some (vote_from_pb (vote_to_pb (nil_vote None)))\<rparr> = Done ()" by code_simp
  show "parse_request (vote_request sample_tm sample_codec) \<lparr>svr_vote = Some (vote_from_pb (vote_to_pb (nil_vote None)))\<rparr> =
      Done (PreVote, sample_state)"
    using sample_parse [OF unseen_None, of sample_codec None] unfolding same by (simp add: request_for_def)
  show "consensus_check (st_consensus_state (guarded (ch_state (chain_at block_state)))) sample_state =
      Failed State_DoubleSign"
    by (simp add: consensus_check_def chain_at_def mutex_new_def block_state_def sample_state_def)
qed (simp_all add: one_vote_codec_def sample_validator_def chain_at_def mutex_new_def)

end
