(* ===== verification/Amino_Conversions.thy ===== *)
theory Amino_Conversions
  imports Wire_Messages Sample_World
begin

text \<open>
  The conversions of \<^verbatim>\<open>src/amino_types\<close> to and from the types of the \<^verbatim>\<open>tendermint\<close> crate: block IDs in
  their canonical form, the \<^verbatim>\<open>ParseHeight\<close>, \<^verbatim>\<open>ParseChainId\<close> and \<^verbatim>\<open>ParseTimestamp\<close> implementations, votes,
  public keys and versions, and the encoding helpers of \<^verbatim>\<open>src/amino_types/message.rs\<close>.  The parsers of
  the crate are arguments.

  Together with the wire format they say what the signed bytes and the recorded consensus state have
  to do with each other.
\<close>

section \<open>Canonical block IDs\<close>

definition canonical_parse_parts_header :: "tendermint_crate \<Rightarrow> canonical_part_set_header \<Rightarrow> parts_header option" where
  "canonical_parse_parts_header tm self =
     Option.bind (parse_sha256_hash (cpsh_hash self))
       (\<lambda>hash. parts_header_new tm (trunc_32 (cpsh_total self)) hash)"

definition canonical_parse_block_id :: "tendermint_crate \<Rightarrow> canonical_block_id \<Rightarrow> block_id option" where
  "canonical_parse_block_id tm self =
     Option.bind (parse_sha256_hash (cbid_hash self)) (\<lambda>hash.
     Option.bind (cbid_parts_header self) (\<lambda>header.
     Option.bind (canonical_parse_parts_header tm header) (\<lambda>part_set_header.
       Some \<lparr>id_hash = hash, id_part_set_header = part_set_header\<rparr>)))"

text \<open>A block ID and its canonical form name the same block.\<close>

lemma canonical_parse_canonical:
  "Option.bind (canonical_block_id_of b) (canonical_parse_block_id tm) = state_block_id tm b"
proof (cases b)
  case (Some i)
  then show ?thesis
    by (cases "bid_parts_header i") (simp_all add: canonical_block_id_of_def state_block_id_def parse_block_id_def
        canonical_parse_block_id_def canonical_parse_parts_header_def parse_parts_header_def)
qed (simp add: canonical_block_id_of_def state_block_id_def)

lemma parse_block_id_from:
  assumes "length (id_hash i) = SHA256_HASH_SIZE" and "length (ph_hash (id_part_set_header i)) = SHA256_HASH_SIZE"
    and "parts_header_new tm (ph_total (id_part_set_header i)) (ph_hash (id_part_set_header i)) =
      Some (id_part_set_header i)"
  shows "parse_block_id tm (block_id_from i) = Some i"
  using assms by (simp add: parse_block_id_def block_id_from_def parse_parts_header_def parts_header_from_def
      parse_sha256_hash_def)

section \<open>Heights, chain IDs and times\<close>

definition vote_parse_block_height :: "tendermint_crate \<Rightarrow> vote \<Rightarrow> u64 option" where
  "vote_parse_block_height tm self = height_try_from tm (v_height self)"

definition proposal_parse_block_height :: "tendermint_crate \<Rightarrow> proposal \<Rightarrow> u64 option" where
  "proposal_parse_block_height tm self = height_try_from tm (p_height self)"

definition canonical_vote_parse_block_height :: "tendermint_crate \<Rightarrow> canonical_vote \<Rightarrow> u64 option" where
  "canonical_vote_parse_block_height tm self = height_try_from tm (cv_height self)"

definition canonical_proposal_parse_block_height :: "tendermint_crate \<Rightarrow> canonical_proposal \<Rightarrow> u64 option" where
  "canonical_proposal_parse_block_height tm self = height_try_from tm (cp_height self)"

definition canonical_vote_parse_chain_id :: "(string \<Rightarrow> chain_id option) \<Rightarrow> canonical_vote \<Rightarrow> chain_id option" where
  "canonical_vote_parse_chain_id parse self = parse (cv_chain_id self)"

definition canonical_proposal_parse_chain_id ::
  "(string \<Rightarrow> chain_id option) \<Rightarrow> canonical_proposal \<Rightarrow> chain_id option" where
  "canonical_proposal_parse_chain_id parse self = parse (cp_chain_id self)"

definition parse_timestamp :: "(i64 \<Rightarrow> u32 \<Rightarrow> 't option) \<Rightarrow> time_msg \<Rightarrow> 't option" where
  "parse_timestamp from_unix_timestamp self = from_unix_timestamp (tm_seconds self) (tm_nanos self)"

section \<open>Votes, keys and versions\<close>

text \<open>
  A \<^verbatim>\<open>tendermint::vote::Vote\<close>, its type read through \<^verbatim>\<open>i32::from\<close>, height, round and index through
  \<^verbatim>\<open>value()\<close>, and its time as seconds since the epoch and nanoseconds.
\<close>

record tendermint_vote =
  tv_vote_type :: i32
  tv_height :: u64
  tv_round :: u32
  tv_block_id :: "block_id option"
  tv_timestamp :: "(int \<times> nat) option"
  tv_validator_address :: bytes
  tv_validator_index :: u32
  tv_signature :: "bytes option"

text \<open>The only part that can fail is the time: one before the epoch makes the conversion panic.\<close>

definition vote_from :: "tendermint_vote \<Rightarrow> (error_kind, vote) outcome" where
  "vote_from vote =
     obind (case tv_timestamp vote of None \<Rightarrow> Done None | Some t \<Rightarrow> obind (time_msg_from t) (\<lambda>t. Done (Some t)))
       (\<lambda>timestamp. Done
       \<lparr>v_vote_type = tv_vote_type vote,
        v_height = tv_height vote,
        v_round = zext_64 (tv_round vote),
        v_block_id = map_option
          (\<lambda>i. \<lparr>bid_hash = id_hash i, bid_parts_header = Some (parts_header_from (id_part_set_header i))\<rparr>)
          (tv_block_id vote),
        v_timestamp = timestamp,
        v_validator_address = tv_validator_address vote,
        v_validator_index = zext_64 (tv_validator_index vote),
        v_signature = (case tv_signature vote of None \<Rightarrow> [] | Some sig \<Rightarrow> sig)\<rparr>)"

text \<open>\<^verbatim>\<open>Ed25519::from_bytes\<close> gives the bytes of the key it accepts.\<close>

definition public_key_try_from :: "(bytes \<Rightarrow> bytes option) \<Rightarrow> pub_key_response \<Rightarrow> public_key option" where
  "public_key_try_from from_bytes response = map_option Ed25519 (from_bytes (pkr_pub_key_ed25519 response))"

record consensus_version =
  ver_block :: u64
  ver_app :: u64

record header_version =
  hv_block :: u64
  hv_app :: u64

definition consensus_version_from :: "header_version \<Rightarrow> consensus_version" where
  "consensus_version_from version = \<lparr>ver_block = hv_block version, ver_app = hv_app version\<rparr>"

definition consensus_version_bytes :: "consensus_version \<Rightarrow> bytes" where
  "consensus_version_bytes v = encode_fields (int64_field 1 (ver_block v) @ int64_field 2 (ver_app v))"

section \<open>Encoding helpers\<close>

text \<open>
  The helpers encode into a buffer of the right capacity, which has no effect on the bytes, and
  panic when the encoder fails.
\<close>

definition bytes_vec :: "('m \<Rightarrow> bytes option) \<Rightarrow> 'm \<Rightarrow> (foreign_error, bytes) outcome" where
  "bytes_vec encode self = unwrap_or_panic unwrap_err (encode self)"

definition bytes_vec_length_delimited ::
  "('m \<Rightarrow> bytes option) \<Rightarrow> 'm \<Rightarrow> (foreign_error, bytes) outcome" where
  "bytes_vec_length_delimited encode_length_delimited self = unwrap_or_panic unwrap_err (encode_length_delimited self)"

section \<open>What the signed bytes and the recorded state have in common\<close>

text \<open>
  C8: what is signed is what the double-sign protection has recorded.  The bytes signed for a vote
  of the legacy protocol read back as a canonical vote for the chain at hand whose height and whose
  block ID, parsed, are those of the consensus state the vote was checked with, and whose round
  agrees with the recorded one in its lower 16 bits.
\<close>

theorem signed_bytes_match_recorded_state:
  assumes "\<not> is_protobuf version" and "vote_sign_bytes wire_codec chain version r = Done b"
    and "vote_consensus_state tm r = Some cs"
  shows "\<exists>m cv. read_delimited b = Some (m, []) \<and> read_canonical_vote m = Some cv \<and> cv_chain_id cv = chain \<and>
    canonical_vote_parse_block_height tm cv = Some (cs_height cs) \<and>
    Option.bind (cv_block_id cv) (canonical_parse_block_id tm) = cs_block_id cs \<and>
    cs_round cs = ucast (trunc_u16 (cv_round cv))"
proof -
  obtain v where v: "svr_vote r = Some v" using assms(3) by (auto simp: vote_consensus_state_def split: option.splits)
  let ?cv = "canonical_vote_new (v\<lparr>v_signature := []\<rparr>) chain"
  have b: "b = delimited (canonical_vote_bytes ?cv)"
    using assms(1,2) v by (simp add: vote_sign_bytes_def wire_codec_def)
  have "read_delimited b = Some (canonical_vote_bytes ?cv, [])"
    using read_delimited_delimited [of "canonical_vote_bytes ?cv" "[]"] b by simp
  moreover have "cv_chain_id ?cv = chain" "cv_height ?cv = v_height v" "cv_round ?cv = v_round v"
    "cv_block_id ?cv = canonical_block_id_of (v_block_id v)"
    by (simp_all add: canonical_vote_new_def)
  ultimately show ?thesis using assms(3) v
    by (auto simp: vote_consensus_state_def canonical_vote_parse_block_height_def canonical_parse_canonical
        split: option.splits)
qed

definition full_block :: amino_block_id where
  "full_block = \<lparr>bid_hash = replicate 32 7, bid_parts_header = Some \<lparr>psh_total = 1, psh_hash = replicate 32 8\<rparr>\<rparr>"

theorem signed_bytes_match_recorded_state_witness:
  "\<exists>b m cv. vote_sign_bytes wire_codec ''c'' Legacy (request_for (Some full_block) None) = Done b \<and>
    read_delimited b = Some (m, []) \<and> read_canonical_vote m = Some cv \<and>
    Option.bind (cv_block_id cv) (canonical_parse_block_id sample_tm) = parse_block_id sample_tm full_block"
proof -
  obtain b where b: "vote_sign_bytes wire_codec ''c'' Legacy (request_for (Some full_block) None) = Done b"
    by (simp add: vote_sign_bytes_def wire_codec_def request_for_def)
  obtain cs where cs: "vote_consensus_state sample_tm (request_for (Some full_block) None) = Some cs"
    and id: "cs_block_id cs = parse_block_id sample_tm full_block"
    by (simp add: vote_consensus_state_def request_for_def vote_for_def sample_tm_def state_block_id_def)
  show ?thesis using signed_bytes_match_recorded_state [OF _ b cs] b id by auto
qed

text \<open>
  A vote of the \<^verbatim>\<open>tendermint\<close> crate keeps its meaning as an amino message: from a vote whose
  height is below \<open>2 ^ 63\<close> and whose block ID has full hashes that the crate accepts, with no time
  before the epoch, the conversion gives a message whose consensus state has that height and that
  block ID.
\<close>

theorem converted_vote_state:
  assumes "height_conversion tm" and "0 \<le> sint (tv_height tv)"
    and "\<And>t. tv_timestamp tv = Some t \<Longrightarrow> 0 \<le> fst t"
    and "\<And>i. tv_block_id tv = Some i \<Longrightarrow> length (id_hash i) = SHA256_HASH_SIZE \<and>
      length (ph_hash (id_part_set_header i)) = SHA256_HASH_SIZE \<and>
      parts_header_new tm (ph_total (id_part_set_header i)) (ph_hash (id_part_set_header i)) =
        Some (id_part_set_header i)"
  shows "\<exists>v cs. vote_from tv = Done v \<and> vote_consensus_state tm \<lparr>svr_vote = Some v\<rparr> = Some cs \<and>
    cs_height cs = tv_height tv \<and> cs_block_id cs = tv_block_id tv"
proof -
  obtain v where v: "vote_from tv = Done v" "v_height v = tv_height tv"
    "v_block_id v = map_option block_id_from (tv_block_id tv)"
    using assms(3) by (cases "tv_timestamp tv") (auto simp: vote_from_def time_msg_from_def block_id_from_def [abs_def])
  moreover have "state_block_id tm (v_block_id v) = tv_block_id tv"
    using assms(4) v(3) by (cases "tv_block_id tv") (simp_all add: state_block_id_def parse_block_id_from)
  ultimately show ?thesis
    using height_conversionD [OF assms(1), of "tv_height tv"] assms(2) by (simp add: vote_consensus_state_def)
qed

definition full_vote :: tendermint_vote where
  "full_vote = \<lparr>tv_vote_type = 2, tv_height = 7, tv_round = 1, tv_block_id = parse_block_id sample_tm full_block,
     tv_timestamp = Some (1500000000, 5), tv_validator_address = replicate 20 0, tv_validator_index = 3,
     tv_signature = None\<rparr>"

theorem converted_vote_state_witness:
  "\<exists>v cs. vote_from full_vote = Done v \<and> vote_consensus_state sample_tm \<lparr>svr_vote = Some v\<rparr> = Some cs \<and>
    cs_block_id cs = parse_block_id sample_tm full_block"
proof -
  have id: "parse_block_id sample_tm full_block = Some \<lparr>id_hash = replicate 32 7,
      id_part_set_header = \<lparr>ph_total = 1, ph_hash = replicate 32 8\<rparr>\<rparr>"
    by (simp add: parse_block_id_def full_block_def parse_parts_header_def parse_sha256_hash_def SHA256_HASH_SIZE_def
        sample_tm_def)
  have "0 \<le> sint (tv_height full_vote)" "tv_timestamp full_vote = Some (1500000000, 5)"
    "tv_block_id full_vote = parse_block_id sample_tm full_block"
    by (simp_all add: full_vote_def)
  then show ?thesis using converted_vote_state [OF sample_height_conversion, of full_vote] id
    by (auto simp: SHA256_HASH_SIZE_def sample_tm_def)
qed

text \<open>The public key in a response survives the way there and back.\<close>

lemma public_key_roundtrip:
  "from_bytes k = Some k \<Longrightarrow>
     obind (pub_key_response_from (Ed25519 k)) (\<lambda>r. Done (public_key_try_from from_bytes r)) = Done (Some (Ed25519 k))"
  by (simp add: public_key_try_from_def)

end
