(* ===== verification/Unit_Tests.thy ===== *)
theory Unit_Tests
  imports Amino_Conversions "HOL-Library.Code_Target_Nat"
begin

text \<open>
  The unit tests of the repository, run on the model: the test data of \<^verbatim>\<open>src/amino_types/vote.rs\<close>,
  \<^verbatim>\<open>proposal.rs\<close>, \<^verbatim>\<open>ed25519.rs\<close> and \<^verbatim>\<open>src/chain/state.rs\<close>, and what the tests assert as theorems.  The
  expected bytes come from the reference implementation of Tendermint, so the tests tie the wire
  format and the layouts of the model to it.

  The tests give their times as text; the data below has the seconds and nanoseconds they parse to.
\<close>

section \<open>Votes\<close>

definition test_stamp :: time_msg where
  "test_stamp = \<lparr>tm_seconds = 1514170801, tm_nanos = 234000000\<rparr>"

definition test_block :: amino_block_id where
  "test_block = \<lparr>bid_hash = str_bytes ''hash'',
     bid_parts_header = Some \<lparr>psh_total = 1000000, psh_hash = str_bytes ''parts_hash''\<rparr>\<rparr>"

definition test_vote :: vote where
  "test_vote =
     \<lparr>v_vote_type = msg_type_to_u32 PreVote, v_height = 12345, v_round = 2, v_block_id = Some test_block,
      v_timestamp = Some test_stamp,
      v_validator_address =
       [163, 178, 204, 221, 113, 134, 241, 104, 95, 33, 242, 72, 42, 244, 251, 52, 70, 168, 75, 53],
      v_validator_index = 56789, v_signature = []\<rparr>"

definition test_vote_want :: bytes where
  "test_vote_want =
     [78, 243, 244, 18, 4, 10, 72, 8, 1, 16, 185, 96, 24, 2, 34, 24, 10, 4, 104, 97, 115, 104, 18, 16, 8,
     192, 132, 61, 18, 10, 112, 97, 114, 116, 115, 95, 104, 97, 115, 104, 42, 11, 8, 177, 211, 129, 210,
     5, 16, 128, 157, 202, 111, 50, 20, 163, 178, 204, 221, 113, 134, 241, 104, 95, 33, 242, 72, 42,
     244, 251, 52, 70, 168, 75, 53, 56, 213, 187, 3]"

text \<open>The canonical votes of the second test: no fields, a pre-commit, a pre-vote, no type, and a chain ID.\<close>

definition test_precommit :: vote where
  "test_precommit = vote_default\<lparr>v_height := 1, v_round := 1, v_vote_type := msg_type_to_u32 PreCommit\<rparr>"

definition test_prevote :: vote where
  "test_prevote = vote_default\<lparr>v_height := 1, v_round := 1, v_vote_type := msg_type_to_u32 PreVote\<rparr>"

definition test_no_type :: vote where
  "test_no_type = vote_default\<lparr>v_height := 1, v_round := 1\<rparr>"

definition test_default_want :: bytes where
  "test_default_want =
     [13, 42, 11, 8, 128, 146, 184, 195, 152, 254, 255, 255, 255, 1]"

definition test_precommit_want :: bytes where
  "test_precommit_want =
     [8, 2, 17, 1, 0, 0, 0, 0, 0, 0, 0, 25, 1, 0, 0, 0, 0, 0, 0, 0, 42, 11, 8, 128, 146, 184, 195, 152, 254,
     255, 255, 255, 1]"

definition test_prevote_want :: bytes where
  "test_prevote_want =
     [8, 1, 17, 1, 0, 0, 0, 0, 0, 0, 0, 25, 1, 0, 0, 0, 0, 0, 0, 0, 42, 11, 8, 128, 146, 184, 195, 152, 254,
     255, 255, 255, 1]"

definition test_no_type_want :: bytes where
  "test_no_type_want =
     [17, 1, 0, 0, 0, 0, 0, 0, 0, 25, 1, 0, 0, 0, 0, 0, 0, 0, 42, 11, 8, 128, 146, 184, 195, 152, 254, 255,
     255, 255, 1]"

definition test_chain_id_want :: bytes where
  "test_chain_id_want =
     [17, 1, 0, 0, 0, 0, 0, 0, 0, 25, 1, 0, 0, 0, 0, 0, 0, 0, 42, 11, 8, 128, 146, 184, 195, 152, 254, 255,
     255, 255, 1, 50, 13, 116, 101, 115, 116, 95, 99, 104, 97, 105, 110, 95, 105, 100]"

text \<open>The vote with a signature.\<close>

definition test_signed_vote :: vote where
  "test_signed_vote = test_vote\<lparr>v_signature :=
     [130, 246, 183, 50, 153, 248, 28, 57, 51, 142, 55, 217, 194, 24, 134, 212, 233, 100, 211, 10, 24, 174,
     179, 117, 41, 65, 141, 134, 149, 239, 65, 174, 217, 42, 6, 184, 112, 17, 7, 97, 255, 221, 252, 16,
     60, 144, 30, 212, 167, 39, 67, 35, 118, 192, 133, 130, 193, 115, 32, 206, 152, 91, 173, 10]\<rparr>"

lemma test_vote_encoded: "sign_vote_request_bytes table_sha256 \<lparr>svr_vote = Some test_vote\<rparr> = test_vote_want"
  by code_simp

lemma test_canonical_encoded:
  "delimited (canonical_vote_bytes (canonical_vote_new vote_default '''')) = test_default_want"
  "canonical_vote_bytes (canonical_vote_new test_precommit '''') = test_precommit_want"
  "canonical_vote_bytes (canonical_vote_new test_prevote '''') = test_prevote_want"
  "canonical_vote_bytes (canonical_vote_new test_no_type '''') = test_no_type_want"
  "canonical_vote_bytes (canonical_vote_new test_no_type ''test_chain_id'') = test_chain_id_want"
  by code_simp+

text \<open>The tests, each as what it asserts.\<close>

definition test_vote_serialization :: bool where
  "test_vote_serialization =
     (let got = sign_vote_request_bytes table_sha256 \<lparr>svr_vote = Some test_vote\<rparr>
      in read_sign_vote_request table_sha256 got \<noteq> None \<and> got = test_vote_want)"

definition test_sign_bytes_compatibility :: bool where
  "test_sign_bytes_compatibility \<longleftrightarrow>
     amino_encode_canonical_vote wire_codec (canonical_vote_new vote_default '''') = Some test_default_want \<and>
     bytes_vec (Some \<circ> canonical_vote_bytes) (canonical_vote_new test_precommit '''') = Done test_precommit_want \<and>
     bytes_vec (Some \<circ> canonical_vote_bytes) (canonical_vote_new test_prevote '''') = Done test_prevote_want \<and>
     bytes_vec (Some \<circ> canonical_vote_bytes) (canonical_vote_new test_no_type '''') = Done test_no_type_want \<and>
     bytes_vec (Some \<circ> canonical_vote_bytes) (canonical_vote_new test_no_type ''test_chain_id'') =
       Done test_chain_id_want"

definition test_vote_roundtrip_with_sig :: bool where
  "test_vote_roundtrip_with_sig \<longleftrightarrow>
     read_vote (vote_bytes test_signed_vote) = Some test_signed_vote \<and>
     (let svr = \<lparr>svr_vote = Some test_signed_vote\<rparr>
      in read_sign_vote_request table_sha256 (sign_vote_request_bytes table_sha256 svr) = Some svr)"

definition test_vote_deserialization :: bool where
  "test_vote_deserialization \<longleftrightarrow>
     read_sign_vote_request table_sha256 test_vote_want = Some \<lparr>svr_vote = Some test_vote\<rparr>"

text \<open>
  The model passes the tests of the vote messages: the request is encoded to the bytes of the
  reference implementation and decoded from them, the canonical votes have the expected bytes, and
  a vote with its signature survives encoding and decoding, alone and in a request.
\<close>

theorem vote_tests_pass:
  "test_vote_serialization \<and> test_sign_bytes_compatibility \<and> test_vote_roundtrip_with_sig \<and> test_vote_deserialization"
  using read_requests(1) [of table_sha256 "\<lparr>svr_vote = Some test_vote\<rparr>"]
  by (simp add: test_vote_serialization_def test_sign_bytes_compatibility_def test_vote_roundtrip_with_sig_def
      test_vote_deserialization_def test_vote_encoded test_canonical_encoded wire_codec_def bytes_vec_def)

section \<open>Proposals\<close>

definition test_proposal_stamp :: time_msg where
  "test_proposal_stamp = \<lparr>tm_seconds = 1518332962, tm_nanos = 765000000\<rparr>"

definition test_proposal :: proposal where
  "test_proposal =
     \<lparr>p_msg_type = msg_type_to_u32 Proposal, p_height = 12345, p_round = 23456, p_pol_round = - 1,
      p_block_id = Some test_block, p_timestamp = Some test_proposal_stamp, p_signature = []\<rparr>"

definition test_proposal_want :: bytes where
  "test_proposal_want =
     [66, 189, 228, 152, 226, 10, 60, 8, 32, 16, 185, 96, 24, 160, 183, 1, 32, 255, 255, 255, 255, 255, 255,
     255, 255, 255, 1, 42, 24, 10, 4, 104, 97, 115, 104, 18, 16, 8, 192, 132, 61, 18, 10, 112, 97, 114,
     116, 115, 95, 104, 97, 115, 104, 50, 12, 8, 162, 216, 255, 211, 5, 16, 192, 242, 227, 236, 2]"

definition test_proposal_serialization :: bool where
  "test_proposal_serialization \<longleftrightarrow>
     sign_proposal_request_bytes table_sha256 \<lparr>spr_proposal = Some test_proposal\<rparr> = test_proposal_want"

definition test_proposal_deserialization :: bool where
  "test_proposal_deserialization \<longleftrightarrow>
     read_sign_proposal_request table_sha256 test_proposal_want = Some \<lparr>spr_proposal = Some test_proposal\<rparr>"

text \<open>the model passes the tests of the proposal messages: encoding and decoding of a request.\<close>

theorem proposal_tests_pass: "test_proposal_serialization \<and> test_proposal_deserialization"
proof -
  have "sign_proposal_request_bytes table_sha256 \<lparr>spr_proposal = Some test_proposal\<rparr> = test_proposal_want"
    by code_simp
  then show ?thesis using read_requests(2) [of table_sha256 "\<lparr>spr_proposal = Some test_proposal\<rparr>"]
    by (simp add: test_proposal_serialization_def test_proposal_deserialization_def)
qed

section \<open>Public keys\<close>

definition test_pub_key_request_want :: bytes where
  "test_pub_key_request_want = [4, 203, 148, 214, 32]"

definition test_pub_key :: bytes where
  "test_pub_key =
     [121, 206, 13, 224, 67, 51, 74, 236, 224, 139, 123, 181, 97, 188, 231, 193, 212, 105, 195, 68, 38, 236,
     239, 192, 114, 10, 82, 77, 55, 50, 239, 237]"

definition test_pub_key_response_want :: bytes where
  "test_pub_key_response_want =
     [43, 23, 14, 213, 124, 10, 37, 22, 36, 222, 100, 32, 121, 206, 13, 224, 67, 51, 74, 236, 224, 139, 123,
     181, 97, 188, 231, 193, 212, 105, 195, 68, 38, 236, 239, 192, 114, 10, 82, 77, 55, 50, 239, 237]"

definition test_raw_pk :: bytes where
  "test_raw_pk =
     [175, 243, 148, 197, 183, 92, 251, 13, 217, 40, 229, 138, 146, 221, 118, 85, 43, 46, 141, 25, 111, 233,
     18, 20, 80, 128, 107, 208, 217, 63, 208, 203]"

text \<open>\<^verbatim>\<open>Ed25519::from_bytes\<close>, as far as the tests ask: it takes keys of 32 bytes.\<close>

definition sized_key :: "bytes \<Rightarrow> bytes option" where
  "sized_key b = (if length b = 32 then Some b else None)"

definition test_empty_pubkey_msg :: bool where
  "test_empty_pubkey_msg \<longleftrightarrow>
     empty_request_bytes table_sha256 PUBKEY_AMINO_NAME = test_pub_key_request_want \<and>
     read_empty_request table_sha256 PUBKEY_AMINO_NAME test_pub_key_request_want = Some ()"

definition test_ed25519_pubkey_msg :: bool where
  "test_ed25519_pubkey_msg =
     (let msg = \<lparr>pkr_pub_key_ed25519 = test_pub_key\<rparr>
      in pub_key_response_bytes table_sha256 msg = test_pub_key_response_want \<and>
         read_pub_key_response table_sha256 test_pub_key_response_want = Some msg)"

definition test_into :: "(bytes \<Rightarrow> bytes option) \<Rightarrow> bool" where
  "test_into from_bytes =
     (let pk = \<lparr>pkr_pub_key_ed25519 = test_raw_pk\<rparr>; got = public_key_try_from from_bytes pk
      in got = map_option Ed25519 (from_bytes test_raw_pk) \<and>
         (case got of None \<Rightarrow> False | Some key \<Rightarrow> pub_key_response_from key = Done pk))"

text \<open>A test that has to panic: unwrapping the missing key does.\<close>

definition test_empty_into :: "(bytes \<Rightarrow> bytes option) \<Rightarrow> bool" where
  "test_empty_into from_bytes = (public_key_try_from from_bytes \<lparr>pkr_pub_key_ed25519 = []\<rparr> = None)"

text \<open>
  The model passes the tests of the public key messages: the empty request and the response
  have the bytes of the reference implementation and are read back, a key survives the conversion
  from a response and back, and a response without a key has none to unwrap.
\<close>

theorem pub_key_tests_pass:
  "test_empty_pubkey_msg \<and> test_ed25519_pubkey_msg \<and> test_into sized_key \<and> test_empty_into sized_key"
proof -
  have request: "empty_request_bytes table_sha256 PUBKEY_AMINO_NAME = test_pub_key_request_want"
    by code_simp
  have response: "pub_key_response_bytes table_sha256 \<lparr>pkr_pub_key_ed25519 = test_pub_key\<rparr> = test_pub_key_response_want"
    by code_simp
  have "length test_raw_pk = 32" by code_simp
  then show ?thesis
    using request response read_responses(3) [of table_sha256 "\<lparr>pkr_pub_key_ed25519 = test_pub_key\<rparr>"]
      read_empty_request_bytes [of table_sha256 PUBKEY_AMINO_NAME]
    by (simp add: public_key_try_from_def sized_key_def test_empty_pubkey_msg_def test_ed25519_pubkey_msg_def
        test_into_def test_empty_into_def)
qed

section \<open>Double-sign protection\<close>

definition test_path :: path where
  "test_path = \<lparr>path_absolute = True, path_components = [''tmp'', ''tmp_state.json'']\<rparr>"

text \<open>The two block IDs, which the tests parse from their hexadecimal text.\<close>

definition EXAMPLE_BLOCK_ID :: string where
  "EXAMPLE_BLOCK_ID =
     ''26C0A41F3243C6BCD7AD2DFF8A8D83A71D29D307B5326C227F734A1A512FE47D''"

definition EXAMPLE_DOUBLE_SIGN_BLOCK_ID :: string where
  "EXAMPLE_DOUBLE_SIGN_BLOCK_ID =
     ''2470A41F3243C6BCD7AD2DFF8A8D83A71D29D307B5326C227F734A1A512FE47D''"

definition test_state :: "u64 \<Rightarrow> u32 \<Rightarrow> int \<Rightarrow> block_id option \<Rightarrow> consensus_state" where
  "test_state height round step block_id =
     \<lparr>cs_height = height, cs_round = round, cs_step = step, cs_block_id = block_id\<rparr>"

definition run_update :: "state_json \<Rightarrow> consensus_state \<Rightarrow> consensus_state \<Rightarrow> disk \<Rightarrow> (state_error_kind, unit) outcome" where
  "run_update js old_state new_state disk =
     snd (update_consensus_state js Write_ok new_state
            \<lparr>st_consensus_state = old_state, st_state_file_path = test_path\<rparr> disk)"

definition successful_updates :: "block_id \<Rightarrow> block_id \<Rightarrow> (consensus_state \<times> consensus_state) list" where
  "successful_updates example double_sign =
     [(test_state 1 1 0 None, test_state 2 0 0 None),
      (test_state 1 1 1 None, test_state 1 1 2 (Some example)),
      (test_state 1 1 0 (Some example), test_state 2 0 0 (Some double_sign)),
      (test_state 1 1 0 (Some example), test_state 2 0 0 None),
      (test_state 1 0 0 (Some example), test_state 1 0 1 None)]"

definition double_sign_updates :: "block_id \<Rightarrow> block_id \<Rightarrow> (consensus_state \<times> consensus_state) list" where
  "double_sign_updates example double_sign =
     [(test_state 1 1 0 (Some example), test_state 1 1 1 (Some double_sign)),
      (test_state 1 1 2 None, test_state 1 1 2 (Some example))]"

text \<open>The macros that make a test of a pair of states.\<close>

definition successful_update_test :: "state_json \<Rightarrow> disk \<Rightarrow> consensus_state \<times> consensus_state \<Rightarrow> bool" where
  "successful_update_test js disk = (\<lambda>(old_state, new_state). run_update js old_state new_state disk = Done ())"

definition double_sign_test :: "state_json \<Rightarrow> disk \<Rightarrow> consensus_state \<times> consensus_state \<Rightarrow> bool" where
  "double_sign_test js disk =
     (\<lambda>(old_state, new_state). run_update js old_state new_state disk = Failed State_DoubleSign)"

text \<open>
  The model passes the tests of the double-sign protection: the five updates succeed and the
  two double signs are refused as such, when the state file can be written.
\<close>

theorem state_tests_pass:
  assumes "\<And>s. to_json js s \<noteq> None" and "parse EXAMPLE_BLOCK_ID = Some example"
    and "parse EXAMPLE_DOUBLE_SIGN_BLOCK_ID = Some double_sign" and "example \<noteq> double_sign"
  shows "list_all (successful_update_test js disk) (successful_updates example double_sign) \<and>
    list_all (double_sign_test js disk) (double_sign_updates example double_sign)"
proof -
  have parent: "path_parent test_path \<noteq> None" by (simp add: test_path_def path_parent_def)
  have "run_update js old new disk = Done ()" if "consensus_check old new = Done ()" for old new
    using that assms(1) [of new] parent
    by (auto simp: run_update_def update_consensus_state_def sync_to_disk_def split: option.splits)
  moreover have "run_update js old new disk = Failed State_DoubleSign"
    if "consensus_check old new = Failed State_DoubleSign" for old new
    using that by (simp add: run_update_def update_consensus_state_def)
  ultimately show ?thesis using assms(4)
    by (simp add: successful_updates_def double_sign_updates_def test_state_def consensus_check_def
        successful_update_test_def double_sign_test_def)
qed

definition text_block :: "string \<Rightarrow> block_id option" where
  "text_block s = Some \<lparr>id_hash = str_bytes s, id_part_set_header = \<lparr>ph_total = 1, ph_hash = []\<rparr>\<rparr>"

theorem state_tests_pass_witness:
  "\<exists>example. text_block EXAMPLE_BLOCK_ID = Some example \<and>
     run_update \<lparr>to_json = \<lambda>_. Some [], from_json = \<lambda>_. None\<rparr> (test_state 1 0 0 (Some example)) (test_state 1 0 1 None)
       Map.empty = Done ()"
proof -
  obtain a b where ab: "text_block EXAMPLE_BLOCK_ID = Some a" "text_block EXAMPLE_DOUBLE_SIGN_BLOCK_ID = Some b"
    by (simp add: text_block_def)
  moreover have "a \<noteq> b"
  proof -
    have "str_bytes EXAMPLE_BLOCK_ID \<noteq> str_bytes EXAMPLE_DOUBLE_SIGN_BLOCK_ID" by code_simp
    then show ?thesis using ab by (auto simp: text_block_def)
  qed
  ultimately show ?thesis
    using state_tests_pass [of "\<lparr>to_json = \<lambda>_. Some [], from_json = \<lambda>_. None\<rparr>" text_block a b Map.empty]
    by (simp add: successful_updates_def successful_update_test_def)
qed

section \<open>The state hook\<close>

text \<open>The one test of the hook only asks that running it does not panic.\<close>

definition hook_test_config :: hook_config where
  "hook_test_config = \<lparr>hook_cmd = [''todo'', ''real'', ''example''], hook_timeout_secs = Some 0, hook_fail_closed = True\<rparr>"

lemma hook_test_passes: "\<not> is_panic (hook_run parse os hook_test_config)"
  by (simp add: hook_run_def hook_test_config_def Let_def split: option.splits wait_result.splits)

end
