(* ===== verification/Ledger_Tests.thy ===== *)
theory Ledger_Tests
  imports Ledger_App Wire_Messages "HOL-Library.Code_Target_Nat"
begin

text \<open>
  The tests of the Ledger client and signer, in \<^verbatim>\<open>src/keyring/providers/ledgertm/client.rs\<close> and
  \<^verbatim>\<open>signer.rs\<close>, on the model.  The repository runs them only with a device at hand; here the device is an
  argument, and the theorems say for which devices they pass.
\<close>

section \<open>Messages\<close>

text \<open>The bytes after the two numbers, and the little-endian writers of \<^verbatim>\<open>byteorder\<close>.\<close>

definition other :: bytes where
  "other = [0xb, 0x8, 0x80, 0x92, 0xb8, 0xc3, 0x98, 0xfe, 0xff, 0xff, 0xff, 0x1]"

definition write_u64 :: "u64 \<Rightarrow> bytes" where
  "write_u64 x = le_bytes 8 (unat x)"

definition get_fake_proposal :: "u64 \<Rightarrow> i64 \<Rightarrow> bytes" where
  "get_fake_proposal index round =
     (let message = [0] @ [0x08, 0x01] @ [0x11] @ write_u64 index @ [0x19] @ write_u64 round @ [0x22] @ other
      in message[0 := word_of_nat (length message) - 1])"

text \<open>The messages of \<^verbatim>\<open>sign_many\<close> in the client, which have no length in front, and of the signer.\<close>

definition client_vote :: "u8 \<Rightarrow> bytes" where
  "client_vote index =
     [0x8, 0x1, 0x11, index, 0x0, 0x0, 0x0, 0x0, 0x0, 0x0, 0x0, 0x19, 0x1, 0x0, 0x0, 0x0, 0x0, 0x0, 0x0, 0x0, 0x22] @ other"

definition signer_sign_message :: bytes where
  "signer_sign_message =
     [33, 0x8, 0x1, 0x11, 0x10, 0x00, 0x0, 0x0, 0x0, 0x0, 0x0, 0x0, 0x19, 0x1, 0x0, 0x0, 0x0, 0x0, 0x0, 0x0, 0x0, 0x22] @ other"

definition signer_sign2_messages :: "bytes list" where
  "signer_sign2_messages =
     [[33, 0x8, 0x1, 0x11, 0x1, 0x0, 0x0, 0x0, 0x0, 0x0, 0x0, 0x0, 0x19, 0x1, 0x0, 0x0, 0x0, 0x0, 0x0, 0x0, 0x0, 0x22] @ other,
      [33, 0x8, 0x1, 0x11, 0x10, 0x00, 0x0, 0x0, 0x0, 0x0, 0x0, 0x0, 0x19, 0x2, 0x0, 0x0, 0x0, 0x0, 0x0, 0x0, 0x0, 0x22] @ other]"

definition signer_vote :: "u8 \<Rightarrow> bytes" where
  "signer_vote index =
     [33, 0x8, 0x1, 0x11, 0x40, 0x00, 0x0, 0x0, 0x0, 0x0, 0x0, 0x0, 0x19, index, 0x0, 0x0, 0x0, 0x0, 0x0, 0x0, 0x0, 0x22] @ other"

section \<open>The tests\<close>

text \<open>A test that unwraps a failure panics; one that asserts gives the truth of what it asserts.\<close>

definition test_failed :: panic_payload where
  "test_failed = Payload_str ''explicit panic''"

definition unwrap_run :: "'a app_run \<Rightarrow> 'a app_run" where
  "unwrap_run r = (case r of (sent, Failed e) \<Rightarrow> (sent, Panicked test_failed) | _ \<Rightarrow> r)"

fun sign_each :: "device \<Rightarrow> bytes list \<Rightarrow> apdu_command list \<Rightarrow> unit app_run" where
  "sign_each dev [] sent = (sent, Done ())"
| "sign_each dev (m # ms) sent = rbind (unwrap_run (app_sign dev m sent)) (\<lambda>sent' _. sign_each dev ms sent')"

definition version_test :: "device \<Rightarrow> bool" where
  "version_test dev =
     (case snd (app_version dev []) of
        Done v \<Rightarrow> ver_mode v = 0xFF \<and> ver_major v = 0x00 \<and> ver_minor v \<ge> 0x04
      | Failed e \<Rightarrow> True
      | Panicked p \<Rightarrow> False)"

definition public_key_test :: "device \<Rightarrow> bool" where
  "public_key_test dev =
     (case snd (app_public_key dev []) of Done pk \<Rightarrow> length pk = 32 | _ \<Rightarrow> False)"

definition sign_empty_test :: "device \<Rightarrow> bool" where
  "sign_empty_test dev \<longleftrightarrow> snd (app_sign dev [] []) = Failed InvalidEmptyMessage"

definition sign_verify_test :: "(bytes \<Rightarrow> bytes \<Rightarrow> bytes \<Rightarrow> bool) \<Rightarrow> device \<Rightarrow> bool" where
  "sign_verify_test verify dev =
     (case rbind (unwrap_run (app_sign dev (get_fake_proposal 5 0) [])) (\<lambda>sent _.
           rbind (app_sign dev (get_fake_proposal 6 0) sent) (\<lambda>sent sig.
           rbind (unwrap_run (app_public_key dev sent)) (\<lambda>sent public_key.
             (sent, Done (verify public_key (get_fake_proposal 6 0) sig))))) of
        (_, Done ok) \<Rightarrow> ok
      | _ \<Rightarrow> False)"

definition sign_many_test :: "device \<Rightarrow> (ledger_error, unit) outcome" where
  "sign_many_test dev = snd
     (rbind (unwrap_run (app_public_key dev [])) (\<lambda>sent _.
        sign_each dev (map (\<lambda>i. client_vote (word_of_nat i)) [50..<254]) sent))"

definition quick_benchmark :: "device \<Rightarrow> (ledger_error, unit) outcome" where
  "quick_benchmark dev = snd
     (sign_each dev (map (\<lambda>i. get_fake_proposal (word_of_nat i) 100) [0..<20]) [])"

definition signer_test :: "device \<Rightarrow> (ledger_error, unit) outcome" where
  "signer_test dev = snd (sign_each dev [signer_sign_message] [])"

definition signer_test2 :: "device \<Rightarrow> (ledger_error, unit) outcome" where
  "signer_test2 dev = snd (sign_each dev signer_sign2_messages [])"

definition signer_many_test :: "device \<Rightarrow> (ledger_error, unit) outcome" where
  "signer_many_test dev = snd
     (rbind (unwrap_run (app_public_key dev [])) (\<lambda>sent _.
        sign_each dev (map (\<lambda>i. signer_vote (word_of_nat i)) [50..<254]) sent))"

section \<open>When they pass\<close>

text \<open>
  A device that works: whatever it was sent before, it answers a sign command with 64 bytes and the
  command for the public key with 32 bytes.
\<close>

definition working_device :: "device \<Rightarrow> bool" where
  "working_device dev \<longleftrightarrow>
     (\<forall>sent c. ins c = INS_SIGN_ED25519 \<longrightarrow> (\<exists>a. dev sent c = Some a \<and> length (answer_data a) = 64)) \<and>
     (\<forall>sent c. ins c = INS_PUBLIC_KEY_ED25519 \<longrightarrow> (\<exists>a. dev sent c = Some a \<and> length (answer_data a) = 32))"

definition signs_with_own_key :: "(bytes \<Rightarrow> bytes \<Rightarrow> bytes \<Rightarrow> bool) \<Rightarrow> device \<Rightarrow> bool" where
  "signs_with_own_key verify dev \<longleftrightarrow>
     (\<forall>sent m sent' sig pk. app_sign dev m sent = (sent', Done sig) \<and> snd (app_public_key dev sent') = Done pk \<longrightarrow>
        verify pk m sig)"

lemma single_chunk: "m \<noteq> [] \<Longrightarrow> length m \<le> 250 \<Longrightarrow> chunks USER_MESSAGE_CHUNK_SIZE m = [m]"
  by (simp add: chunks_step USER_MESSAGE_CHUNK_SIZE_def)

lemma app_sign_working:
  assumes "working_device dev" and "m \<noteq> []" and "length m \<le> 250"
  shows "\<exists>sig. app_sign dev m sent = (sent @ [sign_command 0 1 m], Done sig) \<and> length sig = 64"
proof -
  obtain a where "dev sent (sign_command 0 1 m) = Some a" "length (answer_data a) = 64"
    using assms(1) unfolding working_device_def by (metis apdu_command.select_convs(2) sign_command_def)
  then show ?thesis by (auto simp: app_sign_def single_chunk [OF assms(2,3)] exchange_def)
qed

lemma app_public_key_working:
  assumes "working_device dev"
  shows "\<exists>sent' pk. app_public_key dev sent = (sent', Done pk) \<and> length pk = 32"
proof -
  let ?c = "\<lparr>cla = CLA, ins = INS_PUBLIC_KEY_ED25519, p1 = 0, p2 = 0, apdu_length = 0, apdu_data = []\<rparr>"
  obtain a where "dev sent ?c = Some a" "length (answer_data a) = 32"
    using assms unfolding working_device_def by (metis apdu_command.select_convs(2))
  then show ?thesis by (simp add: app_public_key_def exchange_def)
qed

lemma sign_each_working:
  assumes "working_device dev" and "\<And>m. m \<in> set ms \<Longrightarrow> m \<noteq> [] \<and> length m \<le> 250"
  shows "sign_each dev ms sent = (sent @ map (sign_command 0 1) ms, Done ())"
  using assms(2)
proof (induction ms arbitrary: sent)
  case (Cons m ms)
  then obtain sig where "app_sign dev m sent = (sent @ [sign_command 0 1 m], Done sig)"
    using app_sign_working [OF assms(1), of m sent] by auto
  then show ?case using Cons by (simp add: unwrap_run_def)
qed simp

lemma message_lengths [simp]:
  "length other = 12" "length (get_fake_proposal i r) = 34" "length (client_vote n) = 33"
  "length signer_sign_message = 34" "length (signer_vote n) = 34"
  by (simp_all add: other_def get_fake_proposal_def client_vote_def signer_sign_message_def signer_vote_def
      write_u64_def Let_def)

lemma messages_fit:
  "length m = 33 \<or> length m = 34 \<Longrightarrow> m \<noteq> [] \<and> length m \<le> 250"
  by auto

lemma test_messages_signed:
  "working_device dev \<Longrightarrow> \<forall>m \<in> set ms. length m = 33 \<or> length m = 34 \<Longrightarrow> snd (sign_each dev ms sent) = Done ()"
  using sign_each_working [of dev ms sent] messages_fit by (metis snd_conv)

lemma sign_verify_working:
  assumes "working_device dev" and "signs_with_own_key verify dev"
  shows "sign_verify_test verify dev"
proof -
  have fit: "get_fake_proposal i r \<noteq> [] \<and> length (get_fake_proposal i r) \<le> 250" for i r
    by (intro messages_fit) simp
  obtain sent sig1 where "app_sign dev (get_fake_proposal 5 0) [] = (sent, Done sig1)"
    using app_sign_working [OF assms(1), of "get_fake_proposal 5 0" "[]"] fit by blast
  moreover obtain sent' sig where sig: "app_sign dev (get_fake_proposal 6 0) sent = (sent', Done sig)"
    using app_sign_working [OF assms(1), of "get_fake_proposal 6 0" sent] fit by blast
  moreover obtain sent'' pk where pk: "app_public_key dev sent' = (sent'', Done pk)"
    using app_public_key_working [OF assms(1)] by blast
  moreover have "verify pk (get_fake_proposal 6 0) sig"
    using assms(2) sig pk unfolding signs_with_own_key_def by (metis snd_conv)
  ultimately show ?thesis by (simp add: sign_verify_test_def unwrap_run_def)
qed

text \<open>
  The tests of the Ledger client and signer pass on every working device: all their messages
  go out as one command each and come back signed, and the empty message is refused.  The one that
  verifies a signature passes if the device signs with the key it reports.
\<close>

theorem ledger_tests_pass:
  assumes "working_device dev"
  shows "public_key_test dev \<and> sign_empty_test dev \<and> sign_many_test dev = Done () \<and> quick_benchmark dev = Done () \<and>
    signer_test dev = Done () \<and> signer_test2 dev = Done () \<and> signer_many_test dev = Done () \<and>
    (signs_with_own_key verify dev \<longrightarrow> sign_verify_test verify dev)"
proof -
  note signed = test_messages_signed [OF assms]
  obtain sent pk where pk: "app_public_key dev [] = (sent, Done pk)" "length pk = 32"
    using app_public_key_working [OF assms] by blast
  then have "snd (rbind (unwrap_run (app_public_key dev [])) (\<lambda>sent _. sign_each dev ms sent)) = Done ()"
    if "\<forall>m \<in> set ms. length m = 33 \<or> length m = 34" for ms
    using signed [OF that] by (simp add: unwrap_run_def)
  then have keys: "public_key_test dev" "sign_many_test dev = Done ()" "signer_many_test dev = Done ()"
    using pk by (simp_all add: public_key_test_def sign_many_test_def signer_many_test_def del: upt_rec_numeral)
  have signer: "signer_test dev = Done ()" "signer_test2 dev = Done ()" "quick_benchmark dev = Done ()"
    unfolding signer_test_def signer_test2_def quick_benchmark_def
    by (rule signed; simp add: signer_sign2_messages_def del: upt_rec_numeral)+
  show ?thesis
    using keys signer sign_verify_working [OF assms] by (simp add: sign_empty_test_def app_sign_def)
qed

definition patient_device :: device where
  "patient_device sent c = Some \<lparr>answer_data = replicate (if ins c = INS_SIGN_ED25519 then 64 else 32) 7,
     retcode = 0x9000\<rparr>"

theorem ledger_tests_pass_witness:
  "quick_benchmark patient_device = Done () \<and> sign_verify_test (\<lambda>pk m sig. length pk + length sig = 96) patient_device"
proof -
  have working: "working_device patient_device"
    by (simp add: working_device_def patient_device_def INS_SIGN_ED25519_def INS_PUBLIC_KEY_ED25519_def)
  have "signs_with_own_key (\<lambda>pk m sig. length pk + length sig = 96) patient_device"
    by (auto simp: signs_with_own_key_def app_public_key_def exchange_def patient_device_def INS_SIGN_ED25519_def
        INS_PUBLIC_KEY_ED25519_def dest: app_sign_DoneD(3))
  then show ?thesis using ledger_tests_pass [OF working] by blast
qed

text \<open>
  The message of the tests is not the vote its comments describe.  It says that the field after
  the round is the time stamp, but the bytes are those of field 4, which is the block ID of a
  canonical vote; its time stamp is field 5.
\<close>

theorem fake_proposal_fields:
  "read_delimited (get_fake_proposal 5 0) = Some (drop 1 (get_fake_proposal 5 0), []) \<and>
   read_fields (drop 1 (get_fake_proposal 5 0)) =
     Some [(1, Varint 1), (2, Fixed64 5), (3, Fixed64 0), (4, Delimited (drop 1 other))] \<and>
   Option.bind (read_canonical_vote (drop 1 (get_fake_proposal 5 0))) cv_timestamp = None"
  by code_simp

end
