(* ===== verification/Spec2Isabelle.thy ===== *)
theory Spec2Isabelle
  imports Global_State Unix_Socket Tx_Source Kms_Application Wire_Sessions Unit_Tests Ledger_Tests
begin

text \<open>
  Tendermint KMS (\<^verbatim>\<open>tmkms\<close>) signs votes and proposals for validators of Tendermint chains.  It
  connects to the validators, reads signing requests from the connection, checks each against the
  last state it signed for the chain, stores the new state, signs with a key of the chain's
  keyring, and answers.  A second, optional part signs transactions that it fetches from a service.
  The remaining parts load the configuration and the keys and help to set them up.  Paths below are
  relative to \<^verbatim>\<open>src/src\<close> of the repository.

  \<^bold>\<open>Conventions.\<close>  Rust's integers are words of their width; a signed one is read with \<open>sint\<close>.  A
  fallible function returns an \<open>outcome\<close>: a value, an error (by its kind, since messages are only
  logged) or a panic with its payload.  Code that changes state also returns the new state, because
  neither error nor panic undoes what happened before.  In the commands, \<^verbatim>\<open>process::exit(n)\<close> is the
  error \<open>n\<close>.  Crates outside the repository (encoders, cryptography, devices, JSON, base64, the
  operating system) are arguments of the definitions, gathered in records; what is relied on is a
  named hypothesis (\<open>json_roundtrip\<close>, \<open>base64_roundtrip\<close>, \<open>encoders_total\<close>, \<open>encoders_decodable\<close>,
  \<open>sequence_roundtrip\<close>, \<open>prefixes_apart\<close>).
  A lock is a cell that a panic poisons.

  \<^bold>\<open>Signing.\<close>
  \<^item> \<open>Kms_Prelude\<close>, \<open>Kms_Error\<close> (\<^verbatim>\<open>error.rs\<close>), \<open>Tendermint_Api\<close>, \<open>Kms_Config\<close> (\<^verbatim>\<open>config.rs\<close>,
    \<^verbatim>\<open>config/\<close>): vocabulary, errors with their conversions, the data of the Tendermint crates, and
    the configuration as it is after parsing.
  \<^item> \<open>Kms_Interfaces\<close>: the contracts \<open>position_guard\<close> (a register that only moves forward and keeps
    its value at one position), \<open>atomic_file\<close> (a file replaced as a whole) and \<open>strict_collection\<close>
    (no second entry under a key), each interpreted on the components that provide it.
  \<^item> \<open>Amino_Types\<close> (\<^verbatim>\<open>amino_types/\<close>): votes, proposals, validation, canonical forms, the bytes that are
    signed, time stamps; the locale \<open>signable_request\<close> is the trait that \<^verbatim>\<open>Session::sign\<close> relies on.
  \<^item> \<open>Chain_State\<close> (\<^verbatim>\<open>chain/state.rs\<close>, \<^verbatim>\<open>chain/state/\<close>): the double-sign check, the update and the
    atomic write of the state file, loading, and the state hook.  Shown: the exact condition of the
    check, every way an update ends, that the file always holds a written state, and the bound on
    the jump of a hook.
  \<^item> \<open>Keyring\<close> (\<^verbatim>\<open>keyring.rs\<close>, \<^verbatim>\<open>keyring/\<close>), \<open>Chain_Registry\<close> (\<^verbatim>\<open>chain.rs\<close>, \<^verbatim>\<open>chain/registry.rs\<close>,
    \<^verbatim>\<open>chain/guard.rs\<close>), \<open>Key_Providers\<close> (\<^verbatim>\<open>key_utils.rs\<close>, \<^verbatim>\<open>keyring/providers/\<close>) and \<open>Ledger_App\<close>
    (\<^verbatim>\<open>keyring/providers/ledgertm/\<close>): keys, chains, the four providers, and loading a configuration.
    Shown: the invariants of the registry however loading ends, which key signs, that a restart
    resumes from the file, and that a Ledger signs exactly the message.  The locales
    \<open>registry_invariant\<close> and \<open>chain_invariant\<close> carry an invariant through all of loading.
  \<^item> \<open>Rpc\<close> (\<^verbatim>\<open>rpc.rs\<close>) and \<open>Kms_Session\<close> (\<^verbatim>\<open>session.rs\<close>): messages in both protocols, and the
    handling of one request over a world of registry, disk and sent bytes.
  \<^item> \<open>Wire_Format\<close> and \<open>Wire_Messages\<close>: the wire format of protocol buffers and amino (variable-length
    numbers, tagged fields, registered names) and the messages of \<^verbatim>\<open>amino_types/\<close> in the layout that
    their attributes declare, as an instance of the encoders that the other theories take as
    arguments.  Shown: messages are read back, the signed bytes determine what was signed, votes and
    proposals never share them, and legacy requests and replies survive the connection.
    \<open>Amino_Conversions\<close>: the conversions to the types of the Tendermint crates, and that the signed
    bytes say what the double-sign protection recorded.  \<open>Wire_Sessions\<close>: one turn of a session from
    bytes to bytes: a conflicting vote is reported over the legacy protocol, and not over protocol
    buffers.
  \<^item> \<open>Signing_Machine\<close>: an inductive step relation for one chain over the whole life of the KMS, with
    interleaved sessions, crashes and restarts; its invariant gives that no two conflicting states
    are signed.  \<open>Signing_Properties\<close>: \<^verbatim>\<open>Session::sign\<close> refines that machine; what is signed was stored
    first; a conflicting vote is refused, an acceptable one signed; no request panics; nothing above
    the maximum height is signed; which votes the protection can compare, and its limits.  \<open>Sample_World\<close> is the concrete KMS that the properties are applied to.
  \<^item> \<open>Kms_Client\<close> (\<^verbatim>\<open>client.rs\<close>, \<^verbatim>\<open>connection.rs\<close>, \<^verbatim>\<open>connection/\<close>, \<^verbatim>\<open>commands/start.rs\<close>): connecting,
    reconnecting, catching panics, starting the clients one after the other, of which the first already
    run when a later one makes the process exit.  \<open>Kms_Lives\<close>: several lives of the process,
    each started from the configuration and the files of the earlier ones.
    \<open>Concurrent_Sessions\<close>: the client threads with the steps of \<^verbatim>\<open>Session::sign\<close> interleaved (first
    checks, lock, comparison with the state, overwriting it, writing the file, signing).  Shown: the
    state lock excludes, and its holder gives it back after at most three steps of its own on every
    run; every interleaving has the files, chain states and signatures of a serial run, and
    conversely; the theorems below compose everything from the configuration file to the states
    recorded and to the votes signed.
  \<^item> \<open>Global_State\<close> (\<^verbatim>\<open>GlobalRegistry\<close> of \<^verbatim>\<open>chain/registry.rs\<close>, the statics of \<^verbatim>\<open>yubihsm.rs\<close>): the globals with
    their locks and their lazy initialisation, shown to provide the plain registry, connector and
    client that the other theories take as arguments, and to open the device once.  \<open>Unix_Socket\<close> (\<^verbatim>\<open>connection/unix.rs\<close>): how a reply
    is sent over a socket that takes it in pieces.
  \<^item> \<open>Tx_Signer\<close> (\<^verbatim>\<open>tx_signer.rs\<close>, \<^verbatim>\<open>tx_signer/\<close>): polling, authorising, signing, broadcasting with
    retries, and the sequence file.  Shown: everything broadcast is authorised and signed for its own
    sequence number, at most three of them in increasing order for one request, the arithmetic of
    block heights, and what a failing sequence file leads to.  \<open>Tx_Source\<close> (\<^verbatim>\<open>tx_signer/jsonrpc.rs\<close>): the HTTP
    messages behind the exchange with the source of transactions.

  \<^bold>\<open>Commands.\<close>
  \<^item> \<open>Init_Config\<close> (\<^verbatim>\<open>commands/init/\<close>): the networks, the templates and the text of a new configuration.
    The locale \<open>placeholder_names\<close> gives that filling a template by one replacement after the other
    equals a single pass.  \<open>Init_Command\<close> (\<^verbatim>\<open>commands/init.rs\<close>): directories, permissions and files.
  \<^item> \<open>Key_Commands\<close> (\<^verbatim>\<open>commands/softsign/\<close>, \<^verbatim>\<open>commands/ledger.rs\<close>): what the commands write is what the
    software signer loads; what \<^verbatim>\<open>ledger init\<close> signs.
  \<^item> \<open>Yubihsm_Client\<close> (\<^verbatim>\<open>yubihsm.rs\<close>), \<open>Yubihsm_Setup\<close> (\<^verbatim>\<open>commands/yubihsm/setup.rs\<close>) and \<open>Yubihsm_Keys\<close>
    (\<^verbatim>\<open>commands/yubihsm/keys.rs\<close>, \<^verbatim>\<open>keys/\<close>, \<^verbatim>\<open>detect.rs\<close>, \<^verbatim>\<open>test.rs\<close>): the connection to the device, its
    initialisation from a phrase, and its keys.  Shown: the device is erased only with consent and
    gets what was printed; derivation paths are unambiguous; backups are handed back unchanged (the
    locale \<open>wrapped_backup\<close>, for both commands that write one); keys are listed in order.
  \<^item> \<open>Command_Line\<close> (\<^verbatim>\<open>commands.rs\<close>, \<^verbatim>\<open>commands/yubihsm.rs\<close>): which file and which connection a command
    uses.  \<open>Kms_Application\<close> (\<^verbatim>\<open>application.rs\<close>, \<^verbatim>\<open>commands/start.rs\<close>, \<^verbatim>\<open>commands/version.rs\<close>, the rest of
    \<^verbatim>\<open>yubihsm.rs\<close>): the application object, the start command as a whole and how it ends.

  \<^bold>\<open>Tests.\<close>  \<open>Unit_Tests\<close> and \<open>Ledger_Tests\<close> run the unit tests of the repository on the model: the bytes
  of votes, proposals and keys, the double-sign check, the hook and the Ledger client.  The expected bytes
  were made with the reference implementation, so they tie the wire format of the model to it; the
  hash function is there given by its values at the registered names (\<open>name_digests\<close>).

  \<^bold>\<open>Loops and bounds.\<close>  Loops over input that is there (requests of a connection, polls, retries, the
  signing test) take the list of what comes in; for those that the program never leaves, the end of
  the list means that it is still running (\<open>None\<close>).  No fuel is used beside these lists: every other
  function is total, and the claims about signing hold for lists of any length.  Retrying a transaction
  is the source's fixed number of attempts.

  \<^bold>\<open>Not modelled.\<close>  The generated code of the prost crates itself (its wire format is modelled as far as
  the messages use it, and encoding into a growing buffer does not fail), parsing of TOML and JSON,
  cryptography, the derivation of keys and the secret connection handshake (third-party crates,
  parameters here); sockets, and threads beside the interleaving of their signing steps; log output and
  error texts; the entry point and the module declarations (\<^verbatim>\<open>bin/\<close>, \<^verbatim>\<open>lib.rs\<close>, \<^verbatim>\<open>prelude.rs\<close>); the test
  vectors of key derivation in \<^verbatim>\<open>commands/yubihsm/setup.rs\<close>, which need the cryptography; and the build
  with the mock YubiHSM.
\<close>

section \<open>From the configuration to signed votes\<close>

text \<open>
  C1: a KMS whose chains are configured with different state files never signs for two conflicting
  consensus states of one chain: when two votes or proposals are signed for a chain and the
  consensus states recorded for them have the same height, round and step, these have the same
  block ID.  The recorded state is what the double-sign protection keeps of a request: its height, the low
  16 bits of its round, its step, and its block ID if this parses.  This holds over any number
  of lives of the process, each started from the configuration and the state files the earlier ones
  left, whatever the operating system and the key stores answer, whatever the client threads are
  asked, however their steps interleave, also those of clients that run before a later one
  makes the start exit, and wherever each life ends, also while a thread holds the state lock of
  a chain.
\<close>

theorem kms_never_double_signs:
  assumes "json_roundtrip js" and "separate_config config"
    and "kms_threads tm cc js config d es d'"
    and "(c, r1, a) \<in> set es" and "(c, r2, b) \<in> set es"
    and "cs_height a = cs_height b" and "cs_round a = cs_round b" and "cs_step a = cs_step b"
  shows "cs_block_id a = cs_block_id b"
proof -
  obtain ls es' where serial: "kms_lives tm cc js config ls d = (d', es')" and sub: "set es \<subseteq> set es'"
    using kms_threads_serial [OF assms(3)] by blast
  show ?thesis
  proof (rule agreeingD [OF lives_agreeing [OF assms(1,2), of c tm cc ls d]])
    show "a \<in> states_of c (snd (kms_lives tm cc js config ls d))"
      and "b \<in> states_of c (snd (kms_lives tm cc js config ls d))"
      using assms(4,5) sub unfolding serial states_of_def by auto
    show "state_position a = state_position b" using assms(6-) by (simp add: state_position_def)
  qed
qed

text \<open>
  A run of the whole program, evaluated: a configuration with one chain, one software key and two
  validators, of which the second has no chain, is started on an empty disk.  The first client runs
  and is asked for a pre-vote for a block at height 5, then the process exits because of
  the second validator; it is started again and asked for the same vote with another time stamp.
\<close>

definition two_lives :: "life list" where
  "two_lives = [\<lparr>lf_threads = \<lambda>_. True, lf_env = \<lambda>_. plain_env, lf_keys = plain_keys,
                 lf_jobs = [job_for (Some voted_block) None]\<rparr>,
                \<lparr>lf_threads = \<lambda>_. True, lf_env = \<lambda>_. plain_env, lf_keys = plain_keys,
                 lf_jobs = [job_for (Some voted_block) (Some sample_time)]\<rparr>]"

definition signed_in_two_lives :: "signed_entry list" where
  "signed_in_two_lives =
     snd (kms_lives sample_tm sample_codec block_json second_without_chain two_lives Map.empty)"

lemma both_signed:
  "signed_in_two_lives = [(''c'', SignVote \<lparr>svr_vote = Some (vote_for (Some voted_block) None)\<rparr>, block_state),
     (''c'', SignVote \<lparr>svr_vote = Some (vote_for (Some voted_block) (Some sample_time))\<rparr>, block_state)]"
  by code_simp

lemma two_lives_as_threads:
  "\<exists>d'. kms_threads sample_tm sample_codec block_json second_without_chain Map.empty signed_in_two_lives d'"
proof -
  obtain d' where "kms_lives sample_tm sample_codec block_json second_without_chain two_lives Map.empty =
      (d', signed_in_two_lives)"
    unfolding signed_in_two_lives_def by (metis prod.collapse)
  then have "kms_threads sample_tm sample_codec block_json second_without_chain Map.empty signed_in_two_lives d'"
    by (rule lives_threads)
  then show ?thesis by (rule exI [of _ d'])
qed

lemma sample_config_separate: "separate_config second_without_chain"
  by (simp add: separate_config_def second_without_chain_def softsign_kms_def)

lemma block_json_roundtrip: "json_roundtrip block_json"
  by (simp add: block_json_def)

theorem kms_never_double_signs_witness:
  "\<exists>a b. (''c'', SignVote \<lparr>svr_vote = Some (vote_for (Some voted_block) None)\<rparr>, a) \<in> set signed_in_two_lives \<and>
     (''c'', SignVote \<lparr>svr_vote = Some (vote_for (Some voted_block) (Some sample_time))\<rparr>, b) \<in> set signed_in_two_lives \<and>
     cs_block_id a \<noteq> None \<and> cs_block_id a = cs_block_id b"
proof -
  obtain d' where run: "kms_threads sample_tm sample_codec block_json second_without_chain Map.empty signed_in_two_lives d'"
    using two_lives_as_threads by (rule exE)
  have "cs_block_id block_state = cs_block_id block_state"
    by (rule kms_never_double_signs [OF block_json_roundtrip sample_config_separate run,
        of "''c''" "SignVote \<lparr>svr_vote = Some (vote_for (Some voted_block) None)\<rparr>" block_state
          "SignVote \<lparr>svr_vote = Some (vote_for (Some voted_block) (Some sample_time))\<rparr>" block_state])
      (simp_all add: both_signed)
  then show ?thesis
    by (intro exI [of _ block_state] conjI) (simp_all add: both_signed, simp add: block_state_def)
qed

text \<open>
  C2: the same for the messages themselves.  Over all lives of a KMS whose chains are configured with
  different state files, two votes signed for one chain with the same height, round and type are
  for the same block in what is signed, under either protocol: their canonical block IDs
  agree, and the bytes to sign are the same up to the time stamp.  The block IDs have to be ones
  that the protection can compare (\<open>comparable_for\<close>: absent from the signed form, or parsed into the recorded
  state, for the legacy protocol with a total of parts below \<open>2 ^ 32\<close>).
\<close>

theorem kms_votes_for_one_block:
  assumes "json_roundtrip js" and "separate_config config" and "parts_header_stores tm"
    and "kms_threads tm cc js config d es d'"
    and "(c, SignVote \<lparr>svr_vote = Some u\<rparr>, a) \<in> set es" and "(c, SignVote \<lparr>svr_vote = Some v\<rparr>, b) \<in> set es"
    and "v_height u = v_height v" and "v_round u = v_round v" and "v_vote_type u = v_vote_type v"
    and "comparable_for version tm (v_block_id u)" and "comparable_for version tm (v_block_id v)"
  shows "(if is_protobuf version
       then pcv_block_id (pb_canonical_vote_of u c) = pcv_block_id (pb_canonical_vote_of v c)
       else cv_block_id (canonical_vote_new u c) = cv_block_id (canonical_vote_new v c)) \<and>
    vote_sign_bytes cc c version \<lparr>svr_vote = Some (u\<lparr>v_timestamp := v_timestamp v\<rparr>)\<rparr> =
    vote_sign_bytes cc c version \<lparr>svr_vote = Some v\<rparr>"
proof -
  obtain ls es' where serial: "kms_lives tm cc js config ls d = (d', es')" and sub: "set es \<subseteq> set es'"
    using kms_threads_serial [OF assms(4)] by blast
  let ?es = "snd (kms_lives tm cc js config ls d)"
  have mem: "(c, SignVote \<lparr>svr_vote = Some u\<rparr>, a) \<in> set ?es" "(c, SignVote \<lparr>svr_vote = Some v\<rparr>, b) \<in> set ?es"
    using assms(5,6) sub by (auto simp: serial)
  obtain t t' where parsed: "parse_request (vote_request tm cc) \<lparr>svr_vote = Some u\<rparr> = Done (t, a)"
    "parse_request (vote_request tm cc) \<lparr>svr_vote = Some v\<rparr> = Done (t', b)"
    using lives_vote_entry [OF mem(1)] lives_vote_entry [OF mem(2)] by blast
  have "a \<in> states_of c ?es" "b \<in> states_of c ?es" using mem by (force simp: states_of_def)+
  note same = agreeing_votes_same_block [OF lives_agreeing [OF assms(1,2)] this parsed assms(7-9)]
  show ?thesis by (rule same_block_signed [OF assms(3) same assms(7-)])
qed

theorem kms_votes_for_one_block_witness:
  "map (fst \<circ> snd) signed_in_two_lives =
     [SignVote \<lparr>svr_vote = Some (vote_for (Some voted_block) None)\<rparr>,
      SignVote \<lparr>svr_vote = Some (vote_for (Some voted_block) (Some sample_time))\<rparr>] \<and>
   vote_sign_bytes sample_codec ''c'' Legacy
     \<lparr>svr_vote = Some ((vote_for (Some voted_block) None)\<lparr>v_timestamp := Some sample_time\<rparr>)\<rparr> =
   vote_sign_bytes sample_codec ''c'' Legacy \<lparr>svr_vote = Some (vote_for (Some voted_block) (Some sample_time))\<rparr>"
proof -
  obtain d' where run: "kms_threads sample_tm sample_codec block_json second_without_chain Map.empty signed_in_two_lives d'"
    using two_lives_as_threads by (rule exE)
  have "comparable_for Legacy sample_tm (Some voted_block)" by code_simp
  then show ?thesis
    using kms_votes_for_one_block [OF block_json_roundtrip sample_config_separate sample_parts_header_stores run,
        of "''c''" "vote_for (Some voted_block) None" block_state
          "vote_for (Some voted_block) (Some sample_time)" block_state Legacy]
    by (simp add: both_signed) (simp add: vote_for_def)
qed

end
